(* ===== verification/Go_Prelude.thy ===== *)
theory Go_Prelude
  imports Main "HOL-Library.Word"
begin

text \<open>
  The part of the Go language and of its standard library that every component shares:
  64-bit signed arithmetic with its wrap-around written out, truncating division,
  \<open>strconv.FormatInt\<close> and \<open>strconv.ParseInt\<close> in base ten, panics as values, and the
  unspecified order in which a \<open>range\<close> statement visits a map.
\<close>

named_theorems go_arith \<open>facts that remove the wrap-around where the operands are small\<close>

named_theorems go_defs \<open>definitions a component's proofs unfold together\<close>

section \<open>Panics and results\<close>

datatype go_panic =
    IndexOutOfRange
  | NilDereference
  | DivideByZero
  | SliceBounds
  | TypeAssertion
  | Panicked string

type_synonym 'a go = "go_panic + 'a"

section \<open>Bytes\<close>

type_synonym bytes = "8 word list"

text \<open>\<open>[]byte(s)\<close>\<close>

definition bytes_of :: "string \<Rightarrow> bytes" where
  "bytes_of s = map of_char s"

section \<open>Signed 64-bit integers\<close>

text \<open>
  An \<open>int64\<close> (and an \<open>int\<close> on the 64-bit targets of the program) is an \<^typ>\<open>int\<close> in range;
  every addition, subtraction and multiplication of the source is wrapped by \<open>i64\<close>.
\<close>

definition i64 :: "int \<Rightarrow> int" where
  "i64 x = (x + 2 ^ 63) mod 2 ^ 64 - 2 ^ 63"

definition in_i64 :: "int \<Rightarrow> bool" where
  "in_i64 x \<longleftrightarrow> - (2 ^ 63) \<le> x \<and> x < 2 ^ 63"

definition max_i64 :: int where
  "max_i64 = 2 ^ 63 - 1"

definition min_i64 :: int where
  "min_i64 = - (2 ^ 63)"

text \<open>Go's \<open>/\<close> and \<open>%\<close> truncate towards zero; the caller writes the check for a zero divisor.\<close>

definition go_div :: "int \<Rightarrow> int \<Rightarrow> int" where
  "go_div a b = sgn a * sgn b * (\<bar>a\<bar> div \<bar>b\<bar>)"

definition go_mod :: "int \<Rightarrow> int \<Rightarrow> int" where
  "go_mod a b = a - b * go_div a b"

section \<open>Decimal conversions\<close>

definition digit_char :: "nat \<Rightarrow> char" where
  "digit_char d = ''0123456789'' ! d"

fun nat_digits :: "nat \<Rightarrow> string" where
  "nat_digits n =
     (if n < 10 then [digit_char n] else nat_digits (n div 10) @ [digit_char (n mod 10)])"

declare nat_digits.simps [simp del]

definition FormatInt :: "int \<Rightarrow> string" where
  "FormatInt x = (if x < 0 then CHR ''-'' # nat_digits (nat (- x)) else nat_digits (nat x))"

fun digit_val :: "char \<Rightarrow> nat option" where
  "digit_val c =
     (let k = of_char c :: nat in if 48 \<le> k \<and> k \<le> 57 then Some (k - 48) else None)"

fun digits_val :: "nat \<Rightarrow> string \<Rightarrow> nat option" where
  "digits_val acc [] = Some acc"
| "digits_val acc (c # cs) =
     (case digit_val c of None \<Rightarrow> None | Some d \<Rightarrow> digits_val (10 * acc + d) cs)"

text \<open>
  \<open>strconv.ParseInt(s, 10, 64)\<close> with its error dropped, as the callers drop it: a syntax error
  gives 0, a value out of range the nearest bound.
\<close>

definition clamp_i64 :: "int \<Rightarrow> int" where
  "clamp_i64 x = max min_i64 (min max_i64 x)"

definition ParseInt :: "string \<Rightarrow> int" where
  "ParseInt s =
     (case s of
        [] \<Rightarrow> 0
      | c # cs \<Rightarrow>
          (if c = CHR ''-'' \<or> c = CHR ''+''
           then (if cs = [] then 0
                 else (case digits_val 0 cs of
                         None \<Rightarrow> 0
                       | Some n \<Rightarrow> clamp_i64 (if c = CHR ''-'' then - int n else int n)))
           else (case digits_val 0 s of None \<Rightarrow> 0 | Some n \<Rightarrow> clamp_i64 (int n))))"

section \<open>Strings\<close>

text \<open>\<open>strings.ToUpper\<close> on ASCII, \<open>strings.Split\<close> at a single character, and \<open>strings.Join\<close>.\<close>

definition upper_char :: "char \<Rightarrow> char" where
  "upper_char c =
     (let k = of_char c :: nat in if 97 \<le> k \<and> k \<le> 122 then char_of (k - 32) else c)"

definition ToUpper :: "string \<Rightarrow> string" where
  "ToUpper s = map upper_char s"

fun split_on :: "char \<Rightarrow> string \<Rightarrow> string list" where
  "split_on sep [] = [[]]"
| "split_on sep (c # cs) =
     (if c = sep then [] # split_on sep cs
      else (case split_on sep cs of w # ws \<Rightarrow> (c # w) # ws | [] \<Rightarrow> [[c]]))"

fun join :: "string \<Rightarrow> string list \<Rightarrow> string" where
  "join sep [] = []"
| "join sep [s] = s"
| "join sep (s # t # ss) = s @ sep @ join sep (t # ss)"

lemma split_on_ne: "split_on sep cs \<noteq> []"
  by (induction cs) (auto split: list.splits)

lemma join_cons: "ss \<noteq> [] \<Longrightarrow> join sep (s # ss) = s @ sep @ join sep ss"
  by (cases ss) simp_all

text \<open>Splitting loses nothing, and no part holds the separator.\<close>

lemma join_split: "join [sep] (split_on sep cs) = cs"
proof (induction cs)
  case (Cons c cs)
  obtain w ws where w: "split_on sep cs = w # ws" using split_on_ne [of sep cs] by (cases "split_on sep cs") auto
  with Cons.IH show ?case by (cases ws) (auto simp: join_cons)
qed simp

lemma split_on_free: "w \<in> set (split_on sep cs) \<Longrightarrow> sep \<notin> set w"
proof (induction cs arbitrary: w)
  case (Cons c cs)
  obtain v ws where "split_on sep cs = v # ws" using split_on_ne [of sep cs] by (cases "split_on sep cs") auto
  with Cons show ?case by (auto split: if_splits)
qed simp

section \<open>Iterating over a map\<close>

text \<open>
  A \<open>range\<close> over a map visits every key once, in an order the language does not fix. A
  definition that ranges over a map takes the order as an argument.
\<close>

definition range_order :: "'k list \<Rightarrow> ('k \<rightharpoonup> 'v) \<Rightarrow> bool" where
  "range_order ks m \<longleftrightarrow> distinct ks \<and> set ks = dom m"

section \<open>Channels\<close>

text \<open>A send on a channel with capacity \<open>cap\<close>: \<open>None\<close> where it would block.\<close>

definition chan_send :: "nat \<Rightarrow> 'a \<Rightarrow> 'a list \<Rightarrow> 'a list option" where
  "chan_send cap x ch = (if length ch < cap then Some (ch @ [x]) else None)"

section \<open>Runs\<close>

text \<open>A sequence of steps of a component; a panic ends the run.\<close>

fun go_run :: "('s \<Rightarrow> 'e \<Rightarrow> ('s \<times> 'o option) go) \<Rightarrow> 's \<Rightarrow> 'e list \<Rightarrow> ('s \<times> 'o list) go" where
  "go_run step s [] = Inr (s, [])"
| "go_run step s (e # es) =
     (case step s e of
        Inl p \<Rightarrow> Inl p
      | Inr (s', out) \<Rightarrow>
          (case go_run step s' es of
             Inl p \<Rightarrow> Inl p
           | Inr (s'', outs) \<Rightarrow>
               Inr (s'', (case out of None \<Rightarrow> outs | Some x \<Rightarrow> x # outs))))"

section \<open>Lemmas: integers\<close>

lemma i64_in_range: "in_i64 (i64 x)"
proof -
  have "0 \<le> (x + 2 ^ 63) mod 2 ^ 64" "(x + 2 ^ 63) mod 2 ^ 64 < (2 ^ 64 :: int)"
    by simp_all
  then show ?thesis by (simp add: i64_def in_i64_def)
qed

lemma i64_id [go_arith]: "in_i64 x \<Longrightarrow> i64 x = x"
  by (simp add: i64_def in_i64_def)

lemma i64_small: "\<bar>x\<bar> \<le> 2 ^ 62 \<Longrightarrow> i64 x = x"
  by (rule i64_id) (auto simp: in_i64_def)

text \<open>The wrap-around is the one of 64-bit two's complement words.\<close>

lemma i64_eq_sint: "i64 x = sint (word_of_int x :: 64 word)"
  by (simp add: i64_def sint_sbintrunc' signed_take_bit_eq_take_bit_shift take_bit_eq_mod)

lemma i64_idem [simp]: "i64 (i64 x) = i64 x"
  by (simp add: i64_id i64_in_range)

lemma go_div_nonneg: "0 \<le> a \<Longrightarrow> 0 < b \<Longrightarrow> go_div a b = a div b"
  by (cases "a = 0") (simp_all add: go_div_def)

lemma go_mod_nonneg: "0 \<le> a \<Longrightarrow> 0 < b \<Longrightarrow> go_mod a b = a mod b"
  by (simp add: go_mod_def go_div_nonneg minus_mult_div_eq_mod)

section \<open>Lemmas: decimal conversions\<close>

lemma digit_val_digit_char: "d < 10 \<Longrightarrow> digit_val (digit_char d) = Some d"
  by (auto simp: digit_char_def less_Suc_eq numeral_eq_Suc)

lemma digits_val_append:
  "digits_val acc (xs @ ys) = (case digits_val acc xs of None \<Rightarrow> None | Some a \<Rightarrow> digits_val a ys)"
  by (induction xs arbitrary: acc) (auto split: option.splits)

lemma digits_val_nat_digits: "digits_val 0 (nat_digits n) = Some n"
proof (induction n rule: nat_digits.induct)
  case (1 n)
  show ?case
  proof (cases "n < 10")
    case True
    then show ?thesis by (simp add: nat_digits.simps [of n] digit_val_digit_char del: digit_val.simps)
  next
    case False
    with 1 have "digits_val 0 (nat_digits (n div 10)) = Some (n div 10)" by simp
    with False show ?thesis
      by (simp add: nat_digits.simps [of n] digits_val_append digit_val_digit_char
          del: digit_val.simps)
  qed
qed

lemma nat_digits_inject: "nat_digits m = nat_digits n \<longleftrightarrow> m = n"
  by (metis digits_val_nat_digits option.inject)

lemma nat_digits_not_minus: "nat_digits n \<noteq> CHR ''-'' # cs"
proof
  assume "nat_digits n = CHR ''-'' # cs"
  then have "digits_val 0 (CHR ''-'' # cs) = Some n" by (metis digits_val_nat_digits)
  then show False by simp
qed

lemma nat_digits_sign: "nat_digits n = c # cs \<Longrightarrow> c \<noteq> CHR ''-'' \<and> c \<noteq> CHR ''+''"
proof
  assume n: "nat_digits n = c # cs"
  then show "c \<noteq> CHR ''-''" using nat_digits_not_minus [of n cs] by auto
  show "c \<noteq> CHR ''+''"
  proof
    assume "c = CHR ''+''"
    with n have "digits_val 0 (CHR ''+'' # cs) = Some n" by (metis digits_val_nat_digits)
    then show False by simp
  qed
qed

lemma nat_digits_not_Nil: "nat_digits n \<noteq> []"
  by (subst nat_digits.simps) simp

lemma ParseInt_FormatInt: "in_i64 x \<Longrightarrow> ParseInt (FormatInt x) = x"
proof -
  assume "in_i64 x"
  then have c: "clamp_i64 x = x" by (auto simp: in_i64_def clamp_i64_def min_i64_def max_i64_def)
  show ?thesis
  proof (cases "x < 0")
    case True
    then show ?thesis using c
      by (simp add: FormatInt_def ParseInt_def nat_digits_not_Nil digits_val_nat_digits del: digits_val.simps)
  next
    case False
    obtain d ds where d: "nat_digits (nat x) = d # ds" using nat_digits_not_Nil by (metis neq_Nil_conv)
    then have "digits_val 0 (d # ds) = Some (nat x)" by (metis digits_val_nat_digits)
    with False c d nat_digits_sign [OF d] show ?thesis
      by (simp add: FormatInt_def ParseInt_def del: digits_val.simps)
  qed
qed

lemma FormatInt_inject [simp]: "FormatInt x = FormatInt y \<longleftrightarrow> x = y"
  by (auto simp: FormatInt_def nat_digits_inject nat_digits_not_minus
      nat_digits_not_minus [symmetric] split: if_splits)

section \<open>Lemmas: map iteration\<close>

lemma range_order_mem: "range_order ks m \<Longrightarrow> k \<in> set ks \<longleftrightarrow> (\<exists>v. m k = Some v)"
  by (auto simp: range_order_def)

lemma range_order_empty [simp]: "range_order [] m \<longleftrightarrow> m = Map.empty"
  by (auto simp: range_order_def)

section \<open>Retrying\<close>

text \<open>\<open>for { x, err := try(); if err != nil { sleep; continue }; ...; break }\<close>, where \<open>attempt k\<close> is the
  outcome of the \<open>k\<close>-th try: \<open>None\<close> where no attempt ever succeeds.\<close>

partial_function (option) retry :: "(nat \<Rightarrow> 'c option) \<Rightarrow> nat \<Rightarrow> 'c option" where
  "retry attempt k = (case attempt k of Some c \<Rightarrow> Some c | None \<Rightarrow> retry attempt (Suc k))"

declare retry.simps [code]

text \<open>The loop ends exactly where some attempt succeeds, with the connection of the first that does.\<close>

lemma retry_first:
  assumes "attempt (k + n) = Some c" and "\<forall>i<n. attempt (k + i) = None"
  shows "retry attempt k = Some c"
  using assms
proof (induction n arbitrary: k)
  case 0
  then show ?case by (subst retry.simps) simp
next
  case (Suc n)
  from Suc.prems(2) have "attempt k = None" by (metis add.right_neutral zero_less_Suc)
  moreover have "retry attempt (Suc k) = Some c"
    by (rule Suc.IH) (use Suc.prems in \<open>auto simp flip: add_Suc_right\<close>)
  ultimately show ?case by (subst retry.simps) simp
qed

lemma retry_returns: "attempt n = Some c \<Longrightarrow> \<exists>c'. retry attempt 0 = Some c'"
proof -
  assume n: "attempt n = Some c"
  obtain m c' where m: "attempt m = Some c'" and first: "\<forall>i<m. attempt i = None"
    using exists_least_iff [of "\<lambda>m. attempt m \<noteq> None"] n by auto
  have "retry attempt 0 = Some c'"
    by (rule retry_first [of attempt 0 m]) (use m first in \<open>simp_all only: add_0\<close>)
  then show ?thesis ..
qed

text \<open>Where no attempt succeeds the loop does not return.\<close>

lemma retry_result: "retry attempt k = Some c \<Longrightarrow> \<exists>n\<ge>k. attempt n = Some c \<and> (\<forall>i. k \<le> i \<longrightarrow> i < n \<longrightarrow> attempt i = None)"
proof (induction rule: retry.raw_induct [rotated 1, consumes 1])
  case (1 retry attempt k c)
  show ?case
  proof (cases "attempt k")
    case None
    with 1(2) have "retry attempt (Suc k) = Some c" by simp
    from 1(1) [OF this] obtain n where "Suc k \<le> n" "attempt n = Some c"
      "\<forall>i. Suc k \<le> i \<longrightarrow> i < n \<longrightarrow> attempt i = None" by blast
    then show ?thesis using None by (metis Suc_leD le_antisym not_less_eq_eq)
  next
    case (Some c')
    with 1(2) show ?thesis by (intro exI [of _ k]) auto
  qed
qed

section \<open>Sequencing of calls that may panic\<close>

definition go_bind :: "'a go \<Rightarrow> ('a \<Rightarrow> 'b go) \<Rightarrow> 'b go" where
  "go_bind m f = (case m of Inl p \<Rightarrow> Inl p | Inr x \<Rightarrow> f x)"

lemma go_bind_simps [simp]: "go_bind (Inl p) f = Inl p" "go_bind (Inr x) f = f x"
  by (simp_all add: go_bind_def)

lemma go_bind_eq_Inr: "go_bind m f = Inr y \<longleftrightarrow> (\<exists>x. m = Inr x \<and> f x = Inr y)"
  by (cases m) simp_all

end
