(* ===== verification/Go_List.thy ===== *)
theory Go_List
  imports Go_Prelude
begin

text \<open>
  The package \<open>container/list\<close> of the Go standard library, as far as the program uses it. An
  element is a handle (the \<open>*list.Element\<close>); the list remembers its elements in order and the
  next handle to give out. \<open>Next\<close> of an element that has been removed is nil, because
  \<open>Remove\<close> clears the element's list pointer: a loop that removes the element it stands on and
  then steps with \<open>e.Next()\<close> ends there. The theory defines such loops over handles
  (\<open>range_list\<close>), a list function that says what they compute (\<open>list_loop\<close>), proves the two
  equal, and states the interface the clients of a list rely on as a locale.
\<close>

section \<open>Lists and elements\<close>

record 'a glist =
  elems :: "(nat \<times> 'a) list"
  stamp :: nat

definition list_Init :: "'a glist" where
  "list_Init = \<lparr>elems = [], stamp = 0\<rparr>"

definition Len :: "'a glist \<Rightarrow> nat" where
  "Len l = length (elems l)"

definition Front :: "'a glist \<Rightarrow> nat option" where
  "Front l = (case elems l of [] \<Rightarrow> None | (h, _) # _ \<Rightarrow> Some h)"

definition Back :: "'a glist \<Rightarrow> nat option" where
  "Back l = (if elems l = [] then None else Some (fst (last (elems l))))"

definition Value :: "'a glist \<Rightarrow> nat \<Rightarrow> 'a option" where
  "Value l h = map_of (elems l) h"

fun next_in :: "(nat \<times> 'a) list \<Rightarrow> nat \<Rightarrow> nat option" where
  "next_in [] h = None"
| "next_in ((k, v) # es) h =
     (if k = h then (case es of [] \<Rightarrow> None | (k', _) # _ \<Rightarrow> Some k') else next_in es h)"

definition Next :: "'a glist \<Rightarrow> nat \<Rightarrow> nat option" where
  "Next l h = next_in (elems l) h"

definition PushBack :: "'a \<Rightarrow> 'a glist \<Rightarrow> 'a glist" where
  "PushBack v l = l\<lparr>elems := elems l @ [(stamp l, v)], stamp := Suc (stamp l)\<rparr>"

definition Remove :: "nat \<Rightarrow> 'a glist \<Rightarrow> 'a glist" where
  "Remove h l = l\<lparr>elems := filter (\<lambda>e. fst e \<noteq> h) (elems l)\<rparr>"

text \<open>
  A list of pointers: writing through the pointer held by an element changes what every later
  read of that element sees.
\<close>

definition SetValue :: "nat \<Rightarrow> 'a \<Rightarrow> 'a glist \<Rightarrow> 'a glist" where
  "SetValue h v l = l\<lparr>elems := map (\<lambda>e. if fst e = h then (h, v) else e) (elems l)\<rparr>"

definition contents :: "'a glist \<Rightarrow> 'a list" where
  "contents l = map snd (elems l)"

definition list_wf :: "'a glist \<Rightarrow> bool" where
  "list_wf l \<longleftrightarrow> distinct (map fst (elems l)) \<and> (\<forall>e\<in>set (elems l). fst e < stamp l)"

section \<open>Loops that step with \<open>Next\<close>\<close>

text \<open>
  \<^verbatim>\<open>for e := l.Front(); e != nil; e = e.Next() { ... }\<close>, where the body reads the value, updates
  an accumulator and may remove the element. A loop visits an element at most once, so a fuel
  of the length of the list is enough (\<open>range_from_enough\<close> shows that it never runs out).
\<close>

fun range_from ::
  "nat \<Rightarrow> ('a \<Rightarrow> 'b \<Rightarrow> 'b \<times> bool) \<Rightarrow> 'a glist \<Rightarrow> nat option \<Rightarrow> 'b \<Rightarrow> ('a glist \<times> 'b) option" where
  "range_from fuel body l None acc = Some (l, acc)"
| "range_from 0 body l (Some h) acc = None"
| "range_from (Suc fuel) body l (Some h) acc =
     (case Value l h of
        None \<Rightarrow> Some (l, acc)
      | Some v \<Rightarrow>
          (let (acc', remove) = body v acc;
               l' = (if remove then Remove h l else l)
           in range_from fuel body l' (Next l' h) acc'))"

definition range_list ::
  "('a \<Rightarrow> 'b \<Rightarrow> 'b \<times> bool) \<Rightarrow> 'a glist \<Rightarrow> 'b \<Rightarrow> 'a glist \<times> 'b" where
  "range_list body l acc =
     (case range_from (Len l) body l (Front l) acc of Some r \<Rightarrow> r | None \<Rightarrow> (l, acc))"

text \<open>What such a loop computes on the values: it stops behind the first element it removes.\<close>

fun list_loop :: "('a \<Rightarrow> 'b \<Rightarrow> 'b \<times> bool) \<Rightarrow> 'a list \<Rightarrow> 'b \<Rightarrow> 'a list \<times> 'b" where
  "list_loop body [] acc = ([], acc)"
| "list_loop body (v # vs) acc =
     (let (acc', remove) = body v acc
      in if remove then (vs, acc')
         else (let (vs', acc'') = list_loop body vs acc' in (v # vs', acc'')))"

section \<open>Lemmas: the operations\<close>

lemmas glist_defs = list_Init_def Len_def Front_def Back_def Value_def Next_def PushBack_def
  Remove_def SetValue_def contents_def list_wf_def

lemma contents_Init [simp]: "contents list_Init = []"
  by (simp add: glist_defs)

lemma list_wf_Init [simp]: "list_wf list_Init"
  by (simp add: glist_defs)

lemma Len_contents: "Len l = length (contents l)"
  by (simp add: glist_defs)

lemma contents_PushBack [simp]: "contents (PushBack v l) = contents l @ [v]"
  by (simp add: glist_defs)

lemma list_wf_PushBack [simp]: "list_wf l \<Longrightarrow> list_wf (PushBack v l)"
  by (force simp: glist_defs)

lemma list_wf_Remove [simp]: "list_wf l \<Longrightarrow> list_wf (Remove h l)"
  by (auto simp: glist_defs distinct_map_filter)

lemma Front_Some:
  "Front l = Some h \<longleftrightarrow> (\<exists>v es. elems l = (h, v) # es)"
  by (auto simp: Front_def split: list.splits)

lemma Front_contents: "list_wf l \<Longrightarrow> contents l = v # vs \<Longrightarrow>
   \<exists>h. Front l = Some h \<and> Value l h = Some v \<and> contents (Remove h l) = vs"
proof -
  assume wf: "list_wf l" and "contents l = v # vs"
  then obtain h es where e: "elems l = (h, v) # es" and vs: "vs = map snd es"
    by (cases "elems l") (auto simp: contents_def)
  from wf e have "h \<notin> fst ` set es" by (simp add: list_wf_def)
  then have "filter (\<lambda>e. fst e \<noteq> h) es = es" by (intro filter_True) force
  with e vs show ?thesis by (simp add: glist_defs)
qed

lemma Front_empty: "contents l = [] \<longleftrightarrow> Front l = None"
  by (cases "elems l") (auto simp: glist_defs)

lemma Back_empty: "contents l = [] \<longleftrightarrow> Back l = None"
  by (auto simp: glist_defs)

lemma Back_contents: "list_wf l \<Longrightarrow> contents l = vs @ [v] \<Longrightarrow>
   \<exists>h. Back l = Some h \<and> Value l h = Some v"
proof -
  assume wf: "list_wf l" and c: "contents l = vs @ [v]"
  then obtain es h where e: "elems l = es @ [(h, v)]"
    by (auto simp: contents_def map_eq_append_conv)
  from wf e have "h \<notin> fst ` set es" by (simp add: list_wf_def)
  then have "map_of es h = None" by (simp add: map_of_eq_None_iff)
  with e show ?thesis by (simp add: glist_defs map_add_def)
qed

lemma list_wf_SetValue [simp]: "list_wf l \<Longrightarrow> list_wf (SetValue h v l)"
proof -
  have keys: "map fst (map (\<lambda>e. if fst e = h then (h, v) else e) es) = map fst es"
    for es :: "(nat \<times> 'a) list"
    by (induction es) auto
  show "list_wf l \<Longrightarrow> list_wf (SetValue h v l)"
    unfolding list_wf_def SetValue_def by (auto simp: keys simp del: map_map)
qed

lemma contents_SetValue_Front:
  "list_wf l \<Longrightarrow> contents l = u # us \<Longrightarrow> Front l = Some h \<Longrightarrow> contents (SetValue h v l) = v # us"
  by (force simp: Front_Some glist_defs)

lemma contents_SetValue_Back:
  assumes "list_wf l" and "contents l = us @ [u]" and "Back l = Some h"
  shows "contents (SetValue h v l) = us @ [v]"
proof -
  from assms obtain es where e: "elems l = es @ [(h, u)]"
    by (auto simp: contents_def Back_def map_eq_append_conv)
  with assms(1) have "\<forall>e\<in>set es. fst e \<noteq> h" by (auto simp: list_wf_def)
  then have "map (\<lambda>e. if fst e = h then (h, v) else e) es = es" by (intro map_idI) auto
  with e assms(2) show ?thesis by (auto simp: contents_def SetValue_def)
qed

section \<open>Lemmas: the loops\<close>

lemma next_in_append:
  assumes "h \<notin> fst ` set pre"
  shows "next_in (pre @ (h, v) # es) h = (case es of [] \<Rightarrow> None | (k, _) # _ \<Rightarrow> Some k)"
  using assms by (induction pre) auto

lemma next_in_absent: "h \<notin> fst ` set es \<Longrightarrow> next_in es h = None"
  by (induction es h rule: next_in.induct) auto

lemma range_from_list_loop:
  assumes "list_wf l" and "elems l = pre @ es" and "length es \<le> fuel"
  shows "\<exists>l'. range_from fuel body l (case es of [] \<Rightarrow> None | (h, _) # _ \<Rightarrow> Some h) acc
              = Some (l', snd (list_loop body (map snd es) acc))
            \<and> list_wf l' \<and> contents l' = map snd pre @ fst (list_loop body (map snd es) acc)"
  using assms
proof (induction es arbitrary: l pre fuel acc)
  case Nil
  then show ?case by (simp add: contents_def)
next
  case (Cons e es)
  obtain h v where e: "e = (h, v)" by force
  from Cons.prems(3) obtain fuel' where fuel: "fuel = Suc fuel'" and le: "length es \<le> fuel'"
    by (cases fuel) auto
  from Cons.prems e have fresh: "h \<notin> fst ` set pre" "h \<notin> fst ` set es"
    by (auto simp: list_wf_def image_iff)
  then have "map_of pre h = None" by (simp add: map_of_eq_None_iff)
  then have val: "Value l h = Some v"
    using Cons.prems(2) e by (simp add: Value_def map_add_def)
  obtain acc' rm where b: "body v acc = (acc', rm)" by force
  show ?case
  proof (cases rm)
    case True
    have keep: "filter (\<lambda>e. fst e \<noteq> h) (elems l) = pre @ es"
      using fresh Cons.prems(2) e by (auto simp: image_iff intro!: arg_cong2 [where f = append] filter_True)
    then have nx: "Next (Remove h l) h = None"
      using fresh by (simp add: Next_def Remove_def next_in_absent image_Un)
    have "contents (Remove h l) = map snd (pre @ es)"
      using keep by (simp add: contents_def Remove_def)
    with nx show ?thesis
      using True b fuel e val Cons.prems(1) by simp
  next
    case False
    have nx: "Next l h = (case es of [] \<Rightarrow> None | (k, _) # _ \<Rightarrow> Some k)"
      using next_in_append [OF fresh(1)] Cons.prems(2) e by (simp add: Next_def)
    have "elems l = (pre @ [(h, v)]) @ es" using Cons.prems(2) e by simp
    from Cons.IH [OF Cons.prems(1) this le, of acc'] show ?thesis
      using False b val fuel e nx by (auto split: prod.splits)
  qed
qed

lemma range_from_enough:
  assumes "list_wf l"
  shows "\<exists>l'. range_from (Len l) body l (Front l) acc
              = Some (l', snd (list_loop body (contents l) acc))
            \<and> list_wf l' \<and> contents l' = fst (list_loop body (contents l) acc)"
  using range_from_list_loop [OF assms, of "[]" "elems l" "Len l" body acc]
  by (simp add: Len_def Front_def contents_def)

lemma range_list_loop:
  assumes "list_wf l"
  shows "list_wf (fst (range_list body l acc))"
    and "contents (fst (range_list body l acc)) = fst (list_loop body (contents l) acc)"
    and "snd (range_list body l acc) = snd (list_loop body (contents l) acc)"
  using range_from_enough [OF assms, of body acc] by (auto simp: range_list_def)

text \<open>A body that never removes makes the loop a left fold.\<close>

lemma list_loop_fold:
  "(\<And>v acc. body v acc = (f v acc, False)) \<Longrightarrow> list_loop body vs acc = (vs, fold f vs acc)"
  by (induction vs arbitrary: acc) auto

text \<open>A body that removes what it selects takes the first selected value out, and only that one.\<close>

lemma list_loop_select:
  assumes "\<And>v acc. body v acc = (if P v then (f v acc, True) else (acc, False))"
  shows "list_loop body vs acc =
    (takeWhile (\<lambda>v. \<not> P v) vs @ tl (dropWhile (\<lambda>v. \<not> P v) vs),
     case dropWhile (\<lambda>v. \<not> P v) vs of [] \<Rightarrow> acc | v # _ \<Rightarrow> f v acc)"
  by (induction vs) (auto simp: assms split: list.splits)

section \<open>The interface of a queue of elements\<close>

text \<open>
  What the clients use: the values in order, appending at the back, looking at the front and
  removing the front element.
\<close>

locale element_queue =
  fixes empty :: 'q
    and push :: "'a \<Rightarrow> 'q \<Rightarrow> 'q"
    and front :: "'q \<Rightarrow> 'h option"
    and remove :: "'h \<Rightarrow> 'q \<Rightarrow> 'q"
    and len :: "'q \<Rightarrow> nat"
    and vals :: "'q \<Rightarrow> 'a list"
    and invar :: "'q \<Rightarrow> bool"
  assumes invar_empty: "invar empty"
    and vals_empty: "vals empty = []"
    and invar_push: "invar q \<Longrightarrow> invar (push v q)"
    and vals_push: "invar q \<Longrightarrow> vals (push v q) = vals q @ [v]"
    and len_vals: "invar q \<Longrightarrow> len q = length (vals q)"
    and front_vals: "invar q \<Longrightarrow> vals q = v # vs \<Longrightarrow> \<exists>h. front q = Some h \<and> vals (remove h q) = vs"
    and invar_remove: "invar q \<Longrightarrow> invar (remove h q)"
begin

lemma pop_vals: "invar q \<Longrightarrow> vals q \<noteq> [] \<Longrightarrow> front q = Some h \<Longrightarrow> vals (remove h q) = tl (vals q)"
  using front_vals [of q "hd (vals q)" "tl (vals q)"] by auto

text \<open>Appending and dropping the front when the queue has grown beyond \<open>n\<close> keeps the last \<open>n\<close>.\<close>

lemma push_evict_vals:
  assumes "invar q" and "length (vals q) \<le> n"
  shows "vals (case front (push v q) of
                 None \<Rightarrow> push v q
               | Some h \<Rightarrow> if n < len (push v q) then remove h (push v q) else push v q)
         = drop (length (vals q @ [v]) - n) (vals q @ [v])"
proof -
  let ?q = "push v q"
  have inv: "invar ?q" and vals: "vals ?q = vals q @ [v]"
    using assms(1) by (simp_all add: invar_push vals_push)
  then obtain h where h: "front ?q = Some h" "vals (remove h ?q) = tl (vals q @ [v])"
    using front_vals [of ?q "hd (vals q @ [v])" "tl (vals q @ [v])"] by auto
  show ?thesis
  proof (cases "n < length (vals q @ [v])")
    case True
    with assms(2) have "length (vals q @ [v]) - n = 1" by simp
    with True h inv vals show ?thesis by (simp add: len_vals drop_Suc del: drop_append)
  next
    case False
    with h inv vals show ?thesis by (simp add: len_vals)
  qed
qed

end

interpretation glq: element_queue list_Init PushBack Front Remove Len contents list_wf
proof (standard, goal_cases)
  case (6 q v vs)
  then show ?case using Front_contents [OF 6] by auto
qed (simp_all add: Len_contents)

end
