(* ===== verification/Quote_Types.thy ===== *)
theory Quote_Types
  imports Go_Prelude
begin

text \<open>
  The messages that travel from the receiving service to the aggregating service
  (\<open>core/quote.go\<close>, \<open>core/transport.go\<close>, \<open>core/exchange.go\<close>): one record per struct, the
  quote and message type tags, and the \<open>GetId\<close> methods that give every quote the key under
  which an aggregation period remembers it.
\<close>

section \<open>Tags\<close>

datatype QuoteDataType =
    QuoteDataType_Unknown
  | QuoteDataType_Depth
  | QuoteDataType_Trade
  | QuoteDataType_Kline
  | QuoteDataType_Ticker
  | QutoeDataType_Index
  | QuoteDataType_OrderIncrement
  | QuoteDataType_SnapShot
  | QuoteDataType_AggTrade

datatype ExchangeType =
    ExchangeType_Binance
  | ExchangeType_Okex
  | ExchangeType_Huobi
  | ExchangeType_Bitmex
  | ExchangeType_Bitfinex
  | ExchangeType_Coinbase

datatype MessageType =
    MessageType_Unknown
  | MessageType_Quote
  | MessageType_Command

section \<open>Quotes\<close>

record AskPrice =
  ap_Price :: string
  ap_Qty :: string

type_synonym BidPrice = AskPrice

record QuoteDepth =
  qd_Time :: int
  qd_TransactionTime :: int
  qd_Symbol :: string
  qd_FirstUpdateID :: int
  qd_LastUpdateID :: int
  qd_PrevLastUpdateID :: int
  qd_Bids :: "BidPrice list"
  qd_Asks :: "AskPrice list"

record QuoteSnapShot =
  qs_Symbol :: string
  qs_LastUpdateID :: int
  qs_Time :: int
  qs_TradeTime :: int
  qs_Bids :: "BidPrice list"
  qs_Asks :: "AskPrice list"

record QuoteTrade =
  qt_Event :: string
  qt_Time :: int
  qt_Symbol :: string
  qt_TradeID :: int
  qt_Price :: string
  qt_Quantity :: string
  qt_BuyerOrderID :: int
  qt_SellerOrderID :: int
  qt_TradeTime :: int
  qt_IsBuyerMaker :: bool
  qt_Placeholder :: bool

record QuoteOrbIncr =
  qi_Time :: int
  qi_TransactionTime :: int
  qi_Symbol :: string
  qi_FirstUpdateID :: int
  qi_LastUpdateID :: int
  qi_PrevLastUpdateID :: int
  qi_Bids :: "BidPrice list"
  qi_Asks :: "AskPrice list"

record QuoteKline =
  qk_Time :: int
  qk_StartTime :: int
  qk_EndTime :: int
  qk_Symbol :: string
  qk_Interval :: string
  qk_FirstTradeID :: int
  qk_LastTradeID :: int
  qk_Open :: string
  qk_Close :: string
  qk_High :: string
  qk_Low :: string
  qk_Volume :: string
  qk_TradeNum :: int
  qk_IsFinal :: bool
  qk_QuoteVolume :: string
  qk_ActiveBuyVolume :: string
  qk_ActiveBuyQuoteVolume :: string

record QuoteAggTrade =
  qa_Time :: int
  qa_Symbol :: string
  qa_AggregateTradeID :: int
  qa_Price :: string
  qa_Quantity :: string
  qa_FirstTradeID :: int
  qa_LastTradeID :: int
  qa_TradeTime :: int
  qa_Maker :: bool

definition QuoteSnapShot_GetId :: "QuoteSnapShot \<Rightarrow> string" where
  "QuoteSnapShot_GetId s = FormatInt (qs_Time s)"

definition QuoteTrade_GetId :: "QuoteTrade \<Rightarrow> string" where
  "QuoteTrade_GetId t = FormatInt (qt_TradeID t)"

definition QuoteOrbIncr_GetId :: "QuoteOrbIncr \<Rightarrow> string" where
  "QuoteOrbIncr_GetId t = FormatInt (qi_Time t)"

section \<open>Messages\<close>

text \<open>
  The interface-typed fields: the dynamic types that the sender puts there and the receiver
  asserts. \<open>QuoteData_Other\<close> and \<open>Payload_Other\<close> stand for a value of any other type.
\<close>

datatype QuoteData =
    Data_Depth QuoteDepth
  | Data_Trade QuoteTrade
  | Data_OrbIncr QuoteOrbIncr
  | Data_SnapShot QuoteSnapShot
  | Data_Kline QuoteKline
  | Data_AggTrade QuoteAggTrade
  | QuoteData_Other

record QuoteMessage =
  qm_Type :: QuoteDataType
  qm_Exchange :: ExchangeType
  qm_Data :: QuoteData

datatype Payload = Payload_Quote QuoteMessage | Payload_Other

record Message =
  msg_Type :: MessageType
  msg_Ts :: int
  msg_SeqNo :: int
  msg_ReqNo :: string
  msg_Sender :: string
  msg_LiveTime :: int
  msg_Payload :: Payload

text \<open>A composite literal \<open>core.Message{Type: core.MessageType_Quote, Payload: q}\<close>: the other fields
  have their zero values.\<close>

definition quote_message_of :: "QuoteDataType \<Rightarrow> QuoteData \<Rightarrow> Message" where
  "quote_message_of ty d =
     \<lparr>msg_Type = MessageType_Quote, msg_Ts = 0, msg_SeqNo = 0, msg_ReqNo = [], msg_Sender = [],
      msg_LiveTime = 0,
      msg_Payload = Payload_Quote
        \<lparr>qm_Type = ty, qm_Exchange = ExchangeType_Binance, qm_Data = d\<rparr>\<rparr>"

section \<open>Keys\<close>

text \<open>A key identifies a trade by its trade id, an increment and a snapshot by their event time.\<close>

lemma QuoteTrade_GetId_eq [simp]:
  "QuoteTrade_GetId a = QuoteTrade_GetId b \<longleftrightarrow> qt_TradeID a = qt_TradeID b"
  by (simp add: QuoteTrade_GetId_def)

lemma QuoteOrbIncr_GetId_eq [simp]:
  "QuoteOrbIncr_GetId a = QuoteOrbIncr_GetId b \<longleftrightarrow> qi_Time a = qi_Time b"
  by (simp add: QuoteOrbIncr_GetId_def)

lemma QuoteSnapShot_GetId_eq [simp]:
  "QuoteSnapShot_GetId a = QuoteSnapShot_GetId b \<longleftrightarrow> qs_Time a = qs_Time b"
  by (simp add: QuoteSnapShot_GetId_def)

end
