(* ===== verification/Aggregation.thy ===== *)
theory Aggregation
  imports Go_List Quote_Types
begin

text \<open>
  The aggregation of quotes into periods (\<open>cmd/QuoteAggrService/aggregation.go\<close>). A symbol keeps at
  most two period nodes, the front one being closed and the back one being filled, and three
  lists of quotes that came too early. The three \<open>put\<close> methods file a quote, \<open>timeItr\<close> opens
  nodes and detaches the front one when its time has passed, \<open>detach\<close> merges what was
  waiting. Every method holds the symbol's mutex for its whole body, so a run of the program is
  a sequence of these calls (\<open>sd_run\<close>).
\<close>

section \<open>State\<close>

text \<open>The package variables that \<open>normalize_config\<close> sets.\<close>

record aggr_globals =
  PERIOD :: int
  DETACH_TIME :: int

record PeriodNode =
  pn_start :: int
  pn_end :: int
  pn_symbol :: string
  trademap :: "string \<rightharpoonup> QuoteTrade"
  tradeindex :: "QuoteTrade list"
  incmap :: "string \<rightharpoonup> QuoteOrbIncr"
  incindex :: "QuoteOrbIncr list"
  snapshot_map :: "string \<rightharpoonup> QuoteSnapShot"
  snapshot_index :: "QuoteSnapShot list"

text \<open>The node's \<open>symbol\<close> pointer is the name of the symbol that owns it; the Bloom filters of
  nodes and symbols are never assigned.\<close>

record SymbolDef =
  sd_name :: string
  sd_period :: int
  sd_bornTs :: int
  linked :: "PeriodNode glist"
  pending_inc :: "QuoteOrbIncr glist"
  pending_trade :: "QuoteTrade glist"
  pending_snapshot :: "QuoteSnapShot glist"

definition NewPeriodNode :: PeriodNode where
  "NewPeriodNode =
     \<lparr>pn_start = 0, pn_end = 0, pn_symbol = [],
      trademap = Map.empty, tradeindex = [],
      incmap = Map.empty, incindex = [],
      snapshot_map = Map.empty, snapshot_index = []\<rparr>"

definition NewSymbolDef :: "string \<Rightarrow> SymbolDef" where
  "NewSymbolDef name =
     \<lparr>sd_name = name, sd_period = 0, sd_bornTs = 0, linked = list_Init,
      pending_inc = list_Init, pending_trade = list_Init, pending_snapshot = list_Init\<rparr>"

text \<open>\<open>l.Front()\<close> and \<open>l.Back()\<close> together with the node they point to.\<close>

definition front_node :: "'a glist \<Rightarrow> (nat \<times> 'a) option" where
  "front_node l =
     (case Front l of None \<Rightarrow> None | Some h \<Rightarrow> map_option (\<lambda>n. (h, n)) (Value l h))"

definition back_node :: "'a glist \<Rightarrow> (nat \<times> 'a) option" where
  "back_node l =
     (case Back l of None \<Rightarrow> None | Some h \<Rightarrow> map_option (\<lambda>n. (h, n)) (Value l h))"

section \<open>Filing a quote\<close>

definition add_snapshot :: "PeriodNode \<Rightarrow> QuoteSnapShot \<Rightarrow> PeriodNode" where
  "add_snapshot n snap =
     n\<lparr>snapshot_map := (snapshot_map n)(QuoteSnapShot_GetId snap \<mapsto> snap),
       snapshot_index := snapshot_index n @ [snap]\<rparr>"

definition put_snapshot :: "aggr_globals \<Rightarrow> SymbolDef \<Rightarrow> QuoteSnapShot \<Rightarrow> SymbolDef" where
  "put_snapshot g s snap =
     (if Len (linked s) = 0 then s
      else if Len (linked s) = 1 then
        (case back_node (linked s) of
           None \<Rightarrow> s
         | Some (hb, back) \<Rightarrow>
             if qs_Time snap < pn_start back \<or> pn_end back \<le> qs_Time snap then s
             else if snapshot_map back (QuoteSnapShot_GetId snap) \<noteq> None then s
             else s\<lparr>linked := SetValue hb (add_snapshot back snap) (linked s)\<rparr>)
      else
        (case front_node (linked s) of
           None \<Rightarrow> s
         | Some (hf, front) \<Rightarrow>
             (case back_node (linked s) of
                None \<Rightarrow> s
              | Some (hb, back) \<Rightarrow>
                  if qs_Time snap < i64 (pn_start front - PERIOD g) then s
                  else if i64 (pn_end back + 10 * 1000) \<le> qs_Time snap then s
                  else if qs_Time snap < pn_end front then
                    (if trademap front (QuoteSnapShot_GetId snap) \<noteq> None then s
                     else s\<lparr>linked := SetValue hf (add_snapshot front snap) (linked s)\<rparr>)
                  else if pn_start back \<le> qs_Time snap \<and> qs_Time snap < pn_end back then
                    (if snapshot_map back (QuoteSnapShot_GetId snap) \<noteq> None then s
                     else s\<lparr>linked := SetValue hb (add_snapshot back snap) (linked s)\<rparr>)
                  else s\<lparr>pending_snapshot := PushBack snap (pending_snapshot s)\<rparr>)))"

definition add_trade :: "PeriodNode \<Rightarrow> QuoteTrade \<Rightarrow> PeriodNode" where
  "add_trade n trade =
     n\<lparr>trademap := (trademap n)(QuoteTrade_GetId trade \<mapsto> trade),
       tradeindex := tradeindex n @ [trade]\<rparr>"

definition put_trade :: "aggr_globals \<Rightarrow> SymbolDef \<Rightarrow> QuoteTrade \<Rightarrow> SymbolDef" where
  "put_trade g s trade =
     (if Len (linked s) = 0 then s
      else if Len (linked s) = 1 then
        (case back_node (linked s) of
           None \<Rightarrow> s
         | Some (hb, back) \<Rightarrow>
             if qt_Time trade < pn_start back \<or> pn_end back \<le> qt_Time trade then s
             else if trademap back (QuoteTrade_GetId trade) \<noteq> None then s
             else s\<lparr>linked := SetValue hb (add_trade back trade) (linked s)\<rparr>)
      else
        (case front_node (linked s) of
           None \<Rightarrow> s
         | Some (hf, front) \<Rightarrow>
             (case back_node (linked s) of
                None \<Rightarrow> s
              | Some (hb, back) \<Rightarrow>
                  if qt_Time trade < i64 (pn_start front - PERIOD g) then s
                  else if i64 (pn_end back + 10 * 1000) \<le> qt_Time trade then s
                  else if qt_Time trade < pn_end front then
                    (if trademap front (QuoteTrade_GetId trade) \<noteq> None then s
                     else s\<lparr>linked := SetValue hf (add_trade front trade) (linked s)\<rparr>)
                  else if pn_start back \<le> qt_Time trade \<and> qt_Time trade < pn_end back then
                    (if trademap back (QuoteTrade_GetId trade) \<noteq> None then s
                     else s\<lparr>linked := SetValue hb (add_trade back trade) (linked s)\<rparr>)
                  else s\<lparr>pending_trade := PushBack trade (pending_trade s)\<rparr>)))"

definition add_inc :: "PeriodNode \<Rightarrow> QuoteOrbIncr \<Rightarrow> PeriodNode" where
  "add_inc n inc =
     n\<lparr>incmap := (incmap n)(QuoteOrbIncr_GetId inc \<mapsto> inc),
       incindex := incindex n @ [inc]\<rparr>"

definition put_inc :: "aggr_globals \<Rightarrow> SymbolDef \<Rightarrow> QuoteOrbIncr \<Rightarrow> SymbolDef" where
  "put_inc g s inc =
     (if Len (linked s) = 0 then s
      else if Len (linked s) = 1 then
        (case back_node (linked s) of
           None \<Rightarrow> s
         | Some (hb, back) \<Rightarrow>
             if qi_Time inc < pn_start back \<or> pn_end back \<le> qi_Time inc then s
             else if incmap back (QuoteOrbIncr_GetId inc) \<noteq> None then s
             else s\<lparr>linked := SetValue hb (add_inc back inc) (linked s)\<rparr>)
      else
        (case front_node (linked s) of
           None \<Rightarrow> s
         | Some (hf, front) \<Rightarrow>
             (case back_node (linked s) of
                None \<Rightarrow> s
              | Some (hb, back) \<Rightarrow>
                  if qi_Time inc < i64 (pn_start front - PERIOD g) then s
                  else if i64 (pn_end back + 10 * 1000) \<le> qi_Time inc then s
                  else if qi_Time inc < pn_end front then
                    (if incmap front (QuoteOrbIncr_GetId inc) \<noteq> None then s
                     else s\<lparr>linked := SetValue hf (add_inc front inc) (linked s)\<rparr>)
                  else if pn_start back \<le> qi_Time inc \<and> qi_Time inc < pn_end back then
                    (if incmap back (QuoteOrbIncr_GetId inc) \<noteq> None then s
                     else s\<lparr>linked := SetValue hb (add_inc back inc) (linked s)\<rparr>)
                  else s\<lparr>pending_inc := PushBack inc (pending_inc s)\<rparr>)))"

section \<open>The clock\<close>

text \<open>
  The three loops of \<open>detach\<close> over the pending lists: a quote that falls into the detached node's
  period is appended to its index unless the node's map knows its key, and is removed from the
  list.
\<close>

definition merge_pending ::
  "('q \<Rightarrow> int) \<Rightarrow> ('q \<Rightarrow> string) \<Rightarrow> int \<Rightarrow> int \<Rightarrow> (string \<rightharpoonup> 'q) \<Rightarrow> 'q glist \<Rightarrow> 'q list \<Rightarrow>
     'q glist \<times> 'q list" where
  "merge_pending tm getId a b m pending index =
     range_list
       (\<lambda>q idx. if a \<le> tm q \<and> tm q < b
                then ((if m (getId q) = None then idx @ [q] else idx), True)
                else (idx, False))
       pending index"

definition detach :: "aggr_globals \<Rightarrow> SymbolDef \<Rightarrow> (SymbolDef \<times> PeriodNode) go" where
  "detach g s =
     (case front_node (linked s) of
        None \<Rightarrow> Inl NilDereference
      | Some (e, pn) \<Rightarrow>
          (let l1 = Remove e (linked s) in
           case front_node l1 of
             None \<Rightarrow> Inl NilDereference
           | Some (_, pnx) \<Rightarrow>
               (let node = NewPeriodNode\<lparr>pn_start := pn_end pnx, pn_symbol := sd_name s,
                                         pn_end := i64 (pn_end pnx + PERIOD g)\<rparr>;
                    (pt, ti) = merge_pending qt_Time QuoteTrade_GetId (pn_start pn) (pn_end pn)
                                 (trademap pn) (pending_trade s) (tradeindex pn);
                    (pi, ii) = merge_pending qi_Time QuoteOrbIncr_GetId (pn_start pn) (pn_end pn)
                                 (incmap pn) (pending_inc s) (incindex pn);
                    (ps, si) = merge_pending qs_Time QuoteSnapShot_GetId (pn_start pn) (pn_end pn)
                                 (snapshot_map pn) (pending_snapshot s) (snapshot_index pn)
                in Inr (s\<lparr>linked := PushBack node l1, pending_trade := pt, pending_inc := pi,
                          pending_snapshot := ps\<rparr>,
                        pn\<lparr>tradeindex := ti, incindex := ii, snapshot_index := si\<rparr>))))"

definition timeItr ::
  "aggr_globals \<Rightarrow> SymbolDef \<Rightarrow> int \<Rightarrow> int \<Rightarrow> (SymbolDef \<times> PeriodNode option) go" where
  "timeItr g s tick bornTs =
     (if Len (linked s) = 0 then
        (let node = NewPeriodNode\<lparr>pn_start := bornTs, pn_symbol := sd_name s,
                                  pn_end := i64 (bornTs + PERIOD g)\<rparr>
         in Inr (s\<lparr>linked := PushBack node (linked s)\<rparr>, None))
      else
        (let s1 = (if Len (linked s) = 1 then
                     (case front_node (linked s) of
                        None \<Rightarrow> s
                      | Some (_, pn) \<Rightarrow>
                          (let node = NewPeriodNode\<lparr>pn_start := pn_end pn, pn_symbol := sd_name s,
                                                    pn_end := i64 (pn_end pn + PERIOD g)\<rparr>
                           in s\<lparr>linked := PushBack node (linked s)\<rparr>))
                   else s)
         in case front_node (linked s1) of
              None \<Rightarrow> Inl NilDereference
            | Some (_, pn) \<Rightarrow>
                if i64 (pn_end pn + DETACH_TIME g) < tick
                then (case detach g s1 of
                        Inl p \<Rightarrow> Inl p
                      | Inr (s2, out) \<Rightarrow> Inr (s2, Some out))
                else Inr (s1, None)))"

section \<open>Runs of one symbol\<close>

datatype sd_event =
    EvTrade QuoteTrade
  | EvInc QuoteOrbIncr
  | EvSnapShot QuoteSnapShot
  | EvTick int int

fun sd_step :: "aggr_globals \<Rightarrow> SymbolDef \<Rightarrow> sd_event \<Rightarrow> (SymbolDef \<times> PeriodNode option) go" where
  "sd_step g s (EvTrade t) = Inr (put_trade g s t, None)"
| "sd_step g s (EvInc i) = Inr (put_inc g s i, None)"
| "sd_step g s (EvSnapShot q) = Inr (put_snapshot g s q, None)"
| "sd_step g s (EvTick now born) = timeItr g s now born"

definition sd_run :: "aggr_globals \<Rightarrow> SymbolDef \<Rightarrow> sd_event list \<Rightarrow> (SymbolDef \<times> PeriodNode list) go" where
  "sd_run g = go_run (sd_step g)"

section \<open>The invariant of a symbol\<close>

text \<open>
  The maps of a node hold exactly the keys of the quotes in its indices, a symbol has at most two
  nodes, and its four lists are well formed.
\<close>

definition node_wf :: "PeriodNode \<Rightarrow> bool" where
  "node_wf n \<longleftrightarrow>
     dom (trademap n) = QuoteTrade_GetId ` set (tradeindex n) \<and>
     dom (incmap n) = QuoteOrbIncr_GetId ` set (incindex n) \<and>
     dom (snapshot_map n) = QuoteSnapShot_GetId ` set (snapshot_index n)"

definition sd_wf :: "SymbolDef \<Rightarrow> bool" where
  "sd_wf s \<longleftrightarrow>
     list_wf (linked s) \<and> list_wf (pending_inc s) \<and> list_wf (pending_trade s) \<and>
     list_wf (pending_snapshot s) \<and> length (contents (linked s)) \<le> 2 \<and>
     (\<forall>n\<in>set (contents (linked s)). node_wf n)"

definition windows :: "SymbolDef \<Rightarrow> (int \<times> int) list" where
  "windows s = map (\<lambda>n. (pn_start n, pn_end n)) (contents (linked s))"

section \<open>Lemmas: nodes of the linked list\<close>

lemma front_node_contents:
  "list_wf l \<Longrightarrow> contents l = n # ns \<Longrightarrow>
     \<exists>h. front_node l = Some (h, n) \<and> contents (Remove h l) = ns \<and>
         (\<forall>v. contents (SetValue h v l) = v # ns)"
  using Front_contents [of l n ns] by (auto simp: front_node_def contents_SetValue_Front)

lemma back_node_contents:
  "list_wf l \<Longrightarrow> contents l = ns @ [n] \<Longrightarrow>
     \<exists>h. back_node l = Some (h, n) \<and> (\<forall>v. contents (SetValue h v l) = ns @ [v])"
  using Back_contents [of l ns n] by (auto simp: back_node_def contents_SetValue_Back)

lemma front_node_single:
  "list_wf l \<Longrightarrow> contents l = [n] \<Longrightarrow>
     \<exists>h. front_node l = Some (h, n) \<and> back_node l = Some (h, n) \<and>
         (\<forall>v. contents (SetValue h v l) = [v])"
  using front_node_contents [of l n "[]"] back_node_contents [of l "[]" n]
  by (auto simp: front_node_def back_node_def glist_defs split: list.splits)

text \<open>The shape of a well-formed symbol: no node, one node, or a front and a back node.\<close>

lemma sd_wf_cases:
  assumes "sd_wf s"
  obtains (none) "contents (linked s) = []" "Len (linked s) = 0"
  | (one) h n where "contents (linked s) = [n]" "Len (linked s) = Suc 0"
      "front_node (linked s) = Some (h, n)" "back_node (linked s) = Some (h, n)"
      "\<And>v. contents (SetValue h v (linked s)) = [v]" "node_wf n"
  | (two) hf fn hb bn where "contents (linked s) = [fn, bn]" "Len (linked s) = 2"
      "front_node (linked s) = Some (hf, fn)" "back_node (linked s) = Some (hb, bn)"
      "contents (Remove hf (linked s)) = [bn]"
      "\<And>v. contents (SetValue hf v (linked s)) = [v, bn]"
      "\<And>v. contents (SetValue hb v (linked s)) = [fn, v]"
      "node_wf fn" "node_wf bn"
proof -
  from assms have wf: "list_wf (linked s)" and le: "length (contents (linked s)) \<le> 2"
    and nw: "\<forall>n\<in>set (contents (linked s)). node_wf n"
    by (simp_all add: sd_wf_def)
  show ?thesis
  proof (cases "contents (linked s)")
    case Nil
    then show ?thesis using none by (simp add: Len_contents)
  next
    case (Cons n ns)
    show ?thesis
    proof (cases ns)
      case Nil
      with Cons have c: "contents (linked s) = [n]" by simp
      from front_node_single [OF wf c] c nw show ?thesis
        using one by (auto simp: Len_contents)
    next
      case (Cons m ms)
      with \<open>contents (linked s) = n # ns\<close> le have c: "contents (linked s) = [n, m]" by simp
      then have c': "contents (linked s) = [n] @ [m]" by simp
      from front_node_contents [OF wf c] back_node_contents [OF wf c'] c nw show ?thesis
        using two by (auto simp: Len_contents)
    qed
  qed
qed

lemma node_wf_add:
  assumes "node_wf n"
  shows "node_wf (add_trade n t)" and "node_wf (add_inc n i)" and "node_wf (add_snapshot n q)"
  using assms by (auto simp: node_wf_def add_trade_def add_inc_def add_snapshot_def)

lemma node_wf_New: "node_wf (NewPeriodNode\<lparr>pn_start := a, pn_symbol := nm, pn_end := b\<rparr>)"
  by (simp add: node_wf_def NewPeriodNode_def)

lemma sd_wf_NewSymbolDef: "sd_wf (NewSymbolDef name)"
  by (simp add: sd_wf_def NewSymbolDef_def)

lemma merge_pending_eq:
  fixes a b :: int and tm :: "'q \<Rightarrow> int"
  defines "sel \<equiv> \<lambda>q. a \<le> tm q \<and> tm q < b"
  assumes wf: "list_wf p"
  shows "list_wf (fst (merge_pending tm f a b m p idx))"
    and "contents (fst (merge_pending tm f a b m p idx)) =
         takeWhile (\<lambda>q. \<not> sel q) (contents p) @ tl (dropWhile (\<lambda>q. \<not> sel q) (contents p))"
    and "snd (merge_pending tm f a b m p idx) =
         (case dropWhile (\<lambda>q. \<not> sel q) (contents p) of
            [] \<Rightarrow> idx
          | q # _ \<Rightarrow> if m (f q) = None then idx @ [q] else idx)"
proof -
  let ?body = "\<lambda>q idx. if a \<le> tm q \<and> tm q < b
     then ((if m (f q) = None then idx @ [q] else idx), True) else (idx, False)"
  have loop: "list_loop ?body (contents p) idx =
      (takeWhile (\<lambda>q. \<not> sel q) (contents p) @ tl (dropWhile (\<lambda>q. \<not> sel q) (contents p)),
       case dropWhile (\<lambda>q. \<not> sel q) (contents p) of
         [] \<Rightarrow> idx | q # _ \<Rightarrow> if m (f q) = None then idx @ [q] else idx)"
    by (rule list_loop_select) (simp add: sel_def)
  note range = range_list_loop [OF wf, of ?body idx]
  show "list_wf (fst (merge_pending tm f a b m p idx))"
    using range(1) by (simp add: merge_pending_def)
  show "contents (fst (merge_pending tm f a b m p idx)) =
         takeWhile (\<lambda>q. \<not> sel q) (contents p) @ tl (dropWhile (\<lambda>q. \<not> sel q) (contents p))"
    using range(2) by (simp add: merge_pending_def loop)
  show "snd (merge_pending tm f a b m p idx) =
         (case dropWhile (\<lambda>q. \<not> sel q) (contents p) of
            [] \<Rightarrow> idx | q # _ \<Rightarrow> if m (f q) = None then idx @ [q] else idx)"
    using range(3) by (simp add: merge_pending_def loop)
qed

end
