(* ===== verification/Period_Spec.thy ===== *)
theory Period_Spec
  imports Go_Prelude "HOL-Library.Multiset"
begin

text \<open>
  What one kind of quote (trades, increments or snapshots) sees of a symbol's aggregation: one
  or two consecutive time slots with the quotes filed in them, and the quotes that wait for a
  later slot. The operations are the abstract counterparts of the \<open>put\<close> methods and of
  \<open>timeItr\<close>. The locale \<open>quote_feed\<close> says what it means for a component to implement them;
  \<open>dedup_feed\<close> adds that the component recognises a quote it has already filed. The client
  lemmas are proved once, inside the locales.
\<close>

section \<open>The abstract buffer\<close>

type_synonym 'q slot = "int \<times> int \<times> 'q list"

record 'q pbuf =
  pb_slots :: "'q slot list"
  pb_pending :: "'q list"

datatype 'q action = Put 'q bool | Tick int int | Skip

definition abs_put ::
  "int \<Rightarrow> ('q \<Rightarrow> int) \<Rightarrow> ('q \<Rightarrow> 'k) \<Rightarrow> 'q \<Rightarrow> bool \<Rightarrow> 'q pbuf \<Rightarrow> 'q pbuf" where
  "abs_put P tm idf q seen B =
     (case pb_slots B of
        [(a, b, xs)] \<Rightarrow>
          (if tm q < a \<or> b \<le> tm q \<or> idf q \<in> idf ` set xs then B
           else B\<lparr>pb_slots := [(a, b, xs @ [q])]\<rparr>)
      | [(a, b, xs), (a', b', ys)] \<Rightarrow>
          (if tm q < i64 (a - P) \<or> i64 (b' + 10000) \<le> tm q then B
           else if tm q < b then
             (if seen then B else B\<lparr>pb_slots := [(a, b, xs @ [q]), (a', b', ys)]\<rparr>)
           else if a' \<le> tm q \<and> tm q < b' then
             (if idf q \<in> idf ` set ys then B
              else B\<lparr>pb_slots := [(a, b, xs), (a', b', ys @ [q])]\<rparr>)
           else B\<lparr>pb_pending := pb_pending B @ [q]\<rparr>)
      | _ \<Rightarrow> B)"

definition pend_rest :: "('q \<Rightarrow> int) \<Rightarrow> int \<Rightarrow> int \<Rightarrow> 'q list \<Rightarrow> 'q list" where
  "pend_rest tm a b ps =
     takeWhile (\<lambda>q. \<not> (a \<le> tm q \<and> tm q < b)) ps @ tl (dropWhile (\<lambda>q. \<not> (a \<le> tm q \<and> tm q < b)) ps)"

definition pend_hit :: "('q \<Rightarrow> int) \<Rightarrow> int \<Rightarrow> int \<Rightarrow> 'q list \<Rightarrow> 'q option" where
  "pend_hit tm a b ps =
     (case dropWhile (\<lambda>q. \<not> (a \<le> tm q \<and> tm q < b)) ps of [] \<Rightarrow> None | q # _ \<Rightarrow> Some q)"

definition add_hit :: "('q \<Rightarrow> 'k) \<Rightarrow> 'q list \<Rightarrow> 'q option \<Rightarrow> 'q list" where
  "add_hit idf xs h =
     (case h of None \<Rightarrow> xs | Some q \<Rightarrow> if idf q \<in> idf ` set xs then xs else xs @ [q])"

definition abs_close ::
  "int \<Rightarrow> int \<Rightarrow> ('q \<Rightarrow> int) \<Rightarrow> ('q \<Rightarrow> 'k) \<Rightarrow> int \<Rightarrow> 'q pbuf \<Rightarrow> 'q pbuf \<times> 'q slot option" where
  "abs_close P D tm idf now B =
     (case pb_slots B of
        [(a, b, xs), (a', b', ys)] \<Rightarrow>
          (if i64 (b + D) < now
           then (\<lparr>pb_slots = [(a', b', ys), (b', i64 (b' + P), [])],
                  pb_pending = pend_rest tm a b (pb_pending B)\<rparr>,
                 Some (a, b, add_hit idf xs (pend_hit tm a b (pb_pending B))))
           else (B, None))
      | _ \<Rightarrow> (B, None))"

definition abs_tick ::
  "int \<Rightarrow> int \<Rightarrow> ('q \<Rightarrow> int) \<Rightarrow> ('q \<Rightarrow> 'k) \<Rightarrow> int \<Rightarrow> int \<Rightarrow> 'q pbuf \<Rightarrow> 'q pbuf \<times> 'q slot option" where
  "abs_tick P D tm idf now born B =
     (case pb_slots B of
        [] \<Rightarrow> (B\<lparr>pb_slots := [(born, i64 (born + P), [])]\<rparr>, None)
      | [(a, b, xs)] \<Rightarrow>
          abs_close P D tm idf now (B\<lparr>pb_slots := [(a, b, xs), (b, i64 (b + P), [])]\<rparr>)
      | _ \<Rightarrow> abs_close P D tm idf now B)"

fun abs_step ::
  "int \<Rightarrow> int \<Rightarrow> ('q \<Rightarrow> int) \<Rightarrow> ('q \<Rightarrow> 'k) \<Rightarrow> 'q action \<Rightarrow> 'q pbuf \<Rightarrow> 'q pbuf \<times> 'q slot option" where
  "abs_step P D tm idf (Put q seen) B = (abs_put P tm idf q seen B, None)"
| "abs_step P D tm idf (Tick now born) B = abs_tick P D tm idf now born B"
| "abs_step P D tm idf Skip B = (B, None)"

section \<open>Properties of the abstract buffer\<close>

text \<open>Slots follow each other without a gap, and each is one period long.\<close>

definition clock_ok :: "int \<Rightarrow> bool" where
  "clock_ok x \<longleftrightarrow> \<bar>x\<bar> \<le> 2 ^ 60"

definition globals_ok :: "int \<Rightarrow> int \<Rightarrow> bool" where
  "globals_ok P D \<longleftrightarrow> 0 < P \<and> P \<le> 2 ^ 40 \<and> 0 \<le> D \<and> D \<le> 2 ^ 40"

definition is_period :: "int \<Rightarrow> int \<Rightarrow> int \<Rightarrow> bool" where
  "is_period P a b \<longleftrightarrow> b = a + P \<and> \<bar>a\<bar> \<le> 2 ^ 61"

definition slots_ok :: "int \<Rightarrow> 'q pbuf \<Rightarrow> bool" where
  "slots_ok P B \<longleftrightarrow>
     (case pb_slots B of
        [] \<Rightarrow> True
      | [(a, b, _)] \<Rightarrow> clock_ok a \<and> is_period P a b
      | [(a, b, _), (a', b', _)] \<Rightarrow> clock_ok a \<and> is_period P a b \<and> a' = b \<and> is_period P b b'
      | _ \<Rightarrow> False)"

text \<open>A front slot may hold quotes of the period before it; a back slot holds its own only.\<close>

definition times_ok :: "int \<Rightarrow> ('q \<Rightarrow> int) \<Rightarrow> 'q pbuf \<Rightarrow> bool" where
  "times_ok P tm B \<longleftrightarrow>
     (case pb_slots B of
        [] \<Rightarrow> True
      | [(a, b, xs)] \<Rightarrow> (\<forall>q\<in>set xs. a - P \<le> tm q \<and> tm q < b)
      | [(a, b, xs), (a', b', ys)] \<Rightarrow>
          (\<forall>q\<in>set xs. a - P \<le> tm q \<and> tm q < b) \<and> (\<forall>q\<in>set ys. a' \<le> tm q \<and> tm q < b')
      | _ \<Rightarrow> False)"

definition ids_ok :: "('q \<Rightarrow> 'k) \<Rightarrow> 'q pbuf \<Rightarrow> bool" where
  "ids_ok idf B \<longleftrightarrow> (\<forall>(a, b, xs)\<in>set (pb_slots B). distinct (map idf xs))"

text \<open>The windows of the outputs form a chain that starts at the front slot.\<close>

fun chain_from :: "int \<Rightarrow> 'q slot list \<Rightarrow> bool" where
  "chain_from t [] = True"
| "chain_from t ((a, b, xs) # os) \<longleftrightarrow> a = t \<and> chain_from b os"

lemma chain_from_nth:
  assumes "chain_from t os" and "\<forall>(a, b, xs)\<in>set os. b = a + P" and "k < length os"
  shows "\<exists>xs. os ! k = (t + int k * P, t + (int k + 1) * P, xs)"
  using assms
proof (induction os arbitrary: t k)
  case Nil
  then show ?case by simp
next
  case (Cons x os)
  obtain a b xs where x: "x = (a, b, xs)" by (cases x) auto
  show ?case
  proof (cases k)
    case 0
    with x Cons.prems show ?thesis by (auto simp: algebra_simps)
  next
    case (Suc j)
    with x Cons.prems have "chain_from (t + P) os" "\<forall>(a, b, xs)\<in>set os. b = a + P" "j < length os"
      by auto
    from Cons.IH [OF this] Suc show ?thesis by (auto simp: algebra_simps)
  qed
qed

definition front_start :: "'q pbuf \<Rightarrow> int option" where
  "front_start B = (case pb_slots B of [] \<Rightarrow> None | (a, b, xs) # _ \<Rightarrow> Some a)"

fun action_ok :: "'q action \<Rightarrow> bool" where
  "action_ok (Tick now born) \<longleftrightarrow> clock_ok now \<and> clock_ok born"
| "action_ok _ \<longleftrightarrow> True"

lemmas abs_defs = abs_put_def abs_tick_def abs_close_def

lemma is_period_facts:
  assumes "globals_ok P D" and "is_period P a b"
  shows "a < b" and "i64 (a - P) = a - P" and "b = a + P" and "i64 (b + D) = b + D"
  using assms by (auto simp: globals_ok_def is_period_def abs_le_iff intro!: i64_small)

lemma is_period_born: "globals_ok P D \<Longrightarrow> clock_ok a \<Longrightarrow> is_period P a (i64 (a + P))"
  by (auto simp: globals_ok_def is_period_def clock_ok_def abs_le_iff intro!: i64_small)

lemma is_period_next:
  "globals_ok P D \<Longrightarrow> clock_ok a \<Longrightarrow> is_period P a b \<Longrightarrow> is_period P b (i64 (b + P))"
  by (auto simp: globals_ok_def is_period_def clock_ok_def abs_le_iff intro!: i64_small)

lemma is_period_closed:
  assumes "globals_ok P D" "clock_ok now" "clock_ok a" "is_period P a b" "i64 (b + D) < now"
  shows "clock_ok b"
  using assms(1-3) is_period_facts [OF assms(1,4)] assms(5)
  by (auto simp: globals_ok_def clock_ok_def abs_le_iff)

lemma pend_hit_Some: "pend_hit tm a b ps = Some q \<Longrightarrow> q \<in> set ps \<and> a \<le> tm q \<and> tm q < b"
  unfolding pend_hit_def by (induction ps) (auto split: if_splits)

lemma set_add_hit: "q \<in> set (add_hit idf xs h) \<Longrightarrow> q \<in> set xs \<or> h = Some q"
  by (auto simp: add_hit_def split: option.splits if_splits)

lemma add_hit_mono: "set xs \<subseteq> set (add_hit idf xs h)"
  by (auto simp: add_hit_def split: option.splits)

lemma distinct_add_hit: "distinct (map idf xs) \<Longrightarrow> distinct (map idf (add_hit idf xs h))"
  by (auto simp: add_hit_def split: option.splits)

text \<open>The shapes of a buffer.\<close>

lemma buf_cases:
  fixes B :: "'q pbuf"
  obtains (none) "pb_slots B = []"
  | (one) a b xs where "pb_slots B = [(a, b, xs)]"
  | (two) a b xs c d ys where "pb_slots B = [(a, b, xs), (c, d, ys)]"
  | (many) x y z zs where "pb_slots B = x # y # z # zs"
  by (metis list.exhaust prod.exhaust)

lemma slots_cases:
  fixes B :: "'q pbuf"
  assumes "slots_ok P B"
  obtains (none) "pb_slots B = []"
  | (one) a b xs where "pb_slots B = [(a, b, xs)]" "clock_ok a" "is_period P a b"
  | (two) a b xs c ys where "pb_slots B = [(a, b, xs), (b, c, ys)]" "clock_ok a"
      "is_period P a b" "is_period P b c"
  using assms by (cases B rule: buf_cases) (auto simp: slots_ok_def)

lemma abs_close_ok:
  assumes g: "globals_ok P D" and "clock_ok now" "clock_ok a"
    and B: "pb_slots B = [(a, b, xs), (b, c, ys)]" and per: "is_period P a b" "is_period P b c"
    and t: "times_ok P tm B"
  shows "slots_ok P (fst (abs_close P D tm idf now B)) \<and>
         times_ok P tm (fst (abs_close P D tm idf now B)) \<and>
         (\<forall>e f zs. snd (abs_close P D tm idf now B) = Some (e, f, zs) \<longrightarrow>
            f = e + P \<and> (\<forall>q\<in>set zs. e - P \<le> tm q \<and> tm q < f))"
proof (cases "i64 (b + D) < now")
  case True
  note facts = is_period_facts [OF g per(1)] is_period_facts [OF g per(2)]
  have b: "clock_ok b" by (rule is_period_closed [OF g assms(2,3) per(1) True])
  have c: "is_period P c (i64 (c + P))" by (rule is_period_next [OF g b per(2)])
  have hit: "e = a \<and> f = b \<and> (\<forall>q\<in>set zs. a - P \<le> tm q \<and> tm q < b)"
    if "zs = add_hit idf xs (pend_hit tm a b (pb_pending B))" "e = a" "f = b" for e f zs
    using t B that facts by (auto simp: times_ok_def dest!: set_add_hit pend_hit_Some)
  have "times_ok P tm (fst (abs_close P D tm idf now B))"
    using t B True facts by (auto simp: abs_close_def times_ok_def)
  moreover have "slots_ok P (fst (abs_close P D tm idf now B))"
    using B True b c per(2) by (simp add: abs_close_def slots_ok_def)
  ultimately show ?thesis
    using B True hit facts(3) by (auto simp: abs_close_def)
next
  case False
  then show ?thesis using assms by (simp add: abs_close_def slots_ok_def)
qed

lemma abs_put_ok:
  assumes g: "globals_ok P D" and "slots_ok P B" and t: "times_ok P tm B"
  shows "slots_ok P (abs_put P tm idf q seen B) \<and> times_ok P tm (abs_put P tm idf q seen B)"
  using assms(2)
proof (cases rule: slots_cases)
  case none
  then show ?thesis by (simp add: abs_put_def slots_ok_def times_ok_def)
next
  case (one a b xs)
  with t is_period_facts [OF g one(3)] show ?thesis
    by (auto simp: abs_put_def slots_ok_def times_ok_def)
next
  case (two a b xs c ys)
  with t is_period_facts(2) [OF g two(3)] show ?thesis
    by (auto simp: abs_put_def slots_ok_def times_ok_def)
qed

lemma abs_step_ok:
  assumes g: "globals_ok P D" and "action_ok act" and "slots_ok P B" and t: "times_ok P tm B"
  shows "slots_ok P (fst (abs_step P D tm idf act B)) \<and>
         times_ok P tm (fst (abs_step P D tm idf act B)) \<and>
         (\<forall>e f zs. snd (abs_step P D tm idf act B) = Some (e, f, zs) \<longrightarrow>
            f = e + P \<and> (\<forall>q\<in>set zs. e - P \<le> tm q \<and> tm q < f))"
proof (cases act)
  case (Put q seen)
  with abs_put_ok [OF g assms(3) t] show ?thesis by simp
next
  case (Tick now born)
  with assms(2) have c: "clock_ok now" "clock_ok born" by simp_all
  from assms(3) show ?thesis
  proof (cases rule: slots_cases)
    case none
    have "is_period P born (i64 (born + P))" by (rule is_period_born [OF g c(2)])
    with none c(2) show ?thesis by (simp add: Tick abs_tick_def slots_ok_def times_ok_def)
  next
    case (one a b xs)
    let ?B = "B\<lparr>pb_slots := [(a, b, xs), (b, i64 (b + P), [])]\<rparr>"
    have eq: "abs_tick P D tm idf now born B = abs_close P D tm idf now ?B"
      using one by (simp add: abs_tick_def)
    have slots: "pb_slots ?B = [(a, b, xs), (b, i64 (b + P), [])]" by simp
    have times: "times_ok P tm ?B" using one t by (simp add: times_ok_def)
    show ?thesis
      unfolding Tick abs_step.simps eq
      by (rule abs_close_ok [OF g c(1) one(2) slots one(3) is_period_next [OF g one(2,3)] times])
  next
    case (two a b xs c ys)
    with Tick show ?thesis
      using abs_close_ok [OF g c(1) two(2) two(1) two(3,4) t, of idf] by (simp add: abs_tick_def)
  qed
next
  case Skip
  with assms(3) t show ?thesis by simp
qed

text \<open>Closing a slot moves the front to the slot that follows; nothing else moves it.\<close>

lemma abs_step_front:
  assumes "slots_ok P B" and "front_start B = Some t"
  shows "case snd (abs_step P D tm idf act B) of
           None \<Rightarrow> front_start (fst (abs_step P D tm idf act B)) = Some t
         | Some (a, b, xs) \<Rightarrow> a = t \<and> front_start (fst (abs_step P D tm idf act B)) = Some b"
  using assms(1)
proof (cases rule: slots_cases)
  case none
  with assms show ?thesis by (simp add: front_start_def)
next
  case (one a b xs)
  with assms show ?thesis by (cases act) (auto simp: abs_defs front_start_def)
next
  case (two a b xs c ys)
  with assms show ?thesis by (cases act) (auto simp: abs_defs front_start_def)
qed

lemma abs_step_slots_None:
  "front_start B = None \<Longrightarrow> snd (abs_step P D tm idf act B) = None"
  by (cases act) (auto simp: front_start_def abs_defs split: list.splits)

text \<open>No quote is filed twice where the component recognises what is in the front slot.\<close>

definition seen_ok :: "('q \<Rightarrow> 'k) \<Rightarrow> 'q action \<Rightarrow> 'q pbuf \<Rightarrow> bool" where
  "seen_ok idf act B \<longleftrightarrow>
     (\<forall>q seen. act = Put q seen \<longrightarrow>
        (\<forall>a b xs os. pb_slots B = (a, b, xs) # os \<longrightarrow> seen = (idf q \<in> idf ` set xs)))"

lemma abs_step_ids:
  assumes "ids_ok idf B" and "seen_ok idf act B"
  shows "ids_ok idf (fst (abs_step P D tm idf act B)) \<and>
         (\<forall>a b xs. snd (abs_step P D tm idf act B) = Some (a, b, xs) \<longrightarrow> distinct (map idf xs))"
proof (cases B rule: buf_cases)
  case none
  then show ?thesis by (cases act) (simp_all add: ids_ok_def abs_defs)
next
  case (one a b xs)
  with assms show ?thesis
    by (cases act) (auto simp: ids_ok_def abs_defs distinct_add_hit)
next
  case (two a b xs c d ys)
  with assms show ?thesis
    by (cases act) (auto simp: ids_ok_def seen_ok_def abs_defs distinct_add_hit)
next
  case (many x y z zs)
  with assms show ?thesis by (cases act) (simp_all add: ids_ok_def abs_defs)
qed

text \<open>A filed quote stays in its slot until the slot is closed, and leaves with it.\<close>

definition filed :: "nat \<Rightarrow> 'q \<Rightarrow> 'q pbuf \<Rightarrow> bool" where
  "filed k q B \<longleftrightarrow> (\<exists>a b xs. k < length (pb_slots B) \<and> pb_slots B ! k = (a, b, xs) \<and> q \<in> set xs)"

lemma filed_simps:
  "filed 0 q B \<longleftrightarrow> (\<exists>a b xs os. pb_slots B = (a, b, xs) # os \<and> q \<in> set xs)"
  "filed (Suc k) q B \<longleftrightarrow> (\<exists>o1 os. pb_slots B = o1 # os \<and> filed k q (B\<lparr>pb_slots := os\<rparr>))"
  by (auto simp: filed_def neq_Nil_conv) (cases "pb_slots B"; auto)+

lemma filed_le_one: "filed k q B \<Longrightarrow> length (pb_slots B) \<le> 2 \<Longrightarrow> k = 0 \<or> k = Suc 0"
  by (auto simp: filed_def)

lemma abs_step_filed:
  assumes "filed k q B" and "length (pb_slots B) \<le> 2"
  shows "case snd (abs_step P D tm idf act B) of
           None \<Rightarrow> filed k q (fst (abs_step P D tm idf act B))
         | Some (a, b, xs) \<Rightarrow>
             if k = 0 then q \<in> set xs else filed (k - 1) q (fst (abs_step P D tm idf act B))"
  using filed_le_one [OF assms]
proof
  assume k: "k = 0"
  show ?thesis
    using assms add_hit_mono [of _ idf]
    by (cases B rule: buf_cases; cases act) (auto simp: k filed_simps abs_defs)
next
  assume k: "k = Suc 0"
  show ?thesis
    using assms by (cases B rule: buf_cases; cases act) (auto simp: k filed_simps abs_defs)
qed

text \<open>A quote that waits for a slot that has already been closed waits for ever.\<close>

definition stranded :: "('q \<Rightarrow> int) \<Rightarrow> 'q \<Rightarrow> 'q pbuf \<Rightarrow> bool" where
  "stranded tm q B \<longleftrightarrow>
     q \<in> set (pb_pending B) \<and> (\<exists>t. front_start B = Some t \<and> tm q < t)"

lemma pend_rest_keeps:
  "q \<in> set ps \<Longrightarrow> \<not> (a \<le> tm q \<and> tm q < b) \<Longrightarrow> q \<in> set (pend_rest tm a b ps)"
  unfolding pend_rest_def by (induction ps) auto

lemma abs_step_stranded:
  assumes "slots_ok P B" and "globals_ok P D" and "stranded tm q B"
  shows "stranded tm q (fst (abs_step P D tm idf act B))"
proof -
  from assms(1) show ?thesis
  proof (cases rule: slots_cases)
    case none
    with assms(3) show ?thesis by (simp add: stranded_def front_start_def)
  next
    case (one a b xs)
    with assms is_period_facts(1) [OF assms(2) one(3)] show ?thesis
      by (cases act) (auto simp: abs_defs front_start_def stranded_def intro!: pend_rest_keeps)
  next
    case (two a b xs c ys)
    with assms is_period_facts(1) [OF assms(2) two(3)] show ?thesis
      by (cases act) (auto simp: abs_defs front_start_def stranded_def intro!: pend_rest_keeps)
  qed
qed

text \<open>
  No quote is invented or copied: what a step leaves in the buffer and what it puts out is, with
  multiplicities, part of what was in the buffer and of the quote that was put.
\<close>

definition slot_quotes :: "'q slot \<Rightarrow> 'q list" where
  "slot_quotes o1 = snd (snd o1)"

definition buffered :: "'q pbuf \<Rightarrow> 'q multiset" where
  "buffered B = mset (concat (map slot_quotes (pb_slots B))) + mset (pb_pending B)"

fun put_quote :: "'q action \<Rightarrow> 'q list" where
  "put_quote (Put q seen) = [q]"
| "put_quote _ = []"

definition out_quotes :: "'q slot option \<Rightarrow> 'q multiset" where
  "out_quotes out = (case out of None \<Rightarrow> {#} | Some o1 \<Rightarrow> mset (slot_quotes o1))"

lemmas buffered_defs = buffered_def slot_quotes_def out_quotes_def

lemma pend_conserved:
  "mset (pend_rest tm a b ps) + (case pend_hit tm a b ps of None \<Rightarrow> {#} | Some q \<Rightarrow> {#q#}) = mset ps"
  unfolding pend_rest_def pend_hit_def by (induction ps) (auto split: list.splits)

lemma add_hit_conserved:
  "mset (add_hit idf xs (pend_hit tm a b ps)) + mset (pend_rest tm a b ps) \<subseteq># mset xs + mset ps"
  unfolding pend_conserved [of tm a b ps, symmetric]
  by (auto simp: add_hit_def ac_simps split: option.splits)

lemma abs_close_conserved:
  "buffered (fst (abs_close P D tm idf now B)) + out_quotes (snd (abs_close P D tm idf now B)) \<subseteq># buffered B"
proof (cases B rule: buf_cases)
  case (two a b xs c d ys)
  with add_hit_conserved [of idf xs tm a b "pb_pending B"] show ?thesis
    by (auto simp: abs_close_def buffered_defs ac_simps)
qed (simp_all add: abs_close_def out_quotes_def)

lemma abs_put_conserved: "buffered (abs_put P tm idf q seen B) \<subseteq># add_mset q (buffered B)"
  by (cases B rule: buf_cases) (simp_all add: abs_put_def buffered_defs)

lemma abs_step_conserved:
  "buffered (fst (abs_step P D tm idf act B)) + out_quotes (snd (abs_step P D tm idf act B))
     \<subseteq># buffered B + mset (put_quote act)"
proof (cases act)
  case (Put q seen)
  then show ?thesis using abs_put_conserved [of P tm idf q seen B] by (simp add: out_quotes_def)
next
  case (Tick now born)
  show ?thesis
  proof (cases B rule: buf_cases)
    case (one a b xs)
    then show ?thesis
      using Tick abs_close_conserved [of P D tm idf now "B\<lparr>pb_slots := [(a, b, xs), (b, i64 (b + P), [])]\<rparr>"]
      by (simp add: abs_tick_def buffered_defs)
  qed (use Tick abs_close_conserved [of P D tm idf now B] in
       \<open>simp_all add: abs_tick_def buffered_defs\<close>)
qed (simp add: out_quotes_def)

section \<open>Components that implement the buffer\<close>

text \<open>
  A component with steps \<open>step\<close> implements the abstract buffer when every step from a state that
  satisfies its invariant returns, keeps the invariant, and acts on the view as the abstract
  operation \<open>act\<close> names; what it puts out is the abstract output.
\<close>

locale quote_feed =
  fixes P D :: int
    and tm :: "'q \<Rightarrow> int"
    and idf :: "'q \<Rightarrow> 'k"
    and step :: "'s \<Rightarrow> 'e \<Rightarrow> ('s \<times> 'n option) go"
    and invar :: "'s \<Rightarrow> bool"
    and view :: "'s \<Rightarrow> 'q pbuf"
    and act :: "'s \<Rightarrow> 'e \<Rightarrow> 'q action"
    and outq :: "'n \<Rightarrow> 'q slot"
  assumes step_refines: "invar s \<Longrightarrow>
      \<exists>s' out. step s e = Inr (s', out) \<and> invar s' \<and>
        view s' = fst (abs_step P D tm idf (act s e) (view s)) \<and>
        map_option outq out = snd (abs_step P D tm idf (act s e) (view s))"
    and view_le_two: "invar s \<Longrightarrow> length (pb_slots (view s)) \<le> 2"
begin

lemma run_returns: "invar s \<Longrightarrow> \<exists>s' outs. go_run step s es = Inr (s', outs) \<and> invar s'"
proof (induction es arbitrary: s)
  case Nil
  then show ?case by simp
next
  case (Cons e es)
  from step_refines [OF Cons.prems, of e] obtain s1 out
    where s1: "step s e = Inr (s1, out)" "invar s1" by auto
  from Cons.IH [OF s1(2)] obtain s2 outs where "go_run step s1 es = Inr (s2, outs)" "invar s2"
    by auto
  with s1 show ?case by simp
qed

text \<open>One step of a run, seen through the view.\<close>

lemma run_Cons:
  assumes "invar s" and "go_run step s (e # es) = Inr (s', outs)"
  obtains s1 out outs1 where
    "invar s1" "view s1 = fst (abs_step P D tm idf (act s e) (view s))"
    "map_option outq out = snd (abs_step P D tm idf (act s e) (view s))"
    "go_run step s1 es = Inr (s', outs1)"
    "outs = (case out of None \<Rightarrow> outs1 | Some n \<Rightarrow> n # outs1)"
proof -
  from step_refines [OF assms(1), of e] obtain s1 out where
    s1: "step s e = Inr (s1, out)" "invar s1"
      "view s1 = fst (abs_step P D tm idf (act s e) (view s))"
      "map_option outq out = snd (abs_step P D tm idf (act s e) (view s))" by auto
  with assms(2) show ?thesis using that by (auto split: sum.splits prod.splits)
qed

text \<open>An invariant of the abstract steps holds after every run, and so does what it says of outputs.\<close>

lemma run_invariant:
  assumes "invar s" and "I (view s)" and "go_run step s es = Inr (s', outs)"
    and "\<And>s e. invar s \<Longrightarrow> I (view s) \<Longrightarrow> e \<in> set es \<Longrightarrow>
           I (fst (abs_step P D tm idf (act s e) (view s))) \<and>
           (\<forall>x. snd (abs_step P D tm idf (act s e) (view s)) = Some x \<longrightarrow> Q x)"
  shows "invar s' \<and> I (view s') \<and> (\<forall>n\<in>set outs. Q (outq n))"
  using assms
proof (induction es arbitrary: s outs)
  case Nil
  then show ?case by simp
next
  case (Cons e es)
  obtain s1 out outs1 where s1: "invar s1"
    "view s1 = fst (abs_step P D tm idf (act s e) (view s))"
    "map_option outq out = snd (abs_step P D tm idf (act s e) (view s))"
    "go_run step s1 es = Inr (s', outs1)"
    "outs = (case out of None \<Rightarrow> outs1 | Some n \<Rightarrow> n # outs1)"
    using run_Cons [OF Cons.prems(1,3)] by blast
  have st: "I (fst (abs_step P D tm idf (act s e) (view s)))"
    "\<forall>x. snd (abs_step P D tm idf (act s e) (view s)) = Some x \<longrightarrow> Q x"
    using Cons.prems(4) [OF Cons.prems(1,2), of e] by simp_all
  then have one: "I (view s1)" "\<forall>n. out = Some n \<longrightarrow> Q (outq n)"
    using s1(2,3) by (simp, metis option.simps(9))
  have "invar s' \<and> I (view s') \<and> (\<forall>n\<in>set outs1. Q (outq n))"
    by (rule Cons.IH [OF s1(1) one(1) s1(4)], rule Cons.prems(4)) simp_all
  with one(2) s1(5) show ?case by (auto split: option.splits)
qed

lemma run_windows:
  assumes "globals_ok P D" and "\<And>s e. e \<in> set es \<Longrightarrow> action_ok (act s e)"
    and "invar s" and "slots_ok P (view s)" and "times_ok P tm (view s)"
    and "go_run step s es = Inr (s', outs)"
  shows "slots_ok P (view s') \<and> times_ok P tm (view s') \<and>
         (\<forall>n\<in>set outs. \<forall>a b xs. outq n = (a, b, xs) \<longrightarrow>
            b = a + P \<and> (\<forall>q\<in>set xs. a - P \<le> tm q \<and> tm q < b))"
proof -
  have "invar s' \<and> (slots_ok P (view s') \<and> times_ok P tm (view s')) \<and>
        (\<forall>n\<in>set outs. (\<lambda>x. \<forall>a b xs. x = (a, b, xs) \<longrightarrow>
           b = a + P \<and> (\<forall>q\<in>set xs. a - P \<le> tm q \<and> tm q < b)) (outq n))"
  proof (rule run_invariant [where I = "\<lambda>B. slots_ok P B \<and> times_ok P tm B", OF assms(3) _ assms(6)])
    fix s e assume "slots_ok P (view s) \<and> times_ok P tm (view s)" and e: "e \<in> set es"
    then show "(slots_ok P (fst (abs_step P D tm idf (act s e) (view s))) \<and>
        times_ok P tm (fst (abs_step P D tm idf (act s e) (view s)))) \<and>
      (\<forall>x. snd (abs_step P D tm idf (act s e) (view s)) = Some x \<longrightarrow>
         (\<forall>a b xs. x = (a, b, xs) \<longrightarrow> b = a + P \<and> (\<forall>q\<in>set xs. a - P \<le> tm q \<and> tm q < b)))"
      using abs_step_ok [OF assms(1), of "act s e" "view s" tm idf] assms(2) [OF e, of s] by simp
  qed (use assms(4,5) in simp)
  then show ?thesis by simp
qed

text \<open>The outputs are consecutive periods, beginning with the front one.\<close>

lemma run_chain:
  assumes "globals_ok P D" and "\<And>s e. e \<in> set es \<Longrightarrow> action_ok (act s e)"
    and "invar s" and "slots_ok P (view s)" and "times_ok P tm (view s)"
    and "go_run step s es = Inr (s', outs)" and "front_start (view s) = Some t"
  shows "chain_from t (map outq outs)"
  using assms(2-)
proof (induction es arbitrary: s outs t)
  case Nil
  then show ?case by simp
next
  case (Cons e es)
  obtain s1 out outs1 where s1: "invar s1"
    "view s1 = fst (abs_step P D tm idf (act s e) (view s))"
    "map_option outq out = snd (abs_step P D tm idf (act s e) (view s))"
    "go_run step s1 es = Inr (s', outs1)"
    "outs = (case out of None \<Rightarrow> outs1 | Some n \<Rightarrow> n # outs1)"
    using run_Cons [OF Cons.prems(2,5)] by blast
  have ok: "slots_ok P (view s1)" "times_ok P tm (view s1)"
    using abs_step_ok [OF assms(1) _ Cons.prems(3,4), of "act s e" idf] Cons.prems(1) [of e s] s1(2)
    by simp_all
  note front = abs_step_front [OF Cons.prems(3,6), of D tm idf "act s e"]
  have acts: "\<And>s e. e \<in> set es \<Longrightarrow> action_ok (act s e)" using Cons.prems(1) by simp
  note IH = Cons.IH [OF acts s1(1) ok s1(4)]
  show ?case
  proof (cases out)
    case None
    with front s1 have "front_start (view s1) = Some t" by (simp split: option.splits)
    with IH None s1(5) show ?thesis by simp
  next
    case (Some n)
    obtain a b xs where n: "outq n = (a, b, xs)" by (cases "outq n") auto
    with Some s1(3) have "snd (abs_step P D tm idf (act s e) (view s)) = Some (a, b, xs)" by simp
    with front s1(2) have "a = t" "front_start (view s1) = Some b" by simp_all
    with IH Some s1(5) n show ?thesis by simp
  qed
qed

text \<open>A filed quote is put out with its slot: the front one next, the back one after it.\<close>

lemma run_filed:
  assumes "invar s" and "filed k q (view s)" and "go_run step s es = Inr (s', outs)"
    and "k < length outs"
  shows "\<exists>a b xs. outq (outs ! k) = (a, b, xs) \<and> q \<in> set xs"
  using assms
proof (induction es arbitrary: s outs k)
  case Nil
  then show ?case by simp
next
  case (Cons e es)
  obtain s1 out outs1 where s1: "invar s1"
    "view s1 = fst (abs_step P D tm idf (act s e) (view s))"
    "map_option outq out = snd (abs_step P D tm idf (act s e) (view s))"
    "go_run step s1 es = Inr (s', outs1)"
    "outs = (case out of None \<Rightarrow> outs1 | Some n \<Rightarrow> n # outs1)"
    using run_Cons [OF Cons.prems(1,3)] by blast
  note keep = abs_step_filed [OF Cons.prems(2) view_le_two [OF Cons.prems(1)], of P D tm idf "act s e"]
  show ?case
  proof (cases out)
    case None
    with s1 keep have "filed k q (view s1)" by (simp split: option.splits)
    with Cons.IH [OF s1(1) _ s1(4)] None s1(5) Cons.prems(4) show ?thesis by simp
  next
    case (Some n)
    obtain a b xs where n: "outq n = (a, b, xs)" by (cases "outq n") auto
    with Some s1(3) have out: "snd (abs_step P D tm idf (act s e) (view s)) = Some (a, b, xs)" by simp
    show ?thesis
    proof (cases k)
      case 0
      with keep out Some s1(5) n show ?thesis by simp
    next
      case (Suc j)
      with keep out s1(2) have "filed j q (view s1)" by simp
      with Cons.IH [OF s1(1) _ s1(4), of j] Some s1(5) Suc Cons.prems(4) show ?thesis by simp
    qed
  qed
qed

lemma run_stranded:
  assumes "globals_ok P D" and "\<And>s e. e \<in> set es \<Longrightarrow> action_ok (act s e)"
    and "invar s" and "slots_ok P (view s)" and "times_ok P tm (view s)"
    and "stranded tm q (view s)" and "go_run step s es = Inr (s', outs)"
  shows "stranded tm q (view s')"
proof -
  have "invar s' \<and> (slots_ok P (view s') \<and> times_ok P tm (view s') \<and> stranded tm q (view s')) \<and>
        (\<forall>n\<in>set outs. (\<lambda>_. True) (outq n))"
  proof (rule run_invariant [where I = "\<lambda>B. slots_ok P B \<and> times_ok P tm B \<and> stranded tm q B",
        OF assms(3) _ assms(7)])
    fix s e
    assume I: "slots_ok P (view s) \<and> times_ok P tm (view s) \<and> stranded tm q (view s)"
      and e: "e \<in> set es"
    then show "(slots_ok P (fst (abs_step P D tm idf (act s e) (view s))) \<and>
        times_ok P tm (fst (abs_step P D tm idf (act s e) (view s))) \<and>
        stranded tm q (fst (abs_step P D tm idf (act s e) (view s)))) \<and>
      (\<forall>x. snd (abs_step P D tm idf (act s e) (view s)) = Some x \<longrightarrow> True)"
      using abs_step_ok [OF assms(1), of "act s e" "view s" tm idf] assms(2) [OF e, of s]
        abs_step_stranded [OF _ assms(1), of "view s" tm q idf "act s e"] by simp
  qed (use assms(4-6) in simp)
  then show ?thesis by simp
qed


text \<open>Over a run, too, nothing is put out that was not put in, and nothing more often than it was.\<close>

lemma run_conserved:
  assumes "\<And>s e. put_quote (act s e) = inq e"
    and "invar s" and "go_run step s es = Inr (s', outs)"
  shows "mset (concat (map (\<lambda>n. slot_quotes (outq n)) outs)) + buffered (view s')
           \<subseteq># buffered (view s) + mset (concat (map inq es))"
  using assms(2,3)
proof (induction es arbitrary: s outs)
  case Nil
  then show ?case by simp
next
  case (Cons e es)
  obtain s1 out outs1 where s1: "invar s1"
    "view s1 = fst (abs_step P D tm idf (act s e) (view s))"
    "map_option outq out = snd (abs_step P D tm idf (act s e) (view s))"
    "go_run step s1 es = Inr (s', outs1)"
    "outs = (case out of None \<Rightarrow> outs1 | Some n \<Rightarrow> n # outs1)"
    using run_Cons [OF Cons.prems] by blast
  have one: "buffered (view s1) + out_quotes (map_option outq out) \<subseteq># buffered (view s) + mset (inq e)"
    using abs_step_conserved [of P D tm idf "act s e" "view s"] s1(2,3) assms(1) by simp
  have rest: "mset (concat (map (\<lambda>n. slot_quotes (outq n)) outs1)) + buffered (view s')
      \<subseteq># buffered (view s1) + mset (concat (map inq es))"
    by (rule Cons.IH [OF s1(1,4)])
  have "mset (concat (map (\<lambda>n. slot_quotes (outq n)) outs)) =
      out_quotes (map_option outq out) + mset (concat (map (\<lambda>n. slot_quotes (outq n)) outs1))"
    using s1(5) by (auto simp: out_quotes_def split: option.splits)
  with subset_mset.add_mono [OF one rest] show ?case
    by (simp add: ac_simps)
qed
end

locale dedup_feed = quote_feed +
  assumes seen: "invar s \<Longrightarrow> seen_ok idf (act s e) (view s)"
begin

lemma run_distinct:
  assumes "invar s" and "ids_ok idf (view s)" and "go_run step s es = Inr (s', outs)"
  shows "ids_ok idf (view s') \<and>
         (\<forall>n\<in>set outs. \<forall>a b xs. outq n = (a, b, xs) \<longrightarrow> distinct (map idf xs))"
  using run_invariant [where I = "ids_ok idf"
      and Q = "\<lambda>x. \<forall>a b xs. x = (a, b, xs) \<longrightarrow> distinct (map idf xs)", OF assms]
    abs_step_ids seen
  by blast

end

end
