(* ===== verification/Aggregation_Refine.thy ===== *)
theory Aggregation_Refine
  imports Aggregation Period_Spec
begin

text \<open>
  The aggregation of a symbol implements the abstract period buffer, once for each kind of quote.
  A view keeps the windows of the nodes, the index of that kind and the pending list of that
  kind; the three interpretations of \<open>quote_feed\<close> discharge its laws for \<open>sd_step\<close>. Trades and
  increments recognise what they have filed (\<open>dedup_feed\<close>); snapshots do not, because the front
  branch of \<open>put_snapshot\<close> asks the map of the trades.
\<close>

section \<open>Views\<close>

definition trade_slot :: "PeriodNode \<Rightarrow> QuoteTrade slot" where
  "trade_slot n = (pn_start n, pn_end n, tradeindex n)"

definition inc_slot :: "PeriodNode \<Rightarrow> QuoteOrbIncr slot" where
  "inc_slot n = (pn_start n, pn_end n, incindex n)"

definition snap_slot :: "PeriodNode \<Rightarrow> QuoteSnapShot slot" where
  "snap_slot n = (pn_start n, pn_end n, snapshot_index n)"

definition trade_view :: "SymbolDef \<Rightarrow> QuoteTrade pbuf" where
  "trade_view s = \<lparr>pb_slots = map trade_slot (contents (linked s)), pb_pending = contents (pending_trade s)\<rparr>"

definition inc_view :: "SymbolDef \<Rightarrow> QuoteOrbIncr pbuf" where
  "inc_view s = \<lparr>pb_slots = map inc_slot (contents (linked s)), pb_pending = contents (pending_inc s)\<rparr>"

definition snap_view :: "SymbolDef \<Rightarrow> QuoteSnapShot pbuf" where
  "snap_view s =
     \<lparr>pb_slots = map snap_slot (contents (linked s)), pb_pending = contents (pending_snapshot s)\<rparr>"

text \<open>What the front branch of a \<open>put\<close> method asks: is the key in the front node's map?\<close>

definition front_has :: "(PeriodNode \<Rightarrow> string \<rightharpoonup> 'q) \<Rightarrow> SymbolDef \<Rightarrow> string \<Rightarrow> bool" where
  "front_has f s k \<longleftrightarrow> (case contents (linked s) of [] \<Rightarrow> False | n # _ \<Rightarrow> f n k \<noteq> None)"

fun trade_act :: "SymbolDef \<Rightarrow> sd_event \<Rightarrow> QuoteTrade action" where
  "trade_act s (EvTrade t) = Put t (front_has trademap s (QuoteTrade_GetId t))"
| "trade_act s (EvTick now born) = Tick now born"
| "trade_act s _ = Skip"

fun inc_act :: "SymbolDef \<Rightarrow> sd_event \<Rightarrow> QuoteOrbIncr action" where
  "inc_act s (EvInc i) = Put i (front_has incmap s (QuoteOrbIncr_GetId i))"
| "inc_act s (EvTick now born) = Tick now born"
| "inc_act s _ = Skip"

fun snap_act :: "SymbolDef \<Rightarrow> sd_event \<Rightarrow> QuoteSnapShot action" where
  "snap_act s (EvSnapShot q) = Put q (front_has trademap s (QuoteSnapShot_GetId q))"
| "snap_act s (EvTick now born) = Tick now born"
| "snap_act s _ = Skip"

lemmas slot_defs = trade_slot_def inc_slot_def snap_slot_def
lemmas view_defs = trade_view_def inc_view_def snap_view_def
lemmas put_defs = put_trade_def put_inc_def put_snapshot_def
lemmas add_defs = add_trade_def add_inc_def add_snapshot_def

section \<open>The put methods\<close>

lemma node_wf_keys:
  assumes "node_wf n"
  shows "trademap n (QuoteTrade_GetId t) = None \<longleftrightarrow>
           QuoteTrade_GetId t \<notin> QuoteTrade_GetId ` set (tradeindex n)"
    and "incmap n (QuoteOrbIncr_GetId i) = None \<longleftrightarrow>
           QuoteOrbIncr_GetId i \<notin> QuoteOrbIncr_GetId ` set (incindex n)"
    and "snapshot_map n (QuoteSnapShot_GetId q) = None \<longleftrightarrow>
           QuoteSnapShot_GetId q \<notin> QuoteSnapShot_GetId ` set (snapshot_index n)"
  using assms unfolding node_wf_def by (metis domIff)+

text \<open>Replacing a node and appending to a pending list keep the invariant.\<close>

lemma sd_wf_SetValue:
  assumes "sd_wf s" and "contents (SetValue h v (linked s)) = ns" and "length ns \<le> 2"
    and "\<forall>n\<in>set ns. node_wf n"
  shows "sd_wf (s\<lparr>linked := SetValue h v (linked s)\<rparr>)"
  using assms by (simp add: sd_wf_def)

lemma sd_wf_pending:
  assumes "sd_wf s"
  shows "sd_wf (s\<lparr>pending_trade := PushBack t (pending_trade s)\<rparr>)"
    and "sd_wf (s\<lparr>pending_inc := PushBack i (pending_inc s)\<rparr>)"
    and "sd_wf (s\<lparr>pending_snapshot := PushBack q (pending_snapshot s)\<rparr>)"
  using assms by (simp_all add: sd_wf_def)

lemmas sd_wf_updates = sd_wf_SetValue sd_wf_pending node_wf_add

lemma put_wf:
  assumes wf: "sd_wf s"
  shows put_trade_wf: "sd_wf (put_trade g s t)"
    and put_inc_wf: "sd_wf (put_inc g s i)"
    and put_snapshot_wf: "sd_wf (put_snapshot g s q)"
  by (rule sd_wf_cases [OF wf]; simp add: put_defs wf sd_wf_updates)+

text \<open>Each method acts on its own view as the abstract operation does.\<close>

lemma put_trade_view:
  assumes wf: "sd_wf s"
  shows "trade_view (put_trade g s t) =
           abs_put (PERIOD g) qt_Time QuoteTrade_GetId t (front_has trademap s (QuoteTrade_GetId t))
             (trade_view s)"
  by (rule sd_wf_cases [OF wf];
      simp add: put_trade_def trade_view_def abs_put_def trade_slot_def add_trade_def node_wf_keys
        front_has_def)

lemma put_inc_view:
  assumes wf: "sd_wf s"
  shows "inc_view (put_inc g s i) =
           abs_put (PERIOD g) qi_Time QuoteOrbIncr_GetId i (front_has incmap s (QuoteOrbIncr_GetId i))
             (inc_view s)"
  by (rule sd_wf_cases [OF wf];
      simp add: put_inc_def inc_view_def abs_put_def inc_slot_def add_inc_def node_wf_keys
        front_has_def)

lemma put_snapshot_view:
  assumes wf: "sd_wf s"
  shows "snap_view (put_snapshot g s q) =
           abs_put (PERIOD g) qs_Time QuoteSnapShot_GetId q
             (front_has trademap s (QuoteSnapShot_GetId q)) (snap_view s)"
  by (rule sd_wf_cases [OF wf];
      simp add: put_snapshot_def snap_view_def abs_put_def snap_slot_def add_snapshot_def node_wf_keys
        front_has_def)

text \<open>and leaves the two other views alone.\<close>

lemma put_other_views:
  assumes wf: "sd_wf s"
  shows "trade_view (put_inc g s i) = trade_view s" and "trade_view (put_snapshot g s q) = trade_view s"
    and "inc_view (put_trade g s t) = inc_view s" and "inc_view (put_snapshot g s q) = inc_view s"
    and "snap_view (put_trade g s t) = snap_view s" and "snap_view (put_inc g s i) = snap_view s"
  by (rule sd_wf_cases [OF wf]; simp add: put_defs view_defs slot_defs add_defs)+

section \<open>The clock\<close>

lemma merge_pending_spec:
  assumes "list_wf p" and "\<And>q. m (f q) = None \<longleftrightarrow> f q \<notin> f ` set idx"
  shows "list_wf (fst (merge_pending tm f a b m p idx))"
    and "contents (fst (merge_pending tm f a b m p idx)) = pend_rest tm a b (contents p)"
    and "snd (merge_pending tm f a b m p idx) = add_hit f idx (pend_hit tm a b (contents p))"
  unfolding merge_pending_eq [OF assms(1), of tm f a b m idx] pend_rest_def pend_hit_def add_hit_def
  by (rule merge_pending_eq(1) [OF assms(1)], rule refl)
    (cases "dropWhile (\<lambda>q. \<not> (a \<le> tm q \<and> tm q < b)) (contents p)"; simp only: list.case option.case
      assms(2) if_not_P if_P; simp)

text \<open>Detaching the front of two nodes.\<close>

lemma detach_two:
  assumes wf: "sd_wf s" and c: "contents (linked s) = [fn, bn]"
  shows "\<exists>s' out. detach g s = Inr (s', out) \<and> sd_wf s' \<and> sd_name s' = sd_name s \<and>
    contents (linked s') = [bn, NewPeriodNode\<lparr>pn_start := pn_end bn, pn_symbol := sd_name s,
                                              pn_end := i64 (pn_end bn + PERIOD g)\<rparr>] \<and>
    contents (pending_trade s') = pend_rest qt_Time (pn_start fn) (pn_end fn) (contents (pending_trade s)) \<and>
    contents (pending_inc s') = pend_rest qi_Time (pn_start fn) (pn_end fn) (contents (pending_inc s)) \<and>
    contents (pending_snapshot s') =
      pend_rest qs_Time (pn_start fn) (pn_end fn) (contents (pending_snapshot s)) \<and>
    pn_start out = pn_start fn \<and> pn_end out = pn_end fn \<and>
    tradeindex out = add_hit QuoteTrade_GetId (tradeindex fn)
      (pend_hit qt_Time (pn_start fn) (pn_end fn) (contents (pending_trade s))) \<and>
    incindex out = add_hit QuoteOrbIncr_GetId (incindex fn)
      (pend_hit qi_Time (pn_start fn) (pn_end fn) (contents (pending_inc s))) \<and>
    snapshot_index out = add_hit QuoteSnapShot_GetId (snapshot_index fn)
      (pend_hit qs_Time (pn_start fn) (pn_end fn) (contents (pending_snapshot s)))"
proof -
  have lw: "list_wf (linked s)" "list_wf (pending_trade s)" "list_wf (pending_inc s)"
    "list_wf (pending_snapshot s)" and nw: "node_wf fn" "node_wf bn"
    using wf c by (simp_all add: sd_wf_def)
  from front_node_contents [OF lw(1) c] obtain h where
    h: "front_node (linked s) = Some (h, fn)" "contents (Remove h (linked s)) = [bn]" by blast
  from front_node_contents [OF list_wf_Remove [OF lw(1)] h(2)] obtain k where
    k: "front_node (Remove h (linked s)) = Some (k, bn)" by blast
  note mt = merge_pending_spec [OF lw(2) node_wf_keys(1) [OF nw(1)], of qt_Time]
    and mi = merge_pending_spec [OF lw(3) node_wf_keys(2) [OF nw(1)], of qi_Time]
    and ms = merge_pending_spec [OF lw(4) node_wf_keys(3) [OF nw(1)], of qs_Time]
  show ?thesis
    unfolding detach_def h option.case prod.case Let_def k
    by (simp add: case_prod_unfold mt mi ms h(2) lw(1) nw(2) node_wf_New sd_wf_def)
qed

lemma timeItr_none:
  assumes "contents (linked s) = []"
  shows "timeItr g s now born =
    Inr (s\<lparr>linked := PushBack (NewPeriodNode\<lparr>pn_start := born, pn_symbol := sd_name s,
                                 pn_end := i64 (born + PERIOD g)\<rparr>) (linked s)\<rparr>, None)"
  using assms by (simp add: timeItr_def Len_contents)

lemma timeItr_one:
  assumes wf: "sd_wf s" and c: "contents (linked s) = [n]"
  shows "timeItr g s now born =
    timeItr g (s\<lparr>linked := PushBack (NewPeriodNode\<lparr>pn_start := pn_end n, pn_symbol := sd_name s,
                                       pn_end := i64 (pn_end n + PERIOD g)\<rparr>) (linked s)\<rparr>) now born"
proof -
  from front_node_single [OF _ c] wf obtain h where "front_node (linked s) = Some (h, n)"
    by (auto simp: sd_wf_def)
  then show ?thesis using c by (simp add: timeItr_def Len_contents)
qed

lemma timeItr_two:
  assumes wf: "sd_wf s" and c: "contents (linked s) = [fn, bn]"
  shows "timeItr g s now born =
    (if i64 (pn_end fn + DETACH_TIME g) < now
     then (case detach g s of Inl p \<Rightarrow> Inl p | Inr (s2, out) \<Rightarrow> Inr (s2, Some out))
     else Inr (s, None))"
proof -
  from front_node_contents [OF _ c] wf obtain h where "front_node (linked s) = Some (h, fn)"
    by (auto simp: sd_wf_def)
  then show ?thesis using c by (simp add: timeItr_def Len_contents)
qed

lemma sd_wf_PushBack:
  assumes "sd_wf s" and "length (contents (linked s)) \<le> 1" and "node_wf n"
  shows "sd_wf (s\<lparr>linked := PushBack n (linked s)\<rparr>)"
  using assms by (simp add: sd_wf_def)

text \<open>One tick is the abstract tick on all three views at once.\<close>

definition tick_result ::
  "aggr_globals \<Rightarrow> int \<Rightarrow> int \<Rightarrow> SymbolDef \<Rightarrow> SymbolDef \<Rightarrow> PeriodNode option \<Rightarrow> bool" where
  "tick_result g now born s s' out \<longleftrightarrow> sd_wf s' \<and> sd_name s' = sd_name s \<and>
     (trade_view s', map_option trade_slot out) =
       abs_tick (PERIOD g) (DETACH_TIME g) qt_Time QuoteTrade_GetId now born (trade_view s) \<and>
     (inc_view s', map_option inc_slot out) =
       abs_tick (PERIOD g) (DETACH_TIME g) qi_Time QuoteOrbIncr_GetId now born (inc_view s) \<and>
     (snap_view s', map_option snap_slot out) =
       abs_tick (PERIOD g) (DETACH_TIME g) qs_Time QuoteSnapShot_GetId now born (snap_view s)"

lemma timeItr_refines_two:
  assumes wf: "sd_wf s" and c: "contents (linked s) = [fn, bn]"
  shows "\<exists>s' out. timeItr g s now born = Inr (s', out) \<and> tick_result g now born s s' out"
proof (cases "i64 (pn_end fn + DETACH_TIME g) < now")
  case True
  from detach_two [OF wf c, of g] obtain s' out where d: "detach g s = Inr (s', out)"
    and r: "sd_wf s'" "sd_name s' = sd_name s" "contents (linked s') = [bn, NewPeriodNode\<lparr>pn_start := pn_end bn,
        pn_symbol := sd_name s, pn_end := i64 (pn_end bn + PERIOD g)\<rparr>]"
      "contents (pending_trade s') = pend_rest qt_Time (pn_start fn) (pn_end fn) (contents (pending_trade s))"
      "contents (pending_inc s') = pend_rest qi_Time (pn_start fn) (pn_end fn) (contents (pending_inc s))"
      "contents (pending_snapshot s') =
         pend_rest qs_Time (pn_start fn) (pn_end fn) (contents (pending_snapshot s))"
      "pn_start out = pn_start fn" "pn_end out = pn_end fn"
      "tradeindex out = add_hit QuoteTrade_GetId (tradeindex fn)
         (pend_hit qt_Time (pn_start fn) (pn_end fn) (contents (pending_trade s)))"
      "incindex out = add_hit QuoteOrbIncr_GetId (incindex fn)
         (pend_hit qi_Time (pn_start fn) (pn_end fn) (contents (pending_inc s)))"
      "snapshot_index out = add_hit QuoteSnapShot_GetId (snapshot_index fn)
         (pend_hit qs_Time (pn_start fn) (pn_end fn) (contents (pending_snapshot s)))"
    by blast
  have "tick_result g now born s s' (Some out)"
    using True r c
    by (simp add: tick_result_def view_defs slot_defs abs_tick_def abs_close_def NewPeriodNode_def)
  then show ?thesis using timeItr_two [OF wf c, of g now born] True d by simp
next
  case False
  then have "tick_result g now born s s None"
    using wf c by (simp add: tick_result_def view_defs slot_defs abs_tick_def abs_close_def)
  then show ?thesis using timeItr_two [OF wf c, of g now born] False by simp
qed

lemma timeItr_refines:
  assumes wf: "sd_wf s"
  shows "\<exists>s' out. timeItr g s now born = Inr (s', out) \<and> tick_result g now born s s' out"
  using wf
proof (cases rule: sd_wf_cases)
  case none
  have "tick_result g now born s (s\<lparr>linked := PushBack (NewPeriodNode\<lparr>pn_start := born,
      pn_symbol := sd_name s, pn_end := i64 (born + PERIOD g)\<rparr>) (linked s)\<rparr>) None"
    using none wf
    by (simp add: tick_result_def sd_wf_PushBack node_wf_New view_defs slot_defs abs_tick_def)
      (simp add: NewPeriodNode_def)
  then show ?thesis using timeItr_none [OF none(1)] by simp
next
  case (one h n)
  let ?node = "NewPeriodNode\<lparr>pn_start := pn_end n, pn_symbol := sd_name s,
      pn_end := i64 (pn_end n + PERIOD g)\<rparr>"
  let ?s = "s\<lparr>linked := PushBack ?node (linked s)\<rparr>"
  have wf': "sd_wf ?s" using wf one(1) by (intro sd_wf_PushBack) (simp_all add: node_wf_New)
  have c': "contents (linked ?s) = [n, ?node]" using one(1) by simp
  from timeItr_refines_two [OF wf' c', of g now born] obtain s' out where
    s': "timeItr g ?s now born = Inr (s', out)" "tick_result g now born ?s s' out" by blast
  then have "tick_result g now born s s' out"
    using one(1)
    by (simp add: tick_result_def view_defs slot_defs abs_tick_def) (simp add: NewPeriodNode_def)
  with s'(1) show ?thesis using timeItr_one [OF wf one(1)] by simp
next
  case (two hf fn hb bn)
  then show ?thesis using timeItr_refines_two [OF wf] by blast
qed

section \<open>Interpretations\<close>

lemma view_length:
  "sd_wf s \<Longrightarrow> length (pb_slots (trade_view s)) \<le> 2 \<and> length (pb_slots (inc_view s)) \<le> 2 \<and>
     length (pb_slots (snap_view s)) \<le> 2"
  by (simp add: sd_wf_def view_defs)

lemma pair_eq_fst_snd: "(a, b) = p \<longleftrightarrow> a = fst p \<and> b = snd p"
  by (cases p) simp

lemma sd_step_tick:
  assumes "sd_wf s"
  shows "\<exists>s' out. sd_step g s (EvTick now born) = Inr (s', out) \<and> tick_result g now born s s' out"
  using timeItr_refines [OF assms] by simp

lemmas tick_facts = tick_result_def pair_eq_fst_snd

interpretation trades: dedup_feed "PERIOD g" "DETACH_TIME g" qt_Time QuoteTrade_GetId "sd_step g"
  sd_wf trade_view trade_act trade_slot for g
proof (unfold_locales, goal_cases)
  case (1 s e)
  then show ?case
  proof (cases e)
    case (EvTick now born)
    with sd_step_tick [OF 1, of g now born] show ?thesis by (auto simp only: tick_facts trade_act.simps abs_step.simps)
  qed (simp_all add: put_wf put_trade_view put_other_views)
next
  case (2 s)
  then show ?case by (simp add: view_length)
next
  case (3 s e)
  then show ?case
    by (cases e) (auto simp: seen_ok_def front_has_def trade_view_def trade_slot_def sd_wf_def
        node_wf_keys)
qed

interpretation incs: dedup_feed "PERIOD g" "DETACH_TIME g" qi_Time QuoteOrbIncr_GetId "sd_step g"
  sd_wf inc_view inc_act inc_slot for g
proof (unfold_locales, goal_cases)
  case (1 s e)
  then show ?case
  proof (cases e)
    case (EvTick now born)
    with sd_step_tick [OF 1, of g now born] show ?thesis by (auto simp only: tick_facts inc_act.simps abs_step.simps)
  qed (simp_all add: put_wf put_inc_view put_other_views)
next
  case (2 s)
  then show ?case by (simp add: view_length)
next
  case (3 s e)
  then show ?case
    by (cases e) (auto simp: seen_ok_def front_has_def inc_view_def inc_slot_def sd_wf_def
        node_wf_keys)
qed

interpretation snaps: quote_feed "PERIOD g" "DETACH_TIME g" qs_Time QuoteSnapShot_GetId "sd_step g"
  sd_wf snap_view snap_act snap_slot for g
proof (unfold_locales, goal_cases)
  case (1 s e)
  then show ?case
  proof (cases e)
    case (EvTick now born)
    with sd_step_tick [OF 1, of g now born] show ?thesis by (auto simp only: tick_facts snap_act.simps abs_step.simps)
  qed (simp_all add: put_wf put_snapshot_view put_other_views)
next
  case (2 s)
  then show ?case by (simp add: view_length)
qed

end
