(* ===== verification/Aggregation_Props.thy ===== *)
theory Aggregation_Props
  imports Aggregation_Refine
begin

text \<open>
  The properties of a symbol's aggregation, read off the interpretations of \<open>quote_feed\<close> and
  \<open>dedup_feed\<close> on \<open>sd_step\<close>. A run starts from \<open>NewSymbolDef\<close> and is any sequence of the three
  \<open>put\<close> methods and of \<open>timeItr\<close>, with any quotes and any clock readings.
\<close>

section \<open>Runs from a new symbol\<close>

fun sd_event_ok :: "sd_event \<Rightarrow> bool" where
  "sd_event_ok (EvTick now born) \<longleftrightarrow> clock_ok now \<and> clock_ok born"
| "sd_event_ok _ \<longleftrightarrow> True"

lemma acts_ok:
  assumes "list_all sd_event_ok es" and "e \<in> set es"
  shows "action_ok (trade_act s e)" and "action_ok (inc_act s e)" and "action_ok (snap_act s e)"
  using assms by (cases e; auto simp: list_all_iff)+

text \<open>The quotes of each kind that the events of a run put into the symbol.\<close>

fun ev_trades :: "sd_event \<Rightarrow> QuoteTrade list" where
  "ev_trades (EvTrade t) = [t]"
| "ev_trades _ = []"

fun ev_incs :: "sd_event \<Rightarrow> QuoteOrbIncr list" where
  "ev_incs (EvInc i) = [i]"
| "ev_incs _ = []"

fun ev_snaps :: "sd_event \<Rightarrow> QuoteSnapShot list" where
  "ev_snaps (EvSnapShot q) = [q]"
| "ev_snaps _ = []"

lemma act_quotes:
  "put_quote (trade_act s e) = ev_trades e"
  "put_quote (inc_act s e) = ev_incs e"
  "put_quote (snap_act s e) = ev_snaps e"
  by (cases e; simp)+

lemma new_symbol_views:
  "trade_view (NewSymbolDef name) = \<lparr>pb_slots = [], pb_pending = []\<rparr>"
  "inc_view (NewSymbolDef name) = \<lparr>pb_slots = [], pb_pending = []\<rparr>"
  "snap_view (NewSymbolDef name) = \<lparr>pb_slots = [], pb_pending = []\<rparr>"
  by (simp_all add: view_defs NewSymbolDef_def)

lemma empty_buffer_ok [simp]:
  "slots_ok P \<lparr>pb_slots = [], pb_pending = []\<rparr>" "times_ok P tm \<lparr>pb_slots = [], pb_pending = []\<rparr>"
  "ids_ok idf \<lparr>pb_slots = [], pb_pending = []\<rparr>"
  by (simp_all add: slots_ok_def times_ok_def ids_ok_def)

text \<open>After the first tick the symbol has one empty node that starts at \<open>bornTs\<close>.\<close>

definition born_symbol :: "aggr_globals \<Rightarrow> string \<Rightarrow> int \<Rightarrow> SymbolDef" where
  "born_symbol g name born =
     (NewSymbolDef name)\<lparr>linked := PushBack (NewPeriodNode\<lparr>pn_start := born, pn_symbol := name,
        pn_end := i64 (born + PERIOD g)\<rparr>) list_Init\<rparr>"

lemma born_symbol_facts:
  "sd_wf (born_symbol g name born)"
  "trade_view (born_symbol g name born) = \<lparr>pb_slots = [(born, i64 (born + PERIOD g), [])], pb_pending = []\<rparr>"
  by (simp_all add: born_symbol_def sd_wf_def node_wf_New NewSymbolDef_def view_defs slot_defs)
    (simp add: NewPeriodNode_def)

lemma sd_run_first_tick:
  "sd_run g (NewSymbolDef name) (EvTick now born # es) = sd_run g (born_symbol g name born) es"
  by (simp add: sd_run_def timeItr_none NewSymbolDef_def born_symbol_def split: sum.splits)

lemma sd_run_wf:
  assumes "sd_run g (NewSymbolDef name) es = Inr (s, outs)"
  shows "sd_wf s"
proof -
  from trades.run_returns [OF sd_wf_NewSymbolDef, of g name es] obtain s' outs' where
    "sd_run g (NewSymbolDef name) es = Inr (s', outs')" "sd_wf s'" unfolding sd_run_def by blast
  with assms show ?thesis by simp
qed

text \<open>Nothing is invented and nothing is multiplied: whatever the quotes and the clock readings, a
  trade is published (or still kept for a later period) at most as often as it was put into the
  symbol, and so are an increment and a snapshot.\<close>

lemma sd_run_conserved:
  assumes "sd_run g (NewSymbolDef name) es = Inr (s', outs)"
  shows "mset (concat (map tradeindex outs)) + buffered (trade_view s') \<subseteq># mset (concat (map ev_trades es)) \<and>
         mset (concat (map incindex outs)) + buffered (inc_view s') \<subseteq># mset (concat (map ev_incs es)) \<and>
         mset (concat (map snapshot_index outs)) + buffered (snap_view s') \<subseteq># mset (concat (map ev_snaps es))"
proof -
  note run = assms [unfolded sd_run_def]
  have none: "buffered \<lparr>pb_slots = [], pb_pending = []\<rparr> = {#}" by (simp add: buffered_def)
  from trades.run_conserved [OF act_quotes(1) sd_wf_NewSymbolDef run]
    incs.run_conserved [OF act_quotes(2) sd_wf_NewSymbolDef run]
    snaps.run_conserved [OF act_quotes(3) sd_wf_NewSymbolDef run]
  show ?thesis by (simp add: new_symbol_views none slot_quotes_def slot_defs)
qed

section \<open>A run that the witnesses evaluate\<close>

definition demo_globals :: aggr_globals where
  "demo_globals = \<lparr>PERIOD = 3000, DETACH_TIME = 1000\<rparr>"

definition demo_trade :: "int \<Rightarrow> int \<Rightarrow> QuoteTrade" where
  "demo_trade tid time =
     \<lparr>qt_Event = ''trade'', qt_Time = time, qt_Symbol = ''BTCUSDT'', qt_TradeID = tid,
      qt_Price = ''1.5'', qt_Quantity = ''2'', qt_BuyerOrderID = 0, qt_SellerOrderID = 0,
      qt_TradeTime = time, qt_IsBuyerMaker = False, qt_Placeholder = False\<rparr>"

definition demo_snapshot :: "int \<Rightarrow> int \<Rightarrow> QuoteSnapShot" where
  "demo_snapshot uid time =
     \<lparr>qs_Symbol = ''BTCUSDT'', qs_LastUpdateID = uid, qs_Time = time, qs_TradeTime = time,
      qs_Bids = [], qs_Asks = []\<rparr>"

definition demo_events :: "sd_event list" where
  "demo_events =
     [EvTrade (demo_trade 1 100), EvTrade (demo_trade 1 100), EvTick 500 0,
      EvTrade (demo_trade 2 3100), EvTick 4001 0]"

lemma demo_run:
  "\<exists>s' n. sd_run demo_globals (NewSymbolDef ''BTCUSDT'') (EvTick 0 0 # demo_events) = Inr (s', [n]) \<and>
     pn_start n = 0 \<and> tradeindex n = [demo_trade 1 100]"
proof -
  have "case sd_run demo_globals (NewSymbolDef ''BTCUSDT'') (EvTick 0 0 # demo_events) of
          Inr (s', [n]) \<Rightarrow> pn_start n = 0 \<and> tradeindex n = [demo_trade 1 100]
        | _ \<Rightarrow> False"
    by code_simp
  then show ?thesis by (auto split: sum.splits prod.splits list.splits)
qed

lemma demo_ok: "globals_ok (PERIOD demo_globals) (DETACH_TIME demo_globals)"
  "list_all sd_event_ok demo_events"
  by code_simp+

section \<open>Properties\<close>


text \<open>C2. No trade and no increment is published twice in one period: in every node a run detaches,
  the keys of the trades are pairwise distinct, and so are the keys of the increments, the
  pending ones that \<open>detach\<close> merges included.\<close>

theorem detached_keys_distinct:
  assumes "sd_run g (NewSymbolDef name) es = Inr (s', outs)" and "n \<in> set outs"
  shows "distinct (map QuoteTrade_GetId (tradeindex n)) \<and>
         distinct (map QuoteOrbIncr_GetId (incindex n))"
proof -
  note run = assms(1) [unfolded sd_run_def]
  from trades.run_distinct [OF sd_wf_NewSymbolDef _ run] incs.run_distinct [OF sd_wf_NewSymbolDef _ run]
    assms(2) show ?thesis by (simp add: new_symbol_views slot_defs)
qed

theorem detached_keys_distinct_witness:
  "\<exists>s' n. sd_run demo_globals (NewSymbolDef ''BTCUSDT'') (EvTick 0 0 # demo_events) = Inr (s', [n]) \<and>
     tradeindex n = [demo_trade 1 100] \<and> distinct (map QuoteTrade_GetId (tradeindex n))"
proof -
  from demo_run obtain s' n where
    r: "sd_run demo_globals (NewSymbolDef ''BTCUSDT'') (EvTick 0 0 # demo_events) = Inr (s', [n])"
      "tradeindex n = [demo_trade 1 100]" by blast
  with detached_keys_distinct [OF r(1), of n] show ?thesis by auto
qed

text \<open>C3. Every quote a node carries when it is detached belongs to the node's window or to the period
  just before it, and the window is exactly one period long, as long as the clock readings stay
  within \<open>2 ^ 60\<close> (no \<open>int64\<close> sum wraps around).\<close>

theorem detached_quotes_in_window:
  assumes "globals_ok (PERIOD g) (DETACH_TIME g)" and "list_all sd_event_ok es"
    and "sd_run g (NewSymbolDef name) es = Inr (s', outs)" and "n \<in> set outs"
  shows "pn_end n = pn_start n + PERIOD g \<and>
         (\<forall>t\<in>set (tradeindex n). pn_start n - PERIOD g \<le> qt_Time t \<and> qt_Time t < pn_end n) \<and>
         (\<forall>i\<in>set (incindex n). pn_start n - PERIOD g \<le> qi_Time i \<and> qi_Time i < pn_end n) \<and>
         (\<forall>q\<in>set (snapshot_index n). pn_start n - PERIOD g \<le> qs_Time q \<and> qs_Time q < pn_end n)"
proof -
  note run = assms(3) [unfolded sd_run_def] and ok = acts_ok [OF assms(2)]
  from trades.run_windows [OF assms(1) ok(1) sd_wf_NewSymbolDef _ _ run]
    incs.run_windows [OF assms(1) ok(2) sd_wf_NewSymbolDef _ _ run]
    snaps.run_windows [OF assms(1) ok(3) sd_wf_NewSymbolDef _ _ run] assms(4)
  show ?thesis by (auto simp: new_symbol_views slot_defs)
qed

theorem detached_quotes_in_window_witness:
  "\<exists>s' n. sd_run demo_globals (NewSymbolDef ''BTCUSDT'') (EvTick 0 0 # demo_events) = Inr (s', [n]) \<and>
     tradeindex n = [demo_trade 1 100] \<and> pn_end n = 3000"
proof -
  from demo_run obtain s' n where
    r: "sd_run demo_globals (NewSymbolDef ''BTCUSDT'') (EvTick 0 0 # demo_events) = Inr (s', [n])"
      "tradeindex n = [demo_trade 1 100]" "pn_start n = 0" by blast
  have "list_all sd_event_ok (EvTick 0 0 # demo_events)" by code_simp
  from detached_quotes_in_window [OF demo_ok(1) this r(1), of n] r show ?thesis
    by (auto simp: demo_globals_def)
qed

text \<open>C4. The nodes a symbol puts out are consecutive: the \<open>k\<close>-th one covers exactly
  \<open>[bornTs + k * PERIOD, bornTs + (k + 1) * PERIOD)\<close>, where \<open>bornTs\<close> is the birth time of the
  first tick. No period is skipped, repeated or cut, however late the ticks come.\<close>

theorem detached_periods_consecutive:
  assumes "globals_ok (PERIOD g) (DETACH_TIME g)" and "list_all sd_event_ok es"
    and "clock_ok born" and "sd_run g (NewSymbolDef name) (EvTick now born # es) = Inr (s', outs)"
    and "k < length outs"
  shows "pn_start (outs ! k) = born + int k * PERIOD g \<and>
         pn_end (outs ! k) = born + (int k + 1) * PERIOD g"
proof -
  let ?s = "born_symbol g name born"
  note run = assms(4) [unfolded sd_run_first_tick, unfolded sd_run_def] and ok = acts_ok [OF assms(2)]
  have v: "slots_ok (PERIOD g) (trade_view ?s)" "times_ok (PERIOD g) qt_Time (trade_view ?s)"
    "front_start (trade_view ?s) = Some born"
    using assms(3) is_period_born [OF assms(1,3)]
    by (simp_all add: born_symbol_facts slots_ok_def times_ok_def front_start_def)
  have "chain_from born (map trade_slot outs)"
    by (rule trades.run_chain [OF assms(1) ok(1) born_symbol_facts(1) v(1,2) run v(3)])
  moreover have "\<forall>(a, b, xs)\<in>set (map trade_slot outs). b = a + PERIOD g"
    using trades.run_windows [OF assms(1) ok(1) born_symbol_facts(1) v(1,2) run] by auto
  ultimately show ?thesis using chain_from_nth [of born _ "PERIOD g" k] assms(5)
    by (fastforce simp: trade_slot_def)
qed

theorem detached_periods_consecutive_witness:
  "\<exists>s' n. sd_run demo_globals (NewSymbolDef ''BTCUSDT'') (EvTick 0 0 # demo_events) = Inr (s', [n]) \<and>
     pn_start n = 0 \<and> pn_end n = 3000"
proof -
  from demo_run obtain s' n where
    r: "sd_run demo_globals (NewSymbolDef ''BTCUSDT'') (EvTick 0 0 # demo_events) = Inr (s', [n])" by blast
  have "clock_ok 0" by code_simp
  from detached_periods_consecutive [OF demo_ok this r, of 0] r show ?thesis
    by (auto simp: demo_globals_def)
qed

text \<open>C5. Each step of a symbol is the step of the abstract period buffer, for the trades, the
  increments and the snapshots at once: it returns, keeps the invariant, and the three views
  and the three parts of the detached node are what the abstract operation gives.\<close>

theorem sd_step_refines:
  assumes "sd_wf s"
  shows "\<exists>s' out. sd_step g s e = Inr (s', out) \<and> sd_wf s' \<and>
    (trade_view s', map_option trade_slot out) =
      abs_step (PERIOD g) (DETACH_TIME g) qt_Time QuoteTrade_GetId (trade_act s e) (trade_view s) \<and>
    (inc_view s', map_option inc_slot out) =
      abs_step (PERIOD g) (DETACH_TIME g) qi_Time QuoteOrbIncr_GetId (inc_act s e) (inc_view s) \<and>
    (snap_view s', map_option snap_slot out) =
      abs_step (PERIOD g) (DETACH_TIME g) qs_Time QuoteSnapShot_GetId (snap_act s e) (snap_view s)"
  using trades.step_refines [OF assms, of g e] incs.step_refines [OF assms, of g e]
    snaps.step_refines [OF assms, of g e]
  by (auto simp: pair_eq_fst_snd)

theorem sd_step_refines_witness:
  "\<exists>s' out. sd_step demo_globals (born_symbol demo_globals ''BTCUSDT'' 0) (EvTrade (demo_trade 1 100)) =
       Inr (s', out) \<and>
     trade_view s' = \<lparr>pb_slots = [(0, 3000, [demo_trade 1 100])], pb_pending = []\<rparr>"
  using sd_step_refines [of "born_symbol demo_globals ''BTCUSDT'' 0" demo_globals
      "EvTrade (demo_trade 1 100)", OF born_symbol_facts(1)]
  by (auto simp: born_symbol_facts abs_put_def demo_globals_def demo_trade_def i64_def)

text \<open>C6. A new trade that falls into the back node's window is published with that node: it is
  in the second node the symbol puts out from then on; one that falls before the end of the front
  node's window (and not more than a period before its start) is in the first.\<close>

theorem filed_trade_is_published:
  assumes "sd_wf s" and "contents (linked s) = [fn, bn]"
    and "sd_run g (put_trade g s t) es = Inr (s', outs)"
    and "i64 (pn_start fn - PERIOD g) \<le> qt_Time t" and "qt_Time t < i64 (pn_end bn + 10 * 1000)"
  shows "(qt_Time t < pn_end fn \<and> trademap fn (QuoteTrade_GetId t) = None \<and> outs \<noteq> []
            \<longrightarrow> t \<in> set (tradeindex (outs ! 0))) \<and>
         (pn_end fn \<le> qt_Time t \<and> pn_start bn \<le> qt_Time t \<and> qt_Time t < pn_end bn \<and>
            trademap bn (QuoteTrade_GetId t) = None \<and> 1 < length outs
            \<longrightarrow> t \<in> set (tradeindex (outs ! 1)))"
proof -
  let ?s = "put_trade g s t"
  note run = assms(3) [unfolded sd_run_def] and wf = put_trade_wf [OF assms(1)]
  have nw: "node_wf bn" "node_wf fn" using assms(1,2) by (simp_all add: sd_wf_def)
  have view: "trade_view s = \<lparr>pb_slots = [trade_slot fn, trade_slot bn],
      pb_pending = contents (pending_trade s)\<rparr>" by (simp add: trade_view_def assms(2))
  have f0: "filed 0 t (trade_view ?s)"
    if "qt_Time t < pn_end fn" "trademap fn (QuoteTrade_GetId t) = None"
    using that assms(4,5) by (simp add: put_trade_view [OF assms(1)] abs_put_def view trade_slot_def
        front_has_def assms(2) filed_simps)
  have f1: "filed 1 t (trade_view ?s)"
    if "pn_end fn \<le> qt_Time t" "pn_start bn \<le> qt_Time t" "qt_Time t < pn_end bn"
      "trademap bn (QuoteTrade_GetId t) = None"
    using that assms(4,5) node_wf_keys(1) [OF nw(1), of t]
    by (simp add: put_trade_view [OF assms(1)] abs_put_def view trade_slot_def filed_simps)
  from f0 f1 trades.run_filed [OF wf _ run, of 0 t] trades.run_filed [OF wf _ run, of 1 t]
  show ?thesis by (auto simp: trade_slot_def)
qed

theorem filed_trade_is_published_witness:
  "\<exists>s s' n. sd_run demo_globals (NewSymbolDef ''BTCUSDT'') [EvTick 0 0, EvTick 500 0] = Inr (s, []) \<and>
     sd_run demo_globals (put_trade demo_globals s (demo_trade 7 100)) [EvTick 4001 0] = Inr (s', [n]) \<and>
     demo_trade 7 100 \<in> set (tradeindex n)"
proof -
  have "case sd_run demo_globals (NewSymbolDef ''BTCUSDT'') [EvTick 0 0, EvTick 500 0] of
      Inr (s, []) \<Rightarrow>
        (case contents (linked s) of
           [fn, bn] \<Rightarrow> i64 (pn_start fn - 3000) \<le> 100 \<and> 100 < i64 (pn_end bn + 10 * 1000) \<and>
             100 < pn_end fn \<and> trademap fn (QuoteTrade_GetId (demo_trade 7 100)) = None \<and>
             (case sd_run demo_globals (put_trade demo_globals s (demo_trade 7 100)) [EvTick 4001 0] of
                Inr (s', [n]) \<Rightarrow> True | _ \<Rightarrow> False)
         | _ \<Rightarrow> False)
    | _ \<Rightarrow> False" by code_simp
  then obtain s fn bn s' n where
    r: "sd_run demo_globals (NewSymbolDef ''BTCUSDT'') [EvTick 0 0, EvTick 500 0] = Inr (s, [])"
      "contents (linked s) = [fn, bn]" "i64 (pn_start fn - 3000) \<le> 100"
      "100 < i64 (pn_end bn + 10 * 1000)" "100 < pn_end fn"
      "trademap fn (QuoteTrade_GetId (demo_trade 7 100)) = None"
      "sd_run demo_globals (put_trade demo_globals s (demo_trade 7 100)) [EvTick 4001 0] = Inr (s', [n])"
    by (auto split: sum.splits prod.splits list.splits)
  from filed_trade_is_published [OF sd_run_wf [OF r(1)] r(2,7)] r show ?thesis
    by (auto simp: demo_globals_def demo_trade_def)
qed

text \<open>C39. When a period is detached only the first pending trade that falls into it is merged. The loop
  of \<open>detach\<close> removes the element it stands on and then asks that element for its successor,
  which is nil by then. A second pending trade of the same period is not in the detached node
  and stays in \<open>pending_trade\<close> through every later run.\<close>

theorem second_pending_trade_stays:
  assumes g: "globals_ok (PERIOD g) (DETACH_TIME g)"
    and ok: "list_all sd_event_ok es1" "list_all sd_event_ok (EvTick now born # es2)"
    and run1: "sd_run g (NewSymbolDef name) es1 = Inr (s, outs1)"
    and c: "contents (linked s) = [fn, bn]" "contents (pending_trade s) = t1 # t2 # ps"
    and t1: "pn_start fn \<le> qt_Time t1" "qt_Time t1 < pn_end fn"
    and t2: "pn_start fn \<le> qt_Time t2" "qt_Time t2 < pn_end fn"
    and now: "i64 (pn_end fn + DETACH_TIME g) < now"
    and run2: "sd_run g s (EvTick now born # es2) = Inr (s', outs2)"
  shows "t2 \<in> set (contents (pending_trade s')) \<and>
         outs2 \<noteq> [] \<and> set (tradeindex (hd outs2)) \<subseteq> insert t1 (set (tradeindex fn))"
proof -
  let ?B = "trade_view s"
  have wf: "sd_wf s" and B: "slots_ok (PERIOD g) ?B" "times_ok (PERIOD g) qt_Time ?B"
    using trades.run_returns [OF sd_wf_NewSymbolDef, of g name es1]
      trades.run_windows [OF g acts_ok(1) [OF ok(1)] sd_wf_NewSymbolDef _ _ run1 [unfolded sd_run_def]]
      run1 by (auto simp: sd_run_def new_symbol_views)
  have view: "?B = \<lparr>pb_slots = [trade_slot fn, trade_slot bn], pb_pending = t1 # t2 # ps\<rparr>"
    by (simp add: trade_view_def c)
  obtain s1 out outs where s1: "sd_wf s1"
    "trade_view s1 = fst (abs_step (PERIOD g) (DETACH_TIME g) qt_Time QuoteTrade_GetId (Tick now born) ?B)"
    "map_option trade_slot out =
       snd (abs_step (PERIOD g) (DETACH_TIME g) qt_Time QuoteTrade_GetId (Tick now born) ?B)"
    "go_run (sd_step g) s1 es2 = Inr (s', outs)"
    "outs2 = (case out of None \<Rightarrow> outs | Some n \<Rightarrow> n # outs)"
    using trades.run_Cons [OF wf run2 [unfolded sd_run_def]] by auto
  have step: "abs_step (PERIOD g) (DETACH_TIME g) qt_Time QuoteTrade_GetId (Tick now born) ?B =
      (\<lparr>pb_slots = [trade_slot bn, (pn_end bn, i64 (pn_end bn + PERIOD g), [])], pb_pending = t2 # ps\<rparr>,
       Some (pn_start fn, pn_end fn, add_hit QuoteTrade_GetId (tradeindex fn) (Some t1)))"
    using now t1 by (simp add: view abs_tick_def abs_close_def trade_slot_def pend_rest_def pend_hit_def)
  have ok1: "slots_ok (PERIOD g) (trade_view s1) \<and> times_ok (PERIOD g) qt_Time (trade_view s1)"
    using abs_step_ok [OF g _ B, of "Tick now born" QuoteTrade_GetId] ok(2) s1(2) by simp
  have "pn_start bn = pn_end fn" using B(1) by (simp add: view slots_ok_def trade_slot_def)
  then have str: "stranded qt_Time t2 (trade_view s1)"
    using t2 unfolding s1(2) step by (simp add: stranded_def front_start_def trade_slot_def)
  have "stranded qt_Time t2 (trade_view s')"
    by (rule trades.run_stranded [OF g acts_ok(1) s1(1) _ _ str s1(4)]) (use ok1 ok(2) in auto)
  moreover obtain n where "out = Some n" "tradeindex n = add_hit QuoteTrade_GetId (tradeindex fn) (Some t1)"
    using s1(3) unfolding step by (auto simp: trade_slot_def)
  ultimately show ?thesis
    using s1(5) by (auto simp: stranded_def trade_view_def dest: set_add_hit)
qed

definition pending_events :: "sd_event list" where
  "pending_events =
     [EvTick 0 0, EvTick 500 0, EvTrade (demo_trade 1 6100), EvTrade (demo_trade 2 6200),
      EvTick 4001 0, EvTick 7001 0]"

theorem second_pending_trade_stays_witness:
  "\<exists>s outs1 s' outs2.
     sd_run demo_globals (NewSymbolDef ''BTCUSDT'') pending_events = Inr (s, outs1) \<and>
     sd_run demo_globals s [EvTick 10001 0, EvTick 13001 0] = Inr (s', outs2) \<and>
     demo_trade 2 6200 \<in> set (contents (pending_trade s')) \<and>
     demo_trade 2 6200 \<notin> set (tradeindex (hd outs2))"
proof -
  have "case sd_run demo_globals (NewSymbolDef ''BTCUSDT'') pending_events of
      Inr (s, outs1) \<Rightarrow>
        contents (pending_trade s) = [demo_trade 1 6100, demo_trade 2 6200] \<and>
        (case contents (linked s) of
           [fn, bn] \<Rightarrow> pn_start fn = 6000 \<and> pn_end fn = 9000 \<and> tradeindex fn = [] \<and>
             (case sd_run demo_globals s [EvTick 10001 0, EvTick 13001 0] of
                Inr (s', outs2) \<Rightarrow> True | _ \<Rightarrow> False)
         | _ \<Rightarrow> False)
    | _ \<Rightarrow> False" by code_simp
  then obtain s outs1 fn bn s' outs2 where
    r: "sd_run demo_globals (NewSymbolDef ''BTCUSDT'') pending_events = Inr (s, outs1)"
      "contents (linked s) = [fn, bn]" "contents (pending_trade s) = demo_trade 1 6100 # demo_trade 2 6200 # []"
      "pn_start fn = 6000" "pn_end fn = 9000" "tradeindex fn = []"
      "sd_run demo_globals s [EvTick 10001 0, EvTick 13001 0] = Inr (s', outs2)"
    by (auto split: sum.splits prod.splits list.splits)
  have ok: "list_all sd_event_ok pending_events" "list_all sd_event_ok [EvTick 10001 0, EvTick 13001 0]"
    by code_simp+
  from second_pending_trade_stays [OF demo_ok(1) ok r(1-3) _ _ _ _ _ r(7)] r(4-6)
  have "demo_trade 2 6200 \<in> set (contents (pending_trade s')) \<and>
      set (tradeindex (hd outs2)) \<subseteq> {demo_trade 1 6100}"
    by (simp add: demo_trade_def demo_globals_def i64_def)
  then show ?thesis using r(1,7) by (auto simp: demo_trade_def)
qed

text \<open>The front branch of \<open>put_snapshot\<close> asks the map of the trades whether the snapshot is known. A
  snapshot whose key is not a trade key is filed again however often it comes; one whose key
  is the key of a filed trade is dropped although no such snapshot was seen.\<close>

theorem front_snapshot_asks_trademap:
  assumes "sd_wf s" and "contents (linked s) = [fn, bn]"
    and "i64 (pn_start fn - PERIOD g) \<le> qs_Time q" and "qs_Time q < pn_end fn"
    and "qs_Time q < i64 (pn_end bn + 10 * 1000)"
  shows "map snapshot_index (contents (linked (put_snapshot g s q))) =
           (if trademap fn (QuoteSnapShot_GetId q) = None
            then [snapshot_index fn @ [q], snapshot_index bn]
            else [snapshot_index fn, snapshot_index bn])"
  using assms(1)
  by (cases rule: sd_wf_cases) (use assms in \<open>auto simp: put_snapshot_def add_snapshot_def\<close>)

theorem front_snapshot_asks_trademap_witness:
  "\<exists>s. sd_run demo_globals (NewSymbolDef ''BTCUSDT'')
         [EvTick 0 0, EvTick 500 0, EvTrade (demo_trade 700 100), EvSnapShot (demo_snapshot 1 600)] = Inr (s, []) \<and>
       map snapshot_index (contents (linked (put_snapshot demo_globals s (demo_snapshot 1 600)))) =
         [[demo_snapshot 1 600, demo_snapshot 1 600], []] \<and>
       map snapshot_index (contents (linked (put_snapshot demo_globals s (demo_snapshot 2 700)))) =
         [[demo_snapshot 1 600], []]"
proof -
  let ?es = "[EvTick 0 0, EvTick 500 0, EvTrade (demo_trade 700 100), EvSnapShot (demo_snapshot 1 600)]"
  have "case sd_run demo_globals (NewSymbolDef ''BTCUSDT'') ?es of
      Inr (s, []) \<Rightarrow>
        (case contents (linked s) of
           [fn, bn] \<Rightarrow> pn_start fn = 0 \<and> pn_end fn = 3000 \<and> pn_end bn = 6000 \<and>
             snapshot_index fn = [demo_snapshot 1 600] \<and> snapshot_index bn = [] \<and>
             trademap fn (QuoteSnapShot_GetId (demo_snapshot 1 600)) = None \<and>
             trademap fn (QuoteSnapShot_GetId (demo_snapshot 2 700)) \<noteq> None
         | _ \<Rightarrow> False)
    | _ \<Rightarrow> False" by code_simp
  then obtain s fn bn where
    r: "sd_run demo_globals (NewSymbolDef ''BTCUSDT'') ?es = Inr (s, [])"
      "contents (linked s) = [fn, bn]" "pn_start fn = 0" "pn_end fn = 3000" "pn_end bn = 6000"
      "snapshot_index fn = [demo_snapshot 1 600]" "snapshot_index bn = []"
      "trademap fn (QuoteSnapShot_GetId (demo_snapshot 1 600)) = None"
      "trademap fn (QuoteSnapShot_GetId (demo_snapshot 2 700)) \<noteq> None"
    by (auto split: sum.splits prod.splits list.splits)
  note wf = sd_run_wf [OF r(1)]
  have "map snapshot_index (contents (linked (put_snapshot demo_globals s (demo_snapshot u x)))) =
      (if trademap fn (QuoteSnapShot_GetId (demo_snapshot u x)) = None
       then [snapshot_index fn @ [demo_snapshot u x], snapshot_index bn]
       else [snapshot_index fn, snapshot_index bn])" if "0 \<le> x" "x < 3000" for u x
    by (rule front_snapshot_asks_trademap [OF wf r(2)])
      (use that r(3-5) in \<open>simp_all add: demo_snapshot_def demo_globals_def i64_def\<close>)
  then show ?thesis using r by simp
qed

text \<open>Duplicates are recognised within a period only: a trade that is delivered again after its own
  period was detached is accepted by the next period and published a second time.\<close>

theorem redelivered_trade_published_twice:
  "map_sum (\<lambda>p. p) (\<lambda>(s, outs). map tradeindex outs)
     (sd_run demo_globals (NewSymbolDef ''BTCUSDT'')
        [EvTick 0 0, EvTrade (demo_trade 1 100), EvTick 500 0, EvTick 4001 0,
         EvTrade (demo_trade 1 100), EvTick 7001 0])
   = Inr [[demo_trade 1 100], [demo_trade 1 100]]"
  by code_simp

end
