(* ===== verification/Pb_Messages.thy ===== *)
theory Pb_Messages
  imports Quote_Types
begin

text \<open>
  The messages of \<open>message/quote_period.pb.go\<close>: their data fields. The type variable \<open>'f\<close> stands
  for \<open>float64\<close>; \<open>strconv.ParseFloat\<close> is an argument that gives \<open>None\<close> where the conversion
  reports an error.
\<close>

section \<open>Messages\<close>

record 'f PriceLevel =
  pl_Price :: 'f
  pl_Amount :: 'f

record 'f IncrementOrderBookInfo =
  io_Timestamp :: int
  io_TransTs :: int
  io_FirstUpdateId :: int
  io_LastUpdateId :: int
  io_PrevLastUpdateId :: int
  io_Bids :: "'f PriceLevel list"
  io_Asks :: "'f PriceLevel list"

record 'f TradeInfo =
  ti_Timestamp :: int
  ti_TradeId :: int
  ti_Price :: 'f
  ti_Qty :: 'f
  ti_BuyerOrderId :: int
  ti_SellerOrderId :: int
  ti_TradeTs :: int
  ti_IsBuyerMaker :: bool
  ti_PlaceHolder :: bool

record 'f SnapShotInfo =
  si_LastUpdateId :: int
  si_Timestamp :: int
  si_TradeTs :: int
  si_Bids :: "'f PriceLevel list"
  si_Asks :: "'f PriceLevel list"

record 'f SymbolInfo =
  sy_Symbol :: string
  sy_Trades :: "'f TradeInfo list"
  sy_Incs :: "'f IncrementOrderBookInfo list"
  sy_Snaps :: "'f SnapShotInfo list"

record 'f PeriodMessage =
  pm_Period :: int
  pm_Ts :: int
  pm_PostTs :: int
  pm_PosterId :: string
  pm_SymbolInfos :: "'f SymbolInfo list"

definition NewSymbolInfo :: "'f SymbolInfo" where
  "NewSymbolInfo = \<lparr>sy_Symbol = [], sy_Trades = [], sy_Incs = [], sy_Snaps = []\<rparr>"

definition NewPeriodMessage :: "'f PeriodMessage" where
  "NewPeriodMessage =
     \<lparr>pm_Period = 0, pm_Ts = 0, pm_PostTs = 0, pm_PosterId = [], pm_SymbolInfos = []\<rparr>"

section \<open>Numbers\<close>

text \<open>\<open>if v, err := strconv.ParseFloat(s, 64); err == nil { field = v }\<close> on a field that is zero.\<close>

definition parsed_or_zero :: "(string \<Rightarrow> 'f option) \<Rightarrow> string \<Rightarrow> 'f::zero" where
  "parsed_or_zero ParseFloat s = (case ParseFloat s of Some v \<Rightarrow> v | None \<Rightarrow> 0)"

definition price_level :: "(string \<Rightarrow> 'f option) \<Rightarrow> AskPrice \<Rightarrow> 'f::zero PriceLevel" where
  "price_level ParseFloat p =
     \<lparr>pl_Price = parsed_or_zero ParseFloat (ap_Price p),
      pl_Amount = parsed_or_zero ParseFloat (ap_Qty p)\<rparr>"

end
