(* ===== verification/Marshal.thy ===== *)
theory Marshal
  imports Aggregation Pb_Messages
begin

text \<open>
  \<open>PeriodNode.MarshallPb\<close> (\<open>aggregation.go\<close>), which turns a detached node into the part of a period
  message that belongs to its symbol. \<open>strconv.ParseFloat\<close> is an argument that gives \<open>None\<close>
  where the conversion reports an error.
\<close>

section \<open>Marshalling\<close>

definition trade_info :: "(string \<Rightarrow> 'f option) \<Rightarrow> QuoteTrade \<Rightarrow> 'f::zero TradeInfo" where
  "trade_info ParseFloat trd =
     \<lparr>ti_Timestamp = qt_Time trd, ti_TradeId = qt_TradeID trd,
      ti_Price = parsed_or_zero ParseFloat (qt_Price trd),
      ti_Qty = parsed_or_zero ParseFloat (qt_Quantity trd),
      ti_BuyerOrderId = qt_BuyerOrderID trd, ti_SellerOrderId = qt_SellerOrderID trd,
      ti_TradeTs = qt_TradeTime trd, ti_IsBuyerMaker = qt_IsBuyerMaker trd,
      ti_PlaceHolder = qt_Placeholder trd\<rparr>"

definition inc_info :: "(string \<Rightarrow> 'f option) \<Rightarrow> QuoteOrbIncr \<Rightarrow> 'f::zero IncrementOrderBookInfo" where
  "inc_info ParseFloat inc =
     \<lparr>io_Timestamp = qi_Time inc, io_TransTs = qi_TransactionTime inc,
      io_FirstUpdateId = qi_FirstUpdateID inc, io_LastUpdateId = qi_LastUpdateID inc,
      io_PrevLastUpdateId = qi_PrevLastUpdateID inc,
      io_Bids = map (price_level ParseFloat) (qi_Bids inc),
      io_Asks = map (price_level ParseFloat) (qi_Asks inc)\<rparr>"

definition snap_info :: "(string \<Rightarrow> 'f option) \<Rightarrow> QuoteSnapShot \<Rightarrow> 'f::zero SnapShotInfo" where
  "snap_info ParseFloat snap =
     \<lparr>si_LastUpdateId = qs_LastUpdateID snap, si_Timestamp = qs_Time snap,
      si_TradeTs = qs_TradeTime snap,
      si_Bids = map (price_level ParseFloat) (qs_Bids snap),
      si_Asks = map (price_level ParseFloat) (qs_Asks snap)\<rparr>"

text \<open>\<open>Trades\<close> and \<open>Incs\<close> are made anew, \<open>Snaps\<close> is appended to.\<close>

definition MarshallPb ::
  "(string \<Rightarrow> 'f option) \<Rightarrow> PeriodNode \<Rightarrow> 'f::zero SymbolInfo \<Rightarrow> 'f SymbolInfo" where
  "MarshallPb ParseFloat pn sinfo =
     sinfo\<lparr>sy_Trades := map (trade_info ParseFloat) (tradeindex pn),
           sy_Incs := map (inc_info ParseFloat) (incindex pn),
           sy_Snaps := sy_Snaps sinfo @ map (snap_info ParseFloat) (snapshot_index pn)\<rparr>"

section \<open>Lemmas\<close>

lemma MarshallPb_symbol [simp]: "sy_Symbol (MarshallPb pf pn sinfo) = sy_Symbol sinfo"
  by (simp add: MarshallPb_def)

lemma MarshallPb_lengths:
  "length (sy_Trades (MarshallPb pf pn sinfo)) = length (tradeindex pn)"
  "length (sy_Incs (MarshallPb pf pn sinfo)) = length (incindex pn)"
  "length (sy_Snaps (MarshallPb pf pn sinfo)) = length (sy_Snaps sinfo) + length (snapshot_index pn)"
  by (simp_all add: MarshallPb_def)

lemma MarshallPb_trade_ids:
  "map ti_TradeId (sy_Trades (MarshallPb pf pn sinfo)) = map qt_TradeID (tradeindex pn)"
  by (simp add: MarshallPb_def trade_info_def comp_def)

lemma MarshallPb_timestamps:
  "map ti_Timestamp (sy_Trades (MarshallPb pf pn sinfo)) = map qt_Time (tradeindex pn)"
  "map io_Timestamp (sy_Incs (MarshallPb pf pn sinfo)) = map qi_Time (incindex pn)"
  by (simp_all add: MarshallPb_def trade_info_def inc_info_def comp_def)

end
