(* ===== verification/Aggr_Controller.thy ===== *)
theory Aggr_Controller
  imports Aggregation_Refine Marshal
begin

text \<open>
  The controller of the aggregation service (\<open>cmd/QuoteAggrService/controller.go\<close>): the symbols it
  aggregates, the dispatch of a received message to a symbol, and one round of
  \<open>timedPeriodCollect\<close>, which ticks every symbol and puts the detached nodes into one message.
  The puts of the receiving goroutine take the mutex of one symbol each and leave the windows
  alone, so a round is modelled as one step between puts; the clock is read several times in
  a round, and every reading is an argument, as are the orders in which the two \<open>range\<close> loops
  visit the map.
\<close>

section \<open>State\<close>

record 'f aggr_config =
  SigPosMultiplier :: 'f
  PeriodValue :: int
  PeriodDetachTime :: int
  TimeIterateInterval :: int
  UpdateTradingSymbolInterval :: int
  SkipEmptyQuote :: bool
  MonEnable :: bool
  ThunderId :: string
  SymbolBlackList :: "string list"

text \<open>\<open>normalize_config\<close>. The type variable is the \<open>float64\<close> of the multiplier.\<close>

definition normalize_config :: "'f::{zero,one,ord} aggr_config \<Rightarrow> 'f aggr_config \<times> aggr_globals" where
  "normalize_config cfg =
     (cfg\<lparr>SigPosMultiplier := (if SigPosMultiplier cfg \<le> 0 then 1 else SigPosMultiplier cfg),
          SymbolBlackList := map ToUpper (SymbolBlackList cfg),
          UpdateTradingSymbolInterval :=
            (if UpdateTradingSymbolInterval cfg = 0 then 6 else UpdateTradingSymbolInterval cfg),
          TimeIterateInterval :=
            (if TimeIterateInterval cfg = 0 then 200 else TimeIterateInterval cfg)\<rparr>,
      \<lparr>PERIOD = PeriodValue cfg, DETACH_TIME = PeriodDetachTime cfg\<rparr>)"

record controller =
  periodSymbols :: "string \<rightharpoonup> SymbolDef"
  last_period_ts :: int

text \<open>The first statement of \<open>timedPeriodCollect\<close>.\<close>

definition collect_start :: "int \<Rightarrow> controller \<Rightarrow> controller" where
  "collect_start sec c = c\<lparr>last_period_ts := sec\<rparr>"

text \<open>\<open>updateAggrSymbols\<close>: a fresh symbol for every trading symbol.\<close>

definition updateAggrSymbols :: "string set \<Rightarrow> controller \<Rightarrow> controller" where
  "updateAggrSymbols tradingSymbols c =
     c\<lparr>periodSymbols := (\<lambda>name. if name \<in> tradingSymbols then Some (NewSymbolDef name) else None)\<rparr>"

section \<open>Receiving a quote\<close>

definition onQuoteDepth :: "QuoteDepth \<Rightarrow> controller \<Rightarrow> controller" where
  "onQuoteDepth depth c = c"

definition onQuoteOrderbookInc :: "aggr_globals \<Rightarrow> QuoteOrbIncr \<Rightarrow> controller \<Rightarrow> controller" where
  "onQuoteOrderbookInc g inc c =
     (case periodSymbols c (qi_Symbol inc) of
        None \<Rightarrow> c
      | Some symbol \<Rightarrow> c\<lparr>periodSymbols := (periodSymbols c)(qi_Symbol inc \<mapsto> put_inc g symbol inc)\<rparr>)"

definition onQuoteTrade :: "aggr_globals \<Rightarrow> QuoteTrade \<Rightarrow> controller \<Rightarrow> controller" where
  "onQuoteTrade g trade c =
     (case periodSymbols c (qt_Symbol trade) of
        None \<Rightarrow> c
      | Some symbol \<Rightarrow> c\<lparr>periodSymbols := (periodSymbols c)(qt_Symbol trade \<mapsto> put_trade g symbol trade)\<rparr>)"

definition onQuoteSnapShot :: "aggr_globals \<Rightarrow> QuoteSnapShot \<Rightarrow> controller \<Rightarrow> controller" where
  "onQuoteSnapShot g snap c =
     (case periodSymbols c (qs_Symbol snap) of
        None \<Rightarrow> c
      | Some symbol \<Rightarrow> c\<lparr>periodSymbols := (periodSymbols c)(qs_Symbol snap \<mapsto> put_snapshot g symbol snap)\<rparr>)"

text \<open>\<open>gob_decode\<close> is the decoder of \<open>encoding/gob\<close>; it gives \<open>None\<close> where \<open>Decode\<close> fails.\<close>

definition onQuoteDataRecv ::
  "('b \<Rightarrow> Message option) \<Rightarrow> aggr_globals \<Rightarrow> 'b \<Rightarrow> controller \<Rightarrow> controller" where
  "onQuoteDataRecv gob_decode g data c =
     (case gob_decode data of
        None \<Rightarrow> c
      | Some msg \<Rightarrow>
          if msg_Type msg = MessageType_Quote then
            (case msg_Payload msg of
               Payload_Quote quote \<Rightarrow>
                 if qm_Type quote = QuoteDataType_Depth then
                   (case qm_Data quote of Data_Depth depth \<Rightarrow> onQuoteDepth depth c | _ \<Rightarrow> c)
                 else if qm_Type quote = QuoteDataType_OrderIncrement then
                   (case qm_Data quote of Data_OrbIncr inc \<Rightarrow> onQuoteOrderbookInc g inc c | _ \<Rightarrow> c)
                 else if qm_Type quote = QuoteDataType_Trade then
                   (case qm_Data quote of Data_Trade trade \<Rightarrow> onQuoteTrade g trade c | _ \<Rightarrow> c)
                 else if qm_Type quote = QuoteDataType_SnapShot then
                   (case qm_Data quote of Data_SnapShot snap \<Rightarrow> onQuoteSnapShot g snap c | _ \<Rightarrow> c)
                 else c
             | Payload_Other \<Rightarrow> c)
          else c)"

section \<open>Collecting a period\<close>

definition ORIGIN_UTC_TIME :: int where
  "ORIGIN_UTC_TIME = 1704067200"

text \<open>The readings of the clock in one round: the tick of the symbols in milliseconds, the seconds the
  period number is computed from, the seconds after the loop and the milliseconds at the post.\<close>

record clocks =
  ck_now :: int
  ck_sec :: int
  ck_sec2 :: int
  ck_post :: int

text \<open>The friend whose front node gives the birth time: the first symbol with a node.\<close>

fun friend_born :: "(string \<rightharpoonup> SymbolDef) \<Rightarrow> string list \<Rightarrow> int \<Rightarrow> int" where
  "friend_born m [] bornTs = bornTs"
| "friend_born m (name # names) bornTs =
     (case m name of
        None \<Rightarrow> friend_born m names bornTs
      | Some symbol \<Rightarrow>
          (case front_node (linked symbol) of
             None \<Rightarrow> friend_born m names bornTs
           | Some (_, pn) \<Rightarrow> pn_start pn))"

fun collect_symbols ::
  "(string \<Rightarrow> 'f option) \<Rightarrow> bool \<Rightarrow> aggr_globals \<Rightarrow> int \<Rightarrow> int \<Rightarrow> string list \<Rightarrow>
     (string \<rightharpoonup> SymbolDef) \<Rightarrow> 'f::zero PeriodMessage \<Rightarrow> ((string \<rightharpoonup> SymbolDef) \<times> 'f PeriodMessage) go" where
  "collect_symbols pf skip g now bornTs [] m pm = Inr (m, pm)"
| "collect_symbols pf skip g now bornTs (name # names) m pm =
     (case m name of
        None \<Rightarrow> collect_symbols pf skip g now bornTs names m pm
      | Some symbol \<Rightarrow>
          (case timeItr g symbol now bornTs of
             Inl p \<Rightarrow> Inl p
           | Inr (symbol', None) \<Rightarrow>
               collect_symbols pf skip g now bornTs names (m(name \<mapsto> symbol')) pm
           | Inr (symbol', Some pn) \<Rightarrow>
               (let pm1 = pm\<lparr>pm_Ts := pn_start pn\<rparr>;
                    sinfo = MarshallPb pf pn (NewSymbolInfo\<lparr>sy_Symbol := name\<rparr>)
                in if skip \<and> sy_Trades sinfo = [] \<and> sy_Incs sinfo = [] \<and> sy_Snaps sinfo = []
                   then collect_symbols pf skip g now bornTs names (m(name \<mapsto> symbol')) pm1
                   else collect_symbols pf skip g now bornTs names (m(name \<mapsto> symbol'))
                          (pm1\<lparr>pm_SymbolInfos := pm_SymbolInfos pm1 @ [sinfo]\<rparr>))))"

datatype 'f collect_out = Nothing | EmptyQuoteAlert | Publish "'f PeriodMessage"

definition period_of :: "aggr_globals \<Rightarrow> int \<Rightarrow> int" where
  "period_of g sec = go_div (i64 (i64 (sec - ORIGIN_UTC_TIME) * 1000)) (PERIOD g)"

definition born_of :: "aggr_globals \<Rightarrow> int \<Rightarrow> int" where
  "born_of g sec = i64 (i64 (period_of g sec * PERIOD g) + ORIGIN_UTC_TIME * 1000)"

text \<open>One round. \<open>friends\<close> and \<open>names\<close> are the orders of the two loops over the symbols.\<close>

definition collect_round ::
  "(string \<Rightarrow> 'f option) \<Rightarrow> 'f aggr_config \<Rightarrow> aggr_globals \<Rightarrow> clocks \<Rightarrow> string list \<Rightarrow> string list \<Rightarrow>
     controller \<Rightarrow> (controller \<times> 'f::zero collect_out) go" where
  "collect_round pf cfg g ck friends names c =
     (if PERIOD g = 0 then Inl DivideByZero
      else
        (case collect_symbols pf (SkipEmptyQuote cfg) g (ck_now ck)
                (friend_born (periodSymbols c) friends (born_of g (ck_sec ck))) names
                (periodSymbols c) NewPeriodMessage of
           Inl p \<Rightarrow> Inl p
         | Inr (m, pm) \<Rightarrow>
             (if pm_SymbolInfos pm = []
              then Inr (c\<lparr>periodSymbols := m\<rparr>,
                        if MonEnable cfg \<and> 20 < i64 (ck_sec2 ck - last_period_ts c)
                        then EmptyQuoteAlert else Nothing)
              else Inr (c\<lparr>periodSymbols := m, last_period_ts := ck_sec2 ck\<rparr>,
                        Publish (pm\<lparr>pm_Period := i64 (period_of g (ck_sec ck) - 1),
                                    pm_PosterId := ThunderId cfg, pm_PostTs := ck_post ck\<rparr>)))))"

section \<open>Runs of the controller\<close>

datatype 'b ctl_event = Recv 'b | Collect clocks "string list" "string list"

fun ctl_step ::
  "('b \<Rightarrow> Message option) \<Rightarrow> (string \<Rightarrow> 'f option) \<Rightarrow> 'f aggr_config \<Rightarrow> aggr_globals \<Rightarrow> controller \<Rightarrow>
     'b ctl_event \<Rightarrow> (controller \<times> 'f::zero PeriodMessage option) go" where
  "ctl_step gob pf cfg g c (Recv data) = Inr (onQuoteDataRecv gob g data c, None)"
| "ctl_step gob pf cfg g c (Collect ck friends names) =
     (case collect_round pf cfg g ck friends names c of
        Inl p \<Rightarrow> Inl p
      | Inr (c', Publish pm) \<Rightarrow> Inr (c', Some pm)
      | Inr (c', _) \<Rightarrow> Inr (c', None))"

definition ctl_run ::
  "('b \<Rightarrow> Message option) \<Rightarrow> (string \<Rightarrow> 'f option) \<Rightarrow> 'f aggr_config \<Rightarrow> aggr_globals \<Rightarrow> controller \<Rightarrow>
     'b ctl_event list \<Rightarrow> (controller \<times> 'f::zero PeriodMessage list) go" where
  "ctl_run gob pf cfg g = go_run (ctl_step gob pf cfg g)"

section \<open>Lemmas: windows\<close>

text \<open>What a tick does to the windows of a symbol.\<close>

definition close_windows ::
  "aggr_globals \<Rightarrow> int \<Rightarrow> (int \<times> int) list \<Rightarrow> (int \<times> int) list \<times> (int \<times> int) option" where
  "close_windows g now ws =
     (case ws of
        [(a, b), (c, d)] \<Rightarrow>
          (if i64 (b + DETACH_TIME g) < now then ([(c, d), (d, i64 (d + PERIOD g))], Some (a, b))
           else (ws, None))
      | _ \<Rightarrow> (ws, None))"

definition tick_windows ::
  "aggr_globals \<Rightarrow> int \<Rightarrow> int \<Rightarrow> (int \<times> int) list \<Rightarrow> (int \<times> int) list \<times> (int \<times> int) option" where
  "tick_windows g now born ws =
     (case ws of
        [] \<Rightarrow> ([(born, i64 (born + PERIOD g))], None)
      | [(a, b)] \<Rightarrow> close_windows g now [(a, b), (b, i64 (b + PERIOD g))]
      | _ \<Rightarrow> close_windows g now ws)"

definition window_of :: "PeriodNode \<Rightarrow> int \<times> int" where
  "window_of n = (pn_start n, pn_end n)"

definition slot_window :: "'q slot \<Rightarrow> int \<times> int" where
  "slot_window x = (case x of (a, b, _) \<Rightarrow> (a, b))"

lemma slot_window_simps [simp]:
  "slot_window (a, b, xs) = (a, b)" "slot_window \<circ> trade_slot = window_of"
  by (auto simp: slot_window_def window_of_def trade_slot_def)

lemma windows_view: "windows s = map slot_window (pb_slots (trade_view s))"
  by (simp add: windows_def trade_view_def window_of_def)

lemma abs_tick_windows:
  "tick_windows (g :: aggr_globals) now born (map slot_window (pb_slots B)) =
     (map slot_window (pb_slots (fst (abs_tick (PERIOD g) (DETACH_TIME g) tm idf now born B))),
      map_option slot_window (snd (abs_tick (PERIOD g) (DETACH_TIME g) tm idf now born B)))"
  by (cases B rule: buf_cases)
    (auto simp: tick_windows_def close_windows_def abs_tick_def abs_close_def slot_window_def
      split: prod.splits)

lemma timeItr_windows:
  assumes "sd_wf s"
  obtains s' out where "timeItr g s now born = Inr (s', out)" "sd_wf s'" "sd_name s' = sd_name s"
    "tick_windows g now born (windows s) = (windows s', map_option window_of out)"
proof -
  from timeItr_refines [OF assms, of g now born] obtain s' out where
    r: "timeItr g s now born = Inr (s', out)" "tick_result g now born s s' out" by blast
  then have "abs_tick (PERIOD g) (DETACH_TIME g) qt_Time QuoteTrade_GetId now born (trade_view s) =
      (trade_view s', map_option trade_slot out)" by (simp add: tick_result_def)
  then have "tick_windows g now born (windows s) = (windows s', map_option window_of out)"
    by (simp add: windows_view abs_tick_windows [where tm = qt_Time and idf = QuoteTrade_GetId]
        option.map_comp)
  with r that show ?thesis by (simp add: tick_result_def)
qed

text \<open>Filing a quote leaves the windows alone.\<close>

lemma put_windows:
  assumes "sd_wf s"
  shows "windows (put_trade g s t) = windows s" and "windows (put_inc g s i) = windows s"
    and "windows (put_snapshot g s q) = windows s"
proof -
  have "map slot_window (pb_slots (abs_put P tm idf x seen B)) = map slot_window (pb_slots B)"
    for P and tm :: "'q \<Rightarrow> int" and idf :: "'q \<Rightarrow> 'k" and x seen B
    by (cases B rule: buf_cases) (auto simp: abs_put_def)
  then show "windows (put_trade g s t) = windows s"
    by (simp add: windows_view put_trade_view [OF assms])
qed (simp_all add: windows_view put_other_views [OF assms])

end
