(* ===== verification/Aggr_Collect.thy ===== *)
theory Aggr_Collect
  imports Aggr_Controller
begin

text \<open>
  The correctness of \<open>timedPeriodCollect\<close>: all symbols move in lockstep, so that one round detaches
  the same period from every symbol or from none, whatever the order in which the map is
  visited, and the messages that are published follow each other on the grid of periods.
\<close>

section \<open>What a round does to each symbol\<close>

definition ticked :: "aggr_globals \<Rightarrow> int \<Rightarrow> int \<Rightarrow> SymbolDef \<Rightarrow> SymbolDef" where
  "ticked g now born s = (case timeItr g s now born of Inl _ \<Rightarrow> s | Inr (s', _) \<Rightarrow> s')"

definition detached :: "aggr_globals \<Rightarrow> int \<Rightarrow> int \<Rightarrow> SymbolDef \<Rightarrow> PeriodNode option" where
  "detached g now born s = (case timeItr g s now born of Inl _ \<Rightarrow> None | Inr (_, out) \<Rightarrow> out)"

definition symbol_infos ::
  "(string \<Rightarrow> 'f option) \<Rightarrow> bool \<Rightarrow> aggr_globals \<Rightarrow> int \<Rightarrow> int \<Rightarrow> (string \<rightharpoonup> SymbolDef) \<Rightarrow> string \<Rightarrow>
     'f::zero SymbolInfo list" where
  "symbol_infos pf skip g now born m name =
     (case Option.bind (m name) (detached g now born) of
        None \<Rightarrow> []
      | Some pn \<Rightarrow>
          if skip \<and> tradeindex pn = [] \<and> incindex pn = [] \<and> snapshot_index pn = [] then []
          else [MarshallPb pf pn (NewSymbolInfo\<lparr>sy_Symbol := name\<rparr>)])"

text \<open>\<open>all_in w m\<close>: every symbol is well formed and has the windows \<open>w\<close>.\<close>

definition all_in :: "(int \<times> int) list \<Rightarrow> (string \<rightharpoonup> SymbolDef) \<Rightarrow> bool" where
  "all_in w m \<longleftrightarrow> (\<forall>name s. m name = Some s \<longrightarrow> sd_wf s \<and> windows s = w)"

definition all_wf :: "(string \<rightharpoonup> SymbolDef) \<Rightarrow> bool" where
  "all_wf m \<longleftrightarrow> (\<forall>name s. m name = Some s \<longrightarrow> sd_wf s)"

lemma all_in_wf: "all_in w m \<Longrightarrow> all_wf m"
  by (auto simp: all_in_def all_wf_def)

lemma ticked_eq:
  assumes "sd_wf s"
  shows "timeItr g s now born = Inr (ticked g now born s, detached g now born s)"
    and "sd_wf (ticked g now born s)"
    and "tick_windows g now born (windows s) =
           (windows (ticked g now born s), map_option window_of (detached g now born s))"
  by (rule timeItr_windows [OF assms, of g now born]; simp add: ticked_def detached_def)+

lemma MarshallPb_empty:
  "(sy_Trades (MarshallPb pf pn (NewSymbolInfo\<lparr>sy_Symbol := name\<rparr>)) = [] \<and>
    sy_Incs (MarshallPb pf pn (NewSymbolInfo\<lparr>sy_Symbol := name\<rparr>)) = [] \<and>
    sy_Snaps (MarshallPb pf pn (NewSymbolInfo\<lparr>sy_Symbol := name\<rparr>)) = []) \<longleftrightarrow>
   tradeindex pn = [] \<and> incindex pn = [] \<and> snapshot_index pn = []"
  by (simp add: MarshallPb_def NewSymbolInfo_def)

text \<open>The start of the last detached node of a list of symbols, or what was there before.\<close>

fun last_start :: "aggr_globals \<Rightarrow> int \<Rightarrow> int \<Rightarrow> (string \<rightharpoonup> SymbolDef) \<Rightarrow> string list \<Rightarrow> int \<Rightarrow> int" where
  "last_start g now born m [] t = t"
| "last_start g now born m (name # names) t =
     last_start g now born m names
       (case Option.bind (m name) (detached g now born) of None \<Rightarrow> t | Some pn \<Rightarrow> pn_start pn)"

lemma last_start_cong:
  "(\<And>n. n \<in> set names \<Longrightarrow> m n = m' n) \<Longrightarrow>
     last_start g now born m names t = last_start g now born m' names t"
  by (induction names arbitrary: t) auto

lemma symbol_infos_upd:
  "name \<notin> set names \<Longrightarrow>
     map (symbol_infos pf skip g now born (m(name \<mapsto> s))) names = map (symbol_infos pf skip g now born m) names"
  by (auto simp: symbol_infos_def)

lemma collect_symbols_eq:
  assumes "all_wf m" and "distinct names"
  shows "collect_symbols pf skip g now born names m pm =
    Inr (\<lambda>n. if n \<in> set names then map_option (ticked g now born) (m n) else m n,
         pm\<lparr>pm_Ts := last_start g now born m names (pm_Ts pm),
            pm_SymbolInfos := pm_SymbolInfos pm @ concat (map (symbol_infos pf skip g now born m) names)\<rparr>)"
  using assms
proof (induction names arbitrary: m pm)
  case Nil
  then show ?case by simp
next
  case (Cons name names)
  show ?case
  proof (cases "m name")
    case None
    with Cons.IH [OF Cons.prems(1)] Cons.prems(2) show ?thesis
      by (auto simp: symbol_infos_def fun_eq_iff)
  next
    case (Some s)
    with Cons.prems(1) have wf: "sd_wf s" by (simp add: all_wf_def)
    let ?m = "m(name \<mapsto> ticked g now born s)"
    have fresh: "name \<notin> set names" "distinct names" using Cons.prems(2) by simp_all
    have "all_wf ?m" using Cons.prems(1) ticked_eq(2) [OF wf] by (simp add: all_wf_def)
    note IH = Cons.IH [OF this fresh(2)]
    have m: "(\<lambda>n. if n \<in> set names then map_option (ticked g now born) (?m n) else ?m n) =
        (\<lambda>n. if n \<in> set (name # names) then map_option (ticked g now born) (m n) else m n)"
      using fresh Some by (auto simp: fun_eq_iff)
    have ts: "last_start g now born ?m names t = last_start g now born m names t" for t
      by (rule last_start_cong) (use fresh in auto)
    show ?thesis
    proof (cases "detached g now born s")
      case None
      have si: "symbol_infos pf skip g now born m name = []"
        using \<open>m name = Some s\<close> None by (simp add: symbol_infos_def)
      from None show ?thesis
        using Some ticked_eq(1) [OF wf, of g now born] by (simp only: collect_symbols.simps option.case sum.case
            prod.case IH m ts symbol_infos_upd [OF fresh(1)]) (simp add: si)
    next
      case (Some pn)
      have si: "symbol_infos pf skip g now born m name =
          (if skip \<and> tradeindex pn = [] \<and> incindex pn = [] \<and> snapshot_index pn = [] then []
           else [MarshallPb pf pn (NewSymbolInfo\<lparr>sy_Symbol := name\<rparr>)])"
        using \<open>m name = Some s\<close> Some by (simp add: symbol_infos_def)
      show ?thesis
        using \<open>m name = Some s\<close> Some ticked_eq(1) [OF wf, of g now born]
        by (simp only: collect_symbols.simps option.case sum.case prod.case IH m ts Let_def
            symbol_infos_upd [OF fresh(1)] MarshallPb_empty last_start.simps)
          (simp add: si)
    qed
  qed
qed

section \<open>Lockstep\<close>

lemma all_in_ticked:
  assumes "all_in w m"
  shows "all_in (fst (tick_windows g now born w)) (\<lambda>n. map_option (ticked g now born) (m n))"
  using assms ticked_eq(2,3) [of _ g now born] by (fastforce simp: all_in_def)

lemma all_in_detached:
  assumes "all_in w m" and "m name = Some s"
  shows "map_option window_of (detached g now born s) = snd (tick_windows g now born w)"
  using assms ticked_eq(3) [of s g now born] by (auto simp: all_in_def)

lemma friend_born_eq:
  assumes "all_in w m" and "set friends \<subseteq> dom m"
  shows "friend_born m friends d = (if friends = [] then d else case w of [] \<Rightarrow> d | (a, _) # _ \<Rightarrow> a)"
  using assms(2)
proof (induction friends)
  case Nil
  then show ?case by simp
next
  case (Cons name friends)
  then obtain s where s: "m name = Some s" by auto
  with assms(1) have wf: "sd_wf s" and w: "windows s = w" by (auto simp: all_in_def)
  from wf show ?case
    by (cases rule: sd_wf_cases)
      (use s w Cons in \<open>auto simp: windows_def front_node_def Front_def contents_def\<close>)
qed

lemma last_start_eq:
  assumes "all_in w m" and "set names \<subseteq> dom m"
  shows "last_start g now born m names t =
    (if names = [] then t else case snd (tick_windows g now born w) of None \<Rightarrow> t | Some (a, _) \<Rightarrow> a)"
  using assms(2)
proof (induction names arbitrary: t)
  case Nil
  then show ?case by simp
next
  case (Cons name names)
  then obtain s where s: "m name = Some s" by auto
  from all_in_detached [OF assms(1) s, of g now born] Cons s show ?case
    by (cases "detached g now born s") (auto simp: window_of_def split: option.splits)
qed

lemma symbol_infos_cases:
  assumes "all_in w m" and "snd (tick_windows g now born w) = None"
  shows "symbol_infos pf skip g now born m name = []"
proof (cases "m name")
  case (Some s)
  with all_in_detached [OF assms(1) Some, of g now born] assms(2) show ?thesis
    by (simp add: symbol_infos_def)
qed (simp add: symbol_infos_def)

lemma symbol_infos_names: "map sy_Symbol (symbol_infos pf skip g now born m name) \<in> {[], [name]}"
  by (auto simp: symbol_infos_def split: option.splits)

lemma infos_names_subset:
  "\<exists>ns. map sy_Symbol (concat (map (symbol_infos pf skip g now born m) names)) = filter (\<lambda>n. n \<in> ns) names"
proof (intro exI)
  show "map sy_Symbol (concat (map (symbol_infos pf skip g now born m) names)) =
      filter (\<lambda>n. n \<in> {n. symbol_infos pf skip g now born m n \<noteq> []}) names"
  proof (induction names)
    case (Cons name names)
    with symbol_infos_names [of pf skip g now born m name] show ?case by auto
  qed simp
qed

section \<open>One round\<close>

definition round_infos ::
  "(string \<Rightarrow> 'f option) \<Rightarrow> 'f aggr_config \<Rightarrow> aggr_globals \<Rightarrow> int \<Rightarrow> int \<Rightarrow> (string \<rightharpoonup> SymbolDef) \<Rightarrow> string list \<Rightarrow>
     'f::zero SymbolInfo list" where
  "round_infos pf cfg g now born m names = concat (map (symbol_infos pf (SkipEmptyQuote cfg) g now born m) names)"

definition round_born :: "aggr_globals \<Rightarrow> clocks \<Rightarrow> (int \<times> int) list \<Rightarrow> int" where
  "round_born g ck w = (case w of [] \<Rightarrow> born_of g (ck_sec ck) | (a, _) # _ \<Rightarrow> a)"

text \<open>A round with symbols in lockstep, written out.\<close>

lemma collect_round_eq:
  assumes "PERIOD g \<noteq> 0" and "all_in w (periodSymbols c)"
    and "range_order friends (periodSymbols c)" and "range_order names (periodSymbols c)"
    and "born = round_born g ck w"
  shows "collect_round pf cfg g ck friends names c =
    (let m = (\<lambda>n. map_option (ticked g (ck_now ck) born) (periodSymbols c n));
         infos = round_infos pf cfg g (ck_now ck) born (periodSymbols c) names
     in Inr (if infos = []
             then (c\<lparr>periodSymbols := m\<rparr>,
                   if MonEnable cfg \<and> 20 < i64 (ck_sec2 ck - last_period_ts c) then EmptyQuoteAlert else Nothing)
             else (c\<lparr>periodSymbols := m, last_period_ts := ck_sec2 ck\<rparr>,
                   Publish \<lparr>pm_Period = i64 (period_of g (ck_sec ck) - 1),
                            pm_Ts = (case snd (tick_windows g (ck_now ck) born w) of
                                       None \<Rightarrow> 0 | Some (a, _) \<Rightarrow> a),
                            pm_PostTs = ck_post ck, pm_PosterId = ThunderId cfg,
                            pm_SymbolInfos = infos\<rparr>)))"
proof (cases "names = []")
  case True
  with assms(4) have "periodSymbols c = Map.empty" by simp
  with True assms(1) show ?thesis
    by (simp add: collect_round_def round_infos_def NewPeriodMessage_def Let_def)
next
  case False
  let ?m = "periodSymbols c"
  have doms: "set friends = dom ?m" "set names = dom ?m" "distinct names"
    using assms(3,4) by (simp_all add: range_order_def)
  have born: "friend_born ?m friends (born_of g (ck_sec ck)) = born"
    using friend_born_eq [OF assms(2), of friends] doms False assms(5)
    by (auto simp: round_born_def split: list.splits)
  have m: "(\<lambda>n. if n \<in> set names then map_option (ticked g (ck_now ck) born) (?m n) else ?m n) =
      (\<lambda>n. map_option (ticked g (ck_now ck) born) (?m n))"
    using doms by (auto simp: fun_eq_iff domIff)
  have ts: "last_start g (ck_now ck) born ?m names t =
      (case snd (tick_windows g (ck_now ck) born w) of None \<Rightarrow> t | Some (a, _) \<Rightarrow> a)" for t
    using last_start_eq [OF assms(2), of names] doms(2) False by simp
  show ?thesis
    unfolding collect_round_def born collect_symbols_eq [OF all_in_wf [OF assms(2)] doms(3)] m ts
    using assms(1) by (simp add: round_infos_def NewPeriodMessage_def Let_def cong: option.case_cong)
qed

lemma infos_all:
  assumes "all_in w m" and "set names = dom m" and "distinct names" and "\<not> SkipEmptyQuote cfg"
    and "snd (tick_windows g now born w) \<noteq> None"
  shows "map sy_Symbol (round_infos pf cfg g now born m names) = names"
proof -
  have "map sy_Symbol (symbol_infos pf (SkipEmptyQuote cfg) g now born m n) = [n]" if n: "n \<in> dom m" for n
  proof -
    from n obtain s where s: "m n = Some s" by auto
    from all_in_detached [OF assms(1) s, of g now born] assms(5) obtain pn where
      "detached g now born s = Some pn" by (cases "detached g now born s") auto
    with s assms(4) show ?thesis by (simp add: symbol_infos_def NewSymbolInfo_def)
  qed
  then have "map sy_Symbol (concat (map (symbol_infos pf (SkipEmptyQuote cfg) g now born m) ns)) = ns"
    if "set ns \<subseteq> dom m" for ns using that by (induction ns) auto
  then show ?thesis using assms(2) by (simp add: round_infos_def)
qed

lemma round_infos_Nil:
  assumes "all_in w m" and "snd (tick_windows g now born w) = None"
  shows "round_infos pf cfg g now born m names = []"
  by (simp add: round_infos_def symbol_infos_cases [OF assms])

lemma round_infos_distinct:
  assumes "distinct names"
  shows "distinct (map sy_Symbol (round_infos pf cfg g now born m names))"
    and "set (map sy_Symbol (round_infos pf cfg g now born m names)) \<subseteq> set names"
proof -
  obtain ns where e: "map sy_Symbol (round_infos pf cfg g now born m names) = filter (\<lambda>n. n \<in> ns) names"
    using infos_names_subset [of pf "SkipEmptyQuote cfg" g now born m names] unfolding round_infos_def by blast
  show "distinct (map sy_Symbol (round_infos pf cfg g now born m names))" unfolding e using assms by simp
  show "set (map sy_Symbol (round_infos pf cfg g now born m names)) \<subseteq> set names" unfolding e by auto
qed

section \<open>The grid of periods\<close>

definition grid :: "aggr_globals \<Rightarrow> int \<Rightarrow> int" where
  "grid g k = ORIGIN_UTC_TIME * 1000 + k * PERIOD g"

text \<open>The windows of all symbols: one or two consecutive periods, the first with number \<open>k\<close>.\<close>

definition front_at :: "aggr_globals \<Rightarrow> int \<Rightarrow> (int \<times> int) list \<Rightarrow> bool" where
  "front_at g k w \<longleftrightarrow> 0 \<le> k \<and> grid g k \<le> 2 ^ 60 \<and>
     (w = [(grid g k, grid g (k + 1))] \<or>
      w = [(grid g k, grid g (k + 1)), (grid g (k + 1), grid g (k + 2))])"

definition clocks_ok :: "clocks \<Rightarrow> bool" where
  "clocks_ok ck \<longleftrightarrow> clock_ok (ck_now ck) \<and> ORIGIN_UTC_TIME \<le> ck_sec ck \<and> ck_sec ck \<le> 2 ^ 40"

lemma grid_next: "grid g (k + 1) = grid g k + PERIOD g" "grid g (k + 2) = grid g (k + 1) + PERIOD g"
  by (simp_all add: grid_def algebra_simps)

lemma grid_ge: "0 \<le> k \<Longrightarrow> 0 < PERIOD g \<Longrightarrow> 0 < grid g k"
  by (simp add: grid_def ORIGIN_UTC_TIME_def add_pos_nonneg)

lemma period_of_eq:
  assumes "0 < PERIOD g" and "ORIGIN_UTC_TIME \<le> sec" and "sec \<le> 2 ^ 40"
  shows "period_of g sec = ((sec - ORIGIN_UTC_TIME) * 1000) div PERIOD g"
proof -
  have "i64 (sec - ORIGIN_UTC_TIME) = sec - ORIGIN_UTC_TIME"
    by (rule i64_small) (use assms in \<open>auto simp: ORIGIN_UTC_TIME_def\<close>)
  moreover have "i64 ((sec - ORIGIN_UTC_TIME) * 1000) = (sec - ORIGIN_UTC_TIME) * 1000"
    by (rule i64_small) (use assms in \<open>auto simp: ORIGIN_UTC_TIME_def\<close>)
  ultimately show ?thesis using assms by (simp add: period_of_def go_div_nonneg)
qed

lemma div_mult_le: "0 < p \<Longrightarrow> (d :: int) div p * p \<le> d"
  using minus_mod_eq_div_mult [of d p] pos_mod_sign [of p d] by linarith

lemma born_of_eq:
  assumes "0 < PERIOD g" and "ORIGIN_UTC_TIME \<le> sec" and "sec \<le> 2 ^ 40"
  shows "born_of g sec = grid g (period_of g sec)" and "0 \<le> period_of g sec"
    and "grid g (period_of g sec) \<le> 2 ^ 60"
proof -
  let ?d = "(sec - ORIGIN_UTC_TIME) * 1000"
  note p = period_of_eq [OF assms]
  have d: "0 \<le> ?d" "?d \<le> 2 ^ 40 * 1000" using assms by (simp_all add: ORIGIN_UTC_TIME_def)
  have le: "?d div PERIOD g * PERIOD g \<le> ?d" "0 \<le> ?d div PERIOD g * PERIOD g"
    by (rule div_mult_le [OF assms(1)]) (use assms(1) d(1) in \<open>simp add: pos_imp_zdiv_nonneg_iff\<close>)
  have small: "i64 (?d div PERIOD g * PERIOD g) = ?d div PERIOD g * PERIOD g"
    by (rule i64_small) (use le d in auto)
  have sum: "i64 (?d div PERIOD g * PERIOD g + ORIGIN_UTC_TIME * 1000) =
      ?d div PERIOD g * PERIOD g + ORIGIN_UTC_TIME * 1000"
    by (rule i64_small) (use le d in \<open>auto simp: ORIGIN_UTC_TIME_def\<close>)
  show "born_of g sec = grid g (period_of g sec)"
    unfolding born_of_def p small sum by (simp add: grid_def)
  show "0 \<le> period_of g sec" unfolding p using assms(1) d(1) by (simp add: pos_imp_zdiv_nonneg_iff)
  show "grid g (period_of g sec) \<le> 2 ^ 60"
    unfolding p grid_def using le d by (simp add: ORIGIN_UTC_TIME_def)
qed

lemma tick_grid_empty:
  assumes "globals_ok (PERIOD g) (DETACH_TIME g)" and "clocks_ok ck"
  shows "tick_windows g now (round_born g ck []) [] =
           ([(grid g (period_of g (ck_sec ck)), grid g (period_of g (ck_sec ck) + 1))], None)"
    and "front_at g (period_of g (ck_sec ck)) (fst (tick_windows g now (round_born g ck []) []))"
proof -
  have P: "0 < PERIOD g" "PERIOD g \<le> 2 ^ 40" using assms(1) by (simp_all add: globals_ok_def)
  have ck: "ORIGIN_UTC_TIME \<le> ck_sec ck" "ck_sec ck \<le> 2 ^ 40" using assms(2) by (simp_all add: clocks_ok_def)
  note b = born_of_eq [OF P(1) ck]
  have "i64 (grid g (period_of g (ck_sec ck)) + PERIOD g) = grid g (period_of g (ck_sec ck) + 1)"
    unfolding grid_next(1) by (rule i64_small) (use b(3) grid_ge [OF b(2) P(1)] P in auto)
  then show *: "tick_windows g now (round_born g ck []) [] =
      ([(grid g (period_of g (ck_sec ck)), grid g (period_of g (ck_sec ck) + 1))], None)"
    by (simp add: tick_windows_def round_born_def b(1))
  show "front_at g (period_of g (ck_sec ck)) (fst (tick_windows g now (round_born g ck []) []))"
    unfolding * using b by (simp add: front_at_def)
qed

lemma tick_grid:
  assumes "globals_ok (PERIOD g) (DETACH_TIME g)" and "clocks_ok ck" and "front_at g k w"
  defines "w' \<equiv> fst (tick_windows g (ck_now ck) (round_born g ck w) w)"
    and "o' \<equiv> snd (tick_windows g (ck_now ck) (round_born g ck w) w)"
  shows "(o' = None \<and> front_at g k w') \<or>
         (o' = Some (grid g k, grid g (k + 1)) \<and> front_at g (k + 1) w')"
proof -
  have P: "0 < PERIOD g" "PERIOD g \<le> 2 ^ 40" "0 \<le> DETACH_TIME g" "DETACH_TIME g \<le> 2 ^ 40"
    using assms(1) by (simp_all add: globals_ok_def)
  have k: "0 \<le> k" "grid g k \<le> 2 ^ 60" using assms(3) by (simp_all add: front_at_def)
  note pos = grid_ge [OF k(1) P(1)]
  have e2: "i64 (grid g (k + 1) + PERIOD g) = grid g (k + 2)"
    unfolding grid_next by (rule i64_small) (use k pos P in auto)
  have e3: "i64 (grid g (k + 2) + PERIOD g) = grid g (k + 3)"
  proof -
    have "grid g (k + 3) = grid g k + 3 * PERIOD g" "grid g (k + 2) + PERIOD g = grid g k + 3 * PERIOD g"
      by (simp_all add: grid_def algebra_simps)
    moreover have "i64 (grid g k + 3 * PERIOD g) = grid g k + 3 * PERIOD g"
      by (rule i64_small) (use k pos P in auto)
    ultimately show ?thesis by (simp only:)
  qed
  have d: "i64 (grid g (k + 1) + DETACH_TIME g) = grid g (k + 1) + DETACH_TIME g"
    unfolding grid_next by (rule i64_small) (use k pos P in auto)
  let ?w = "[(grid g k, grid g (k + 1)), (grid g (k + 1), grid g (k + 2))]"
  have t: "tick_windows g (ck_now ck) (round_born g ck w) w = close_windows g (ck_now ck) ?w"
    using assms(3) e2 by (auto simp: front_at_def tick_windows_def)
  show ?thesis
  proof (cases "grid g (k + 1) + DETACH_TIME g < ck_now ck")
    case True
    moreover from True assms(2) P(3) have "grid g (k + 1) \<le> 2 ^ 60"
      by (auto simp: clocks_ok_def clock_ok_def)
    ultimately show ?thesis
      using k(1) e3 d unfolding w'_def o'_def t
      by (simp add: close_windows_def front_at_def add.commute add.left_commute)
  next
    case False
    with k d show ?thesis unfolding w'_def o'_def t by (simp add: close_windows_def front_at_def)
  qed
qed

section \<open>Steps and runs of the controller\<close>

lemma onQuoteDataRecv_all_in:
  assumes "all_in w (periodSymbols c)"
  shows "all_in w (periodSymbols (onQuoteDataRecv gob g data c)) \<and>
         dom (periodSymbols (onQuoteDataRecv gob g data c)) = dom (periodSymbols c)"
proof -
  have t: "all_in w (periodSymbols (onQuoteTrade g x c)) \<and>
      dom (periodSymbols (onQuoteTrade g x c)) = dom (periodSymbols c)" for x
    using assms by (auto simp: onQuoteTrade_def all_in_def put_wf put_windows split: option.splits)
  have i: "all_in w (periodSymbols (onQuoteOrderbookInc g x c)) \<and>
      dom (periodSymbols (onQuoteOrderbookInc g x c)) = dom (periodSymbols c)" for x
    using assms by (auto simp: onQuoteOrderbookInc_def all_in_def put_wf put_windows split: option.splits)
  have s: "all_in w (periodSymbols (onQuoteSnapShot g x c)) \<and>
      dom (periodSymbols (onQuoteSnapShot g x c)) = dom (periodSymbols c)" for x
    using assms by (auto simp: onQuoteSnapShot_def all_in_def put_wf put_windows split: option.splits)
  show ?thesis
    using assms t i s
    by (auto simp: onQuoteDataRecv_def onQuoteDepth_def split: option.splits Payload.splits QuoteData.splits)
qed

fun ctl_event_ok :: "string set \<Rightarrow> 'b ctl_event \<Rightarrow> bool" where
  "ctl_event_ok S (Recv data) \<longleftrightarrow> True"
| "ctl_event_ok S (Collect ck friends names) \<longleftrightarrow>
     distinct friends \<and> set friends = S \<and> distinct names \<and> set names = S \<and> clocks_ok ck"

text \<open>The windows \<open>w\<close> of all symbols, whose names are \<open>S\<close>; the front period has number \<open>k\<close>.\<close>

definition ctl_inv :: "aggr_globals \<Rightarrow> string set \<Rightarrow> (int \<times> int) list \<Rightarrow> int \<Rightarrow> controller \<Rightarrow> bool" where
  "ctl_inv g S w k c \<longleftrightarrow> all_in w (periodSymbols c) \<and> dom (periodSymbols c) = S \<and> (w = [] \<or> front_at g k w)"

text \<open>A round, seen from outside: what it leaves of the lockstep and what its message is stamped with.\<close>

lemma ctl_collect_eq:
  assumes "globals_ok (PERIOD g) (DETACH_TIME g)" and "ctl_event_ok S (Collect ck friends names)" and "ctl_inv g S w k c"
    and tw: "tw = tick_windows g (ck_now ck) (round_born g ck w) w"
    and infos: "infos = round_infos pf cfg g (ck_now ck) (round_born g ck w) (periodSymbols c) names"
  shows "\<exists>c' out. ctl_step gob pf cfg g c (Collect ck friends names) = Inr (c', out) \<and>
    all_in (fst tw) (periodSymbols c') \<and> dom (periodSymbols c') = S \<and> (out = None \<longleftrightarrow> infos = []) \<and>
    (\<forall>pm. out = Some pm \<longrightarrow> pm_Ts pm = (case snd tw of None \<Rightarrow> 0 | Some (a, _) \<Rightarrow> a))"
proof -
  have P: "PERIOD g \<noteq> 0" and inv: "all_in w (periodSymbols c)" "dom (periodSymbols c) = S"
    and ords: "range_order friends (periodSymbols c)" "range_order names (periodSymbols c)"
    using assms by (auto simp: globals_ok_def ctl_inv_def range_order_def)
  note eq = collect_round_eq [where ck = ck and pf = pf and cfg = cfg, OF P inv(1) ords refl]
  show ?thesis
    using all_in_ticked [OF inv(1), of g "ck_now ck" "round_born g ck w"] inv(2)
    by (auto simp: eq tw infos Let_def dom_def)
qed

lemma round_infos_full:
  assumes "all_in w m" and "dom m = S" and "ctl_event_ok S (Collect ck friends names)"
    and "snd (tick_windows g (ck_now ck) born w) \<noteq> None" and "\<not> SkipEmptyQuote cfg" and "S \<noteq> {}"
  shows "round_infos pf cfg g (ck_now ck) born m names \<noteq> []"
  using infos_all [OF assms(1) _ _ assms(5,4), of names pf] assms(2,3,6) by auto

lemma ctl_collect_first:
  assumes "globals_ok (PERIOD g) (DETACH_TIME g)" and "ctl_event_ok S (Collect ck friends names)" and "ctl_inv g S [] k c"
  shows "\<exists>w' k' c'. ctl_step gob pf cfg g c (Collect ck friends names) = Inr (c', None) \<and> ctl_inv g S w' k' c'"
proof -
  define tw where "tw = tick_windows g (ck_now ck) (round_born g ck []) []"
  have tw: "snd tw = None" "front_at g (period_of g (ck_sec ck)) (fst tw)"
    using tick_grid_empty [OF assms(1), of ck "ck_now ck"] assms(2) by (simp_all add: tw_def)
  have "round_infos pf cfg g (ck_now ck) (round_born g ck []) (periodSymbols c) names = []"
    by (rule round_infos_Nil) (use assms(3) tw(1) in \<open>auto simp: ctl_inv_def tw_def\<close>)
  with ctl_collect_eq [OF assms tw_def refl, of gob pf cfg] tw(2) show ?thesis by (auto simp: ctl_inv_def)
qed

lemma ctl_collect_next:
  assumes g: "globals_ok (PERIOD g) (DETACH_TIME g)" and ok: "ctl_event_ok S (Collect ck friends names)"
    and inv: "ctl_inv g S w k c" and "w \<noteq> []"
  shows "\<exists>w' k' c' out. ctl_step gob pf cfg g c (Collect ck friends names) = Inr (c', out) \<and> ctl_inv g S w' k' c' \<and>
    w' \<noteq> [] \<and>
    (k' = k \<and> out = None \<or>
     k' = k + 1 \<and> (out = None \<longrightarrow> SkipEmptyQuote cfg \<or> S = {}) \<and> (\<forall>pm. out = Some pm \<longrightarrow> pm_Ts pm = grid g k))"
proof -
  define tw where "tw = tick_windows g (ck_now ck) (round_born g ck w) w"
  define infos where "infos = round_infos pf cfg g (ck_now ck) (round_born g ck w) (periodSymbols c) names"
  have m: "all_in w (periodSymbols c)" "dom (periodSymbols c) = S" and "front_at g k w" and ck: "clocks_ok ck"
    using ok inv assms(4) by (auto simp: ctl_inv_def)
  note grid = tick_grid [OF g ck this(3), folded tw_def]
  from ctl_collect_eq [OF g ok inv tw_def infos_def, of gob] obtain c' out where
    r: "ctl_step gob pf cfg g c (Collect ck friends names) = Inr (c', out)" "all_in (fst tw) (periodSymbols c')"
      "dom (periodSymbols c') = S" "out = None \<longleftrightarrow> infos = []"
      "\<forall>pm. out = Some pm \<longrightarrow> pm_Ts pm = (case snd tw of None \<Rightarrow> 0 | Some (a, _) \<Rightarrow> a)" by blast
  have Nil: "infos = []" if "snd tw = None"
    unfolding infos_def by (rule round_infos_Nil [OF m(1) that [unfolded tw_def]])
  have full: "infos \<noteq> []" if "\<not> SkipEmptyQuote cfg" "S \<noteq> {}" "snd tw \<noteq> None"
    unfolding infos_def by (rule round_infos_full [OF m ok that(3) [unfolded tw_def] that(1,2)])
  have ne: "fst tw \<noteq> []" using grid by (auto simp: front_at_def)
  from grid show ?thesis
  proof
    assume "snd tw = None \<and> front_at g k (fst tw)"
    with r Nil ne show ?thesis by (auto simp: ctl_inv_def)
  next
    assume "snd tw = Some (grid g k, grid g (k + 1)) \<and> front_at g (k + 1) (fst tw)"
    with r full ne show ?thesis
      by - (rule exI [of _ "fst tw"], rule exI [of _ "k + 1"], auto simp: ctl_inv_def)
  qed
qed

lemma ctl_step_inv:
  assumes "globals_ok (PERIOD g) (DETACH_TIME g)" and "ctl_event_ok S e" and "ctl_inv g S w k c"
  shows "\<exists>w' k' c' out. ctl_step gob pf cfg g c e = Inr (c', out) \<and> ctl_inv g S w' k' c' \<and>
    (if w = [] then out = None
     else w' \<noteq> [] \<and>
       (k' = k \<and> out = None \<or>
        k' = k + 1 \<and> (out = None \<longrightarrow> SkipEmptyQuote cfg \<or> S = {}) \<and>
          (\<forall>pm. out = Some pm \<longrightarrow> pm_Ts pm = grid g k)))"
proof (cases e)
  case (Recv data)
  with assms(3) show ?thesis
    using onQuoteDataRecv_all_in [of w c gob g data] by (fastforce simp: ctl_inv_def)
next
  case (Collect ck friends names)
  show ?thesis
  proof (cases "w = []")
    case True
    with ctl_collect_first [of g S ck friends names k c gob pf cfg] assms Collect show ?thesis by auto
  next
    case False
    with ctl_collect_next [OF assms(1) assms(2) [unfolded Collect] assms(3) False, of gob pf cfg] Collect
    show ?thesis by simp
  qed
qed

text \<open>The start times a run publishes: increasing numbers \<open>ks\<close> on the grid, and once the front
  period has number \<open>k\<close>, none below \<open>k\<close>; none is left out when empty symbols are not skipped.\<close>

definition on_grid ::
  "aggr_globals \<Rightarrow> bool \<Rightarrow> (int \<times> int) list \<Rightarrow> int \<Rightarrow> int list \<Rightarrow> int list \<Rightarrow> bool" where
  "on_grid g full w k ks ts \<longleftrightarrow>
     ts = map (grid g) ks \<and> sorted_wrt (<) ks \<and>
     (w \<noteq> [] \<longrightarrow> (\<forall>x\<in>set ks. k \<le> x) \<and> (full \<longrightarrow> (\<forall>i<length ks. ks ! i = k + int i)))"

lemma on_grid_keep:
  assumes "on_grid g full w1 k1 ks ts" and "w \<noteq> [] \<longrightarrow> w1 \<noteq> [] \<and> k \<le> k1 \<and> (full \<longrightarrow> k1 = k)"
  shows "on_grid g full w k ks ts"
  using assms unfolding on_grid_def by (auto intro: order_trans)

lemma on_grid_Cons:
  assumes "on_grid g full w1 (k + 1) ks ts" and "w1 \<noteq> []"
  shows "on_grid g full w k (k # ks) (grid g k # ts)"
  using assms unfolding on_grid_def by (auto simp: nth_Cons split: nat.splits)

lemma ctl_run_inv:
  assumes g: "globals_ok (PERIOD g) (DETACH_TIME g)" and "list_all (ctl_event_ok S) es"
    and "ctl_inv g S w k c" and full: "full \<longleftrightarrow> \<not> SkipEmptyQuote cfg \<and> S \<noteq> {}"
  shows "\<exists>w' k' c' outs ks. ctl_run gob pf cfg g c es = Inr (c', outs) \<and> ctl_inv g S w' k' c' \<and>
    on_grid g full w k ks (map pm_Ts outs)"
  using assms(2,3)
proof (induction es arbitrary: w k c)
  case Nil
  then show ?case by (auto simp: ctl_run_def on_grid_def)
next
  case (Cons e es)
  from Cons.prems(1) have ok: "ctl_event_ok S e" "list_all (ctl_event_ok S) es" by simp_all
  from ctl_step_inv [OF g ok(1) Cons.prems(2), of gob pf cfg] obtain w1 k1 c1 out where
    st: "ctl_step gob pf cfg g c e = Inr (c1, out)" "ctl_inv g S w1 k1 c1"
      "if w = [] then out = None
       else w1 \<noteq> [] \<and>
         (k1 = k \<and> out = None \<or>
          k1 = k + 1 \<and> (out = None \<longrightarrow> SkipEmptyQuote cfg \<or> S = {}) \<and>
            (\<forall>pm. out = Some pm \<longrightarrow> pm_Ts pm = grid g k))" by blast
  from Cons.IH [OF ok(2) st(2)] obtain w2 k2 c2 outs ks where
    r: "ctl_run gob pf cfg g c1 es = Inr (c2, outs)" "ctl_inv g S w2 k2 c2"
      "on_grid g full w1 k1 ks (map pm_Ts outs)" by blast
  have run: "ctl_run gob pf cfg g c (e # es) =
      Inr (c2, case out of None \<Rightarrow> outs | Some pm \<Rightarrow> pm # outs)"
    using st(1) r(1) by (simp add: ctl_run_def)
  show ?case
  proof (cases out)
    case None
    with st(3) full have le: "w \<noteq> [] \<longrightarrow> w1 \<noteq> [] \<and> k \<le> k1 \<and> (full \<longrightarrow> k1 = k)"
      by (auto split: if_splits)
    from on_grid_keep [OF r(3) this] r(2) show ?thesis unfolding run None option.case by blast
  next
    case (Some pm)
    with st(3) have w: "w1 \<noteq> []" and k: "k1 = k + 1" "pm_Ts pm = grid g k"
      by (auto split: if_splits)
    from on_grid_Cons [OF _ w] r(3) k have "on_grid g full w k (k # ks) (map pm_Ts (pm # outs))" by simp
    with r(2) show ?thesis unfolding run Some option.case by blast
  qed
qed

end
