(* ===== verification/Aggr_Collect_Props.thy ===== *)
theory Aggr_Collect_Props
  imports Aggr_Collect "HOL-Library.Multiset"
begin

text \<open>The properties of the controller of the aggregation service, over whole runs of received
  messages and collecting rounds.\<close>

section \<open>A run that the witnesses evaluate\<close>

definition demo_cfg :: "bool \<Rightarrow> int aggr_config" where
  "demo_cfg skip =
     \<lparr>SigPosMultiplier = 1, PeriodValue = 3000, PeriodDetachTime = 1800, TimeIterateInterval = 200,
      UpdateTradingSymbolInterval = 6, SkipEmptyQuote = skip, MonEnable = True, ThunderId = ''qas1'',
      SymbolBlackList = []\<rparr>"

definition demo_g :: aggr_globals where
  "demo_g = snd (normalize_config (demo_cfg True))"

definition demo_clocks :: "int \<Rightarrow> clocks" where
  "demo_clocks ms =
     (let t = ORIGIN_UTC_TIME * 1000 + ms
      in \<lparr>ck_now = t, ck_sec = t div 1000, ck_sec2 = t div 1000, ck_post = t\<rparr>)"

definition demo_names :: "string list" where
  "demo_names = [''BTCUSDT'', ''ETHUSDT'']"

definition demo_controller :: controller where
  "demo_controller = updateAggrSymbols (set demo_names) \<lparr>periodSymbols = Map.empty, last_period_ts = 0\<rparr>"

definition demo_quote :: "string \<Rightarrow> int \<Rightarrow> int \<Rightarrow> Message" where
  "demo_quote nm tid ms =
     quote_message_of QuoteDataType_Trade (Data_Trade
       \<lparr>qt_Event = ''trade'', qt_Time = ORIGIN_UTC_TIME * 1000 + ms, qt_Symbol = nm, qt_TradeID = tid,
        qt_Price = ''1.5'', qt_Quantity = ''2'', qt_BuyerOrderID = 0, qt_SellerOrderID = 0,
        qt_TradeTime = ORIGIN_UTC_TIME * 1000 + ms, qt_IsBuyerMaker = False, qt_Placeholder = False\<rparr>)"

definition demo_collect :: "int \<Rightarrow> Message ctl_event" where
  "demo_collect ms = Collect (demo_clocks ms) demo_names (rev demo_names)"

definition demo_ctl_run :: "bool \<Rightarrow> Message ctl_event list \<Rightarrow> (controller \<times> int PeriodMessage list) go" where
  "demo_ctl_run skip = ctl_run Some (\<lambda>s. if s = [] then None else Some 1) (demo_cfg skip) demo_g demo_controller"

lemma demo_g_ok: "globals_ok (PERIOD demo_g) (DETACH_TIME demo_g)" "PERIOD demo_g = 3000"
  by code_simp+

lemma windows_NewSymbolDef: "windows (NewSymbolDef name) = []"
  by (simp add: windows_def NewSymbolDef_def)

lemma updateAggrSymbols_inv: "ctl_inv g S [] k (updateAggrSymbols S c)"
  by (auto simp: ctl_inv_def updateAggrSymbols_def all_in_def windows_NewSymbolDef sd_wf_NewSymbolDef
      dom_def split: if_splits)

section \<open>Properties\<close>

text \<open>C12. The service never panics and keeps to the grid: from the fresh symbols of
  \<open>updateAggrSymbols\<close>, every run of received data and collecting rounds returns, and the start
  times of the published messages are strictly increasing multiples of the period counted
  from \<open>ORIGIN_UTC_TIME\<close>, whatever is received and in whatever order the maps are visited.\<close>

theorem controller_run_on_grid:
  assumes "globals_ok (PERIOD g) (DETACH_TIME g)" and "list_all (ctl_event_ok S) es"
  shows "\<exists>c' outs ks. ctl_run gob pf cfg g (updateAggrSymbols S c) es = Inr (c', outs) \<and>
           map pm_Ts outs = map (grid g) ks \<and> sorted_wrt (<) ks"
  using ctl_run_inv [OF assms updateAggrSymbols_inv [of g S 0 c] refl, of gob pf cfg]
  by (auto simp: on_grid_def)

theorem controller_run_on_grid_witness:
  "\<exists>c' outs ks. demo_ctl_run True
      [demo_collect 0, Recv (demo_quote ''BTCUSDT'' 7 100), demo_collect 200, demo_collect 4801] =
        Inr (c', outs) \<and>
     map pm_Ts outs = map (grid demo_g) ks \<and> sorted_wrt (<) ks"
proof -
  have "list_all (ctl_event_ok (set demo_names))
      [demo_collect 0, Recv (demo_quote ''BTCUSDT'' 7 100), demo_collect 200, demo_collect 4801]"
    by code_simp
  from controller_run_on_grid [OF demo_g_ok(1) this] show ?thesis
    unfolding demo_ctl_run_def demo_controller_def by blast
qed

text \<open>C13. No period is left out: when empty symbols are not skipped and there is at least one symbol,
  the \<open>i\<close>-th message after the first round at second \<open>ck_sec ck\<close> is the one of the \<open>i\<close>-th period
  from the period that contains that second.\<close>

theorem every_period_published:
  assumes "globals_ok (PERIOD g) (DETACH_TIME g)" and "\<not> SkipEmptyQuote cfg" and "S \<noteq> {}"
    and "list_all (ctl_event_ok S) (Collect ck friends names # es)"
    and "ctl_run gob pf cfg g (updateAggrSymbols S c) (Collect ck friends names # es) = Inr (c', outs)"
    and "i < length outs"
  shows "pm_Ts (outs ! i) = grid g (period_of g (ck_sec ck) + int i)"
proof -
  let ?c = "updateAggrSymbols S c" and ?born = "round_born g ck []"
  have inv: "all_in [] (periodSymbols ?c)" "dom (periodSymbols ?c) = S"
    using updateAggrSymbols_inv [of g S 0 c] by (simp_all add: ctl_inv_def)
  have P: "PERIOD g \<noteq> 0" and ck: "clocks_ok ck"
    and ords: "range_order friends (periodSymbols ?c)" "range_order names (periodSymbols ?c)"
    using assms(1,4) inv(2) by (auto simp: globals_ok_def range_order_def)
  note tick = tick_grid_empty [OF assms(1) ck, of "ck_now ck"]
  let ?w = "fst (tick_windows g (ck_now ck) ?born [])"
  have nil: "round_infos pf cfg g (ck_now ck) ?born (periodSymbols ?c) names = []"
    by (rule round_infos_Nil [OF inv(1)]) (simp add: tick)
  let ?c1 = "?c\<lparr>periodSymbols := \<lambda>n. map_option (ticked g (ck_now ck) ?born) (periodSymbols ?c n)\<rparr>"
  have step: "ctl_step gob pf cfg g ?c (Collect ck friends names) = Inr (?c1, None)"
    using collect_round_eq [where ck = ck and pf = pf and cfg = cfg, OF P inv(1) ords refl] nil
    by (simp add: Let_def)
  have inv1: "ctl_inv g S ?w (period_of g (ck_sec ck)) ?c1"
    using all_in_ticked [OF inv(1), of g "ck_now ck" ?born] inv(2) tick(2)
    by (auto simp: ctl_inv_def dom_def)
  have run: "ctl_run gob pf cfg g ?c1 es = Inr (c', outs)"
    using assms(5) step by (simp add: ctl_run_def split: sum.splits prod.splits)
  from assms(4) have "list_all (ctl_event_ok S) es" by simp
  from ctl_run_inv [where cfg = cfg and gob = gob and pf = pf, OF assms(1) this inv1 refl] obtain ks where
    "on_grid g True ?w (period_of g (ck_sec ck)) ks (map pm_Ts outs)"
    using run assms(2,3) by auto
  then have "map pm_Ts outs = map (grid g) ks" "\<forall>i<length ks. ks ! i = period_of g (ck_sec ck) + int i"
    using tick(2) by (auto simp: on_grid_def front_at_def)
  with assms(6) show ?thesis by (metis length_map nth_map)
qed

theorem every_period_published_witness:
  "\<exists>c' pm1 pm2. demo_ctl_run False [demo_collect 0, demo_collect 200, demo_collect 4801, demo_collect 7801] =
       Inr (c', [pm1, pm2]) \<and> pm_Ts pm2 = ORIGIN_UTC_TIME * 1000 + 3000"
proof -
  let ?es = "[demo_collect 200, demo_collect 4801, demo_collect 7801]"
  have "case demo_ctl_run False (demo_collect 0 # ?es) of Inr (c', [pm1, pm2]) \<Rightarrow> True | _ \<Rightarrow> False"
    by code_simp
  then obtain c' pm1 pm2 where r: "demo_ctl_run False (demo_collect 0 # ?es) = Inr (c', [pm1, pm2])"
    by (auto split: sum.splits prod.splits list.splits)
  have ok: "list_all (ctl_event_ok (set demo_names)) (demo_collect 0 # ?es)" "set demo_names \<noteq> {}"
    "\<not> SkipEmptyQuote (demo_cfg False)" by code_simp+
  have "period_of demo_g (ck_sec (demo_clocks 0)) = 0" by code_simp
  with every_period_published [OF demo_g_ok(1) ok(3,2) ok(1) [unfolded demo_collect_def]
      r [unfolded demo_ctl_run_def demo_controller_def demo_collect_def], of 1]
  show ?thesis using r by (auto simp: grid_def demo_g_ok(2))
qed

text \<open>C14. What a round publishes. With all symbols in lockstep, a published message has at least one
  entry and at most one per symbol; every entry is the marshalled node that this very round
  detached from its symbol, all with the start time the message carries; and when empty
  symbols are not skipped there is an entry for every symbol.\<close>

theorem published_round:
  assumes "PERIOD g \<noteq> 0" and "all_in w (periodSymbols c)"
    and "range_order friends (periodSymbols c)" and "range_order names (periodSymbols c)"
    and "collect_round pf cfg g ck friends names c = Inr (c', Publish pm)"
  shows "pm_SymbolInfos pm \<noteq> [] \<and> distinct (map sy_Symbol (pm_SymbolInfos pm)) \<and>
    (\<forall>si\<in>set (pm_SymbolInfos pm). \<exists>s n. periodSymbols c (sy_Symbol si) = Some s \<and>
       timeItr g s (ck_now ck) (round_born g ck w) = Inr (the (periodSymbols c' (sy_Symbol si)), Some n) \<and>
       pn_start n = pm_Ts pm \<and> si = MarshallPb pf n (NewSymbolInfo\<lparr>sy_Symbol := sy_Symbol si\<rparr>)) \<and>
    (\<not> SkipEmptyQuote cfg \<longrightarrow> set (map sy_Symbol (pm_SymbolInfos pm)) = dom (periodSymbols c))"
proof -
  let ?m = "periodSymbols c" and ?born = "round_born g ck w" and ?now = "ck_now ck"
  let ?infos = "round_infos pf cfg g ?now ?born ?m names"
  have r: "?infos \<noteq> []" "periodSymbols c' = (\<lambda>n. map_option (ticked g ?now ?born) (?m n))"
    "pm_SymbolInfos pm = ?infos"
    "pm_Ts pm = (case snd (tick_windows g ?now ?born w) of None \<Rightarrow> 0 | Some (a, _) \<Rightarrow> a)"
    using assms(5) unfolding collect_round_eq [OF assms(1-4) refl]
    by (auto simp: Let_def split: if_splits)
  have ord: "distinct names" "set names = dom ?m" using assms(4) by (simp_all add: range_order_def)
  have tw: "snd (tick_windows g ?now ?born w) \<noteq> None"
    using r(1) round_infos_Nil [OF assms(2), of g ?now ?born pf cfg names] by blast
  have one: "\<exists>s n. ?m (sy_Symbol si) = Some s \<and>
      timeItr g s ?now ?born = Inr (the (periodSymbols c' (sy_Symbol si)), Some n) \<and>
      pn_start n = pm_Ts pm \<and> si = MarshallPb pf n (NewSymbolInfo\<lparr>sy_Symbol := sy_Symbol si\<rparr>)"
    if si: "si \<in> set ?infos" for si
  proof -
    from si obtain name where "si \<in> set (symbol_infos pf (SkipEmptyQuote cfg) g ?now ?born ?m name)"
      by (auto simp: round_infos_def)
    then obtain s n where s: "?m name = Some s" "detached g ?now ?born s = Some n"
      "si = MarshallPb pf n (NewSymbolInfo\<lparr>sy_Symbol := name\<rparr>)"
      by (cases "?m name"; cases "detached g ?now ?born (the (?m name))")
        (auto simp: symbol_infos_def split: if_splits)
    then have name: "sy_Symbol si = name" by (simp add: NewSymbolInfo_def)
    from s(1) assms(2) have wf: "sd_wf s" by (auto simp: all_in_def)
    have "pn_start n = pm_Ts pm"
      using all_in_detached [OF assms(2) s(1), of g ?now ?born, symmetric] s(2) r(4)
      by (auto simp: window_of_def)
    with s name ticked_eq(1) [OF wf, of g ?now ?born] r(2) show ?thesis by simp
  qed
  show ?thesis
    using r one round_infos_distinct [OF ord(1), of pf cfg g ?now ?born ?m]
      infos_all [OF assms(2) ord(2,1) _ tw, of cfg pf] ord(2) by (auto simp del: set_map)
qed

text \<open>C15. The order in which Go visits the map of symbols does not matter: two rounds that differ only
  in the orders of their loops leave the same controller, and publish the same message up to
  the order of its entries, or both publish nothing.\<close>

theorem round_order_irrelevant:
  assumes "PERIOD g \<noteq> 0" and "all_in w (periodSymbols c)"
    and "range_order friends (periodSymbols c)" and "range_order names (periodSymbols c)"
    and "range_order friends' (periodSymbols c)" and "range_order names' (periodSymbols c)"
    and "collect_round pf cfg g ck friends names c = Inr (c1, out1)"
    and "collect_round pf cfg g ck friends' names' c = Inr (c2, out2)"
  shows "c1 = c2 \<and>
    (case (out1, out2) of
       (Publish p, Publish q) \<Rightarrow> p\<lparr>pm_SymbolInfos := []\<rparr> = q\<lparr>pm_SymbolInfos := []\<rparr> \<and>
                                mset (pm_SymbolInfos p) = mset (pm_SymbolInfos q)
     | _ \<Rightarrow> out1 = out2)"
proof -
  let ?i = "round_infos pf cfg g (ck_now ck) (round_born g ck w) (periodSymbols c)"
  have "mset names = mset names'"
    using assms(4,6) by (metis range_order_def set_eq_iff_mset_eq_distinct)
  then have "mset (map f names) = mset (map f names')" for f :: "string \<Rightarrow> 'f SymbolInfo multiset"
    by (simp only: mset_map)
  then have "mset (?i names) = mset (?i names')"
    unfolding round_infos_def mset_concat map_map sum_mset_sum_list [symmetric] by metis
  moreover from this have "?i names = [] \<longleftrightarrow> ?i names' = []" by auto
  ultimately show ?thesis
    using assms(7,8) unfolding collect_round_eq [OF assms(1-4) refl]
      collect_round_eq [OF assms(1,2,5,6) refl]
    by (auto simp: Let_def split: if_splits)
qed

text \<open>The round both witnesses look at: two symbols, one trade, and a tick that detaches.\<close>

definition demo_state :: "(int \<times> int) list \<Rightarrow> controller \<Rightarrow> bool" where
  "demo_state w c \<longleftrightarrow>
     demo_ctl_run True [demo_collect 0, Recv (demo_quote ''BTCUSDT'' 7 100), demo_collect 200] = Inr (c, []) \<and>
     all_in w (periodSymbols c) \<and> dom (periodSymbols c) = set demo_names \<and> front_at demo_g 0 w"

abbreviation demo_round :: "int \<Rightarrow> string list \<Rightarrow> string list \<Rightarrow> controller \<Rightarrow> (controller \<times> int collect_out) go" where
  "demo_round ms \<equiv> collect_round (\<lambda>s. if s = [] then None else Some 1) (demo_cfg True) demo_g (demo_clocks ms)"

lemma demo_state_ex:
  "\<exists>w c c1 c2 p q. demo_state w c \<and>
     demo_round 4801 demo_names demo_names c = Inr (c1, Publish p) \<and>
     demo_round 4801 (rev demo_names) (rev demo_names) c = Inr (c2, Publish q) \<and> length (pm_SymbolInfos p) = 1"
proof -
  let ?es = "[demo_collect 0, Recv (demo_quote ''BTCUSDT'' 7 100), demo_collect 200]"
  have "case demo_ctl_run True ?es of
      Inr (c, []) \<Rightarrow> map_option windows (periodSymbols c ''BTCUSDT'') = Some
          [(grid demo_g 0, grid demo_g 1), (grid demo_g 1, grid demo_g 2)] \<and>
        (case demo_round 4801 demo_names demo_names c of
           Inr (c1, Publish p) \<Rightarrow> length (pm_SymbolInfos p) = 1 | _ \<Rightarrow> False) \<and>
        (case demo_round 4801 (rev demo_names) (rev demo_names) c of
           Inr (c2, Publish q) \<Rightarrow> True | _ \<Rightarrow> False)
    | _ \<Rightarrow> False" by code_simp
  then obtain c s c1 p c2 q where
    r: "demo_ctl_run True ?es = Inr (c, [])" "periodSymbols c ''BTCUSDT'' = Some s"
      "windows s = [(grid demo_g 0, grid demo_g 1), (grid demo_g 1, grid demo_g 2)]"
      "demo_round 4801 demo_names demo_names c = Inr (c1, Publish p)" "length (pm_SymbolInfos p) = 1"
      "demo_round 4801 (rev demo_names) (rev demo_names) c = Inr (c2, Publish q)"
    by (auto split: sum.splits prod.splits list.splits collect_out.splits)
  have "list_all (ctl_event_ok (set demo_names)) ?es" by code_simp
  from ctl_run_inv [OF demo_g_ok(1) this updateAggrSymbols_inv [of _ _ 0] refl] obtain w k c' outs where
    "demo_ctl_run True ?es = Inr (c', outs)" "ctl_inv demo_g (set demo_names) w k c'"
    unfolding demo_ctl_run_def demo_controller_def by blast
  with r(1) have inv: "ctl_inv demo_g (set demo_names) w k c" by simp
  then have "windows s = w" using r(2) by (auto simp: ctl_inv_def all_in_def)
  with r(3) have w: "w = [(grid demo_g 0, grid demo_g 1), (grid demo_g 1, grid demo_g 2)]" by simp
  have "grid demo_g 0 \<le> 2 ^ 60" by code_simp
  with w have "front_at demo_g 0 w" by (simp add: front_at_def)
  with inv r show ?thesis by (auto simp: ctl_inv_def demo_state_def)
qed

lemma demo_orders:
  "demo_state w c \<Longrightarrow> range_order demo_names (periodSymbols c)"
  "demo_state w c \<Longrightarrow> range_order (rev demo_names) (periodSymbols c)"
  by (simp_all add: demo_state_def range_order_def) (simp_all add: demo_names_def)

lemma demo_state_facts: "demo_state w c \<Longrightarrow> all_in w (periodSymbols c)" "demo_state w c \<Longrightarrow> front_at demo_g 0 w"
  "PERIOD demo_g \<noteq> 0" "clocks_ok (demo_clocks 4801)"
  by (simp_all add: demo_state_def demo_g_ok) code_simp

theorem published_round_witness:
  "\<exists>w c c1 p. demo_state w c \<and> demo_round 4801 demo_names demo_names c = Inr (c1, Publish p) \<and>
     length (pm_SymbolInfos p) = 1 \<and> distinct (map sy_Symbol (pm_SymbolInfos p))"
proof -
  from demo_state_ex obtain w c c1 p where
    r: "demo_state w c" "demo_round 4801 demo_names demo_names c = Inr (c1, Publish p)"
      "length (pm_SymbolInfos p) = 1" by blast
  from published_round [OF demo_state_facts(3) demo_state_facts(1) [OF r(1)] demo_orders(1) [OF r(1)]
      demo_orders(1) [OF r(1)] r(2)] r show ?thesis by blast
qed

theorem round_order_irrelevant_witness:
  "\<exists>w c c1 p q. demo_state w c \<and> demo_round 4801 demo_names demo_names c = Inr (c1, Publish p) \<and>
     demo_round 4801 (rev demo_names) (rev demo_names) c = Inr (c1, Publish q) \<and>
     mset (pm_SymbolInfos p) = mset (pm_SymbolInfos q)"
proof -
  from demo_state_ex obtain w c c1 p c2 q where
    r: "demo_state w c" "demo_round 4801 demo_names demo_names c = Inr (c1, Publish p)"
      "demo_round 4801 (rev demo_names) (rev demo_names) c = Inr (c2, Publish q)" by blast
  from round_order_irrelevant [OF demo_state_facts(3) demo_state_facts(1) [OF r(1)] demo_orders(1) [OF r(1)]
      demo_orders(1) [OF r(1)] demo_orders(2) [OF r(1)] demo_orders(2) [OF r(1)] r(2,3)]
  have "c1 = c2" "mset (pm_SymbolInfos p) = mset (pm_SymbolInfos q)" by simp_all
  with r show ?thesis by blast
qed

lemma div_eq_iff_int:
  fixes d p q :: int
  assumes "0 < p"
  shows "d div p = q \<longleftrightarrow> q * p \<le> d \<and> d < (q + 1) * p"
proof
  assume "d div p = q"
  then show "q * p \<le> d \<and> d < (q + 1) * p"
    using div_mult_le [OF assms, of d] pos_mod_bound [OF assms, of d] div_mult_mod_eq [of d p]
    by (auto simp: algebra_simps)
next
  assume "q * p \<le> d \<and> d < (q + 1) * p"
  then have "0 \<le> d - q * p" "d - q * p < p" by (auto simp: algebra_simps)
  moreover have "d div p = (q * p + (d - q * p)) div p" by simp
  ultimately show "d div p = q" using assms by (simp only: div_mult_self3) simp
qed

text \<open>The number a message carries. The published period starts at the \<open>k\<close>-th point of the grid;
  \<open>pm.Period\<close> is \<open>k\<close> exactly when the second at which the round computed it lies in the period
  that follows the published one. A later round labels the message with a later number.\<close>

theorem period_label:
  assumes "globals_ok (PERIOD g) (DETACH_TIME g)" and "clocks_ok ck" and "front_at g k w"
    and "all_in w (periodSymbols c)"
    and "range_order friends (periodSymbols c)" and "range_order names (periodSymbols c)"
    and "collect_round pf cfg g ck friends names c = Inr (c', Publish pm)"
  shows "pm_Ts pm = grid g k \<and>
         (pm_Period pm = k \<longleftrightarrow> grid g (k + 1) \<le> ck_sec ck * 1000 \<and> ck_sec ck * 1000 < grid g (k + 2))"
proof -
  let ?tw = "tick_windows g (ck_now ck) (round_born g ck w) w"
  have P: "0 < PERIOD g" "PERIOD g \<noteq> 0" using assms(1) by (simp_all add: globals_ok_def)
  have sec: "ORIGIN_UTC_TIME \<le> ck_sec ck" "ck_sec ck \<le> 2 ^ 40" using assms(2) by (simp_all add: clocks_ok_def)
  let ?infos = "round_infos pf cfg g (ck_now ck) (round_born g ck w) (periodSymbols c) names"
  have r: "?infos \<noteq> []" "pm_Period pm = i64 (period_of g (ck_sec ck) - 1)"
    "pm_Ts pm = (case snd ?tw of None \<Rightarrow> 0 | Some (a, _) \<Rightarrow> a)"
    using assms(7) unfolding collect_round_eq [OF P(2) assms(4-6) refl]
    by (auto simp: Let_def split: if_splits)
  have "snd ?tw \<noteq> None"
    using r(1) round_infos_Nil [OF assms(4), of g "ck_now ck" "round_born g ck w" pf cfg names] by blast
  with tick_grid [OF assms(1-3)] r(3) have ts: "pm_Ts pm = grid g k" by auto
  have p0: "0 \<le> period_of g (ck_sec ck)" by (rule born_of_eq(2) [OF P(1) sec])
  have "period_of g (ck_sec ck) * 1 \<le> period_of g (ck_sec ck) * PERIOD g"
    by (rule mult_left_mono) (use P p0 in auto)
  then have p1: "period_of g (ck_sec ck) \<le> 2 ^ 60"
    using born_of_eq(3) [OF P(1) sec] by (simp add: grid_def ORIGIN_UTC_TIME_def)
  have "i64 (period_of g (ck_sec ck) - 1) = period_of g (ck_sec ck) - 1"
    by (rule i64_small) (use p0 p1 in auto)
  then have "pm_Period pm = k \<longleftrightarrow> (ck_sec ck - ORIGIN_UTC_TIME) * 1000 div PERIOD g = k + 1"
    unfolding r(2) using period_of_eq [OF P(1) sec] by auto
  also have "\<dots> \<longleftrightarrow> grid g (k + 1) \<le> ck_sec ck * 1000 \<and> ck_sec ck * 1000 < grid g (k + 2)"
    unfolding div_eq_iff_int [OF P(1)] by (auto simp: grid_def algebra_simps)
  finally show ?thesis using ts by simp
qed

theorem period_label_witness:
  "\<exists>w c c1 p. demo_state w c \<and> demo_round 4801 demo_names demo_names c = Inr (c1, Publish p) \<and>
     pm_Ts p = ORIGIN_UTC_TIME * 1000 \<and> pm_Period p = 0"
proof -
  from demo_state_ex obtain w c c1 p where
    r: "demo_state w c" "demo_round 4801 demo_names demo_names c = Inr (c1, Publish p)" by blast
  have "grid demo_g (0 + 1) \<le> ck_sec (demo_clocks 4801) * 1000 \<and>
      ck_sec (demo_clocks 4801) * 1000 < grid demo_g (0 + 2)" by code_simp
  with period_label [OF demo_g_ok(1) demo_state_facts(4) demo_state_facts(2) [OF r(1)]
      demo_state_facts(1) [OF r(1)] demo_orders(1) [OF r(1)] demo_orders(1) [OF r(1)] r(2)] r
  show ?thesis by (auto simp: grid_def)
qed

text \<open>A collector that falls behind publishes different periods under the same number: the rounds
  at 7.9 and 8.1 seconds put out the first and the second period, both with \<open>Period\<close> 1.\<close>

theorem late_rounds_share_number:
  "map_sum (\<lambda>p. p) (\<lambda>(c, outs). map (\<lambda>pm. (pm_Ts pm - ORIGIN_UTC_TIME * 1000, pm_Period pm)) outs)
     (demo_ctl_run False [demo_collect 0, demo_collect 200, demo_collect 7900, demo_collect 8100])
   = Inr [(0, 1), (3000, 1)]"
  by code_simp

end
