(* ===== verification/Go_Generic.thy ===== *)
theory Go_Generic
  imports Go_Prelude
begin

text \<open>
  The generic helpers (\<open>cmd/QuoteAggrService/generic.go\<close> and its copies in \<open>utils/generic.go\<close> and
  in the receiving service). \<open>splitArrayBySliceSize\<close> decides how the trading symbols are spread
  over connections; its loop is a \<open>partial_function\<close>, so that not returning is the value
  \<open>None\<close>.
\<close>

section \<open>Definitions\<close>

definition Map :: "'a list \<Rightarrow> ('a \<Rightarrow> 'b) \<Rightarrow> 'b list" where
  "Map s fn = map fn s"

fun Filter :: "'a list \<Rightarrow> ('a \<Rightarrow> bool) \<Rightarrow> 'a list" where
  "Filter [] fn = []"
| "Filter (v # s) fn = (if fn v then v # Filter s fn else Filter s fn)"

text \<open>\<open>fn\<close> may change the element it is given a pointer to.\<close>

definition ForEach :: "'a list \<Rightarrow> ('a \<Rightarrow> 'a) \<Rightarrow> 'a list" where
  "ForEach s fn = map fn s"

fun Reduce :: "'a list \<Rightarrow> 'b \<Rightarrow> ('a \<Rightarrow> 'b \<Rightarrow> 'b) \<Rightarrow> 'b" where
  "Reduce [] acc fn = acc"
| "Reduce (v # s) acc fn = Reduce s (fn v acc) fn"

definition If_go :: "bool \<Rightarrow> 'a \<Rightarrow> 'a \<Rightarrow> 'a" where
  "If_go yes a b = (if yes then a else b)"

definition IfNew :: "bool \<Rightarrow> (unit \<Rightarrow> 'a) \<Rightarrow> (unit \<Rightarrow> 'a) \<Rightarrow> 'a" where
  "IfNew yes a b = (if yes then a () else b ())"

text \<open>\<open>order\<close> is the order in which the loop visits the map.\<close>

definition Keys :: "'k list \<Rightarrow> ('k \<rightharpoonup> 'v) \<Rightarrow> 'k list" where
  "Keys order m = filter (\<lambda>k. m k \<noteq> None) order"

definition Values :: "'k list \<Rightarrow> ('k \<rightharpoonup> 'v) \<Rightarrow> 'v list" where
  "Values order m = List.map_filter m order"

fun Zip :: "'a list \<Rightarrow> 'b list \<Rightarrow> ('a \<times> 'b) list go" where
  "Zip [] b = Inr []"
| "Zip (v # a) [] = Inl IndexOutOfRange"
| "Zip (v # a) (w # b) = (case Zip a b of Inl p \<Rightarrow> Inl p | Inr r \<Rightarrow> Inr ((v, w) # r))"

fun Dict_from :: "('k \<rightharpoonup> 'v) \<Rightarrow> 'k list \<Rightarrow> 'v list \<Rightarrow> ('k \<rightharpoonup> 'v) go" where
  "Dict_from kvs [] b = Inr kvs"
| "Dict_from kvs (k # a) [] = Inl IndexOutOfRange"
| "Dict_from kvs (k # a) (v # b) = Dict_from (kvs(k \<mapsto> v)) a b"

definition Dict :: "'k list \<Rightarrow> 'v list \<Rightarrow> ('k \<rightharpoonup> 'v) go" where
  "Dict a b = Dict_from Map.empty a b"

text \<open>\<open>'f\<close> is \<open>float64\<close> with its own addition and division; \<open>conv\<close> is the conversion to it.\<close>

definition Sum :: "('a \<Rightarrow> 'f) \<Rightarrow> 'a list \<Rightarrow> 'f::{zero,plus}" where
  "Sum conv data = foldl (\<lambda>sum d. sum + conv d) 0 data"

definition Mean :: "('a \<Rightarrow> 'f) \<Rightarrow> (nat \<Rightarrow> 'f) \<Rightarrow> 'a list \<Rightarrow> 'f::{zero,plus,divide}" where
  "Mean conv of_len data = (if data = [] then 0 else Sum conv data div of_len (length data))"

text \<open>\<open>arr[i:e]\<close>, which panics unless \<open>0 \<le> i \<le> e \<le> len\<close>.\<close>

definition go_slice :: "'a list \<Rightarrow> int \<Rightarrow> int \<Rightarrow> 'a list go" where
  "go_slice arr i e =
     (if 0 \<le> i \<and> i \<le> e \<and> e \<le> int (length arr) then Inr (take (nat (e - i)) (drop (nat i) arr))
      else Inl SliceBounds)"

text \<open>The loop of both functions, from index \<open>i\<close> on.\<close>

partial_function (option) split_from ::
  "'a list \<Rightarrow> int \<Rightarrow> int \<Rightarrow> 'a list list \<Rightarrow> 'a list list go option" where
  "split_from arr sliceSize i result =
     (if i < int (length arr) then
        (let e = (if int (length arr) < i64 (i + sliceSize) then int (length arr) else i64 (i + sliceSize))
         in case go_slice arr i e of
              Inl p \<Rightarrow> Some (Inl p)
            | Inr part \<Rightarrow> split_from arr sliceSize (i64 (i + sliceSize)) (result @ [part]))
      else Some (Inr result))"

declare split_from.simps [code]

definition splitArrayBySliceSize :: "'a list \<Rightarrow> int \<Rightarrow> 'a list list go option" where
  "splitArrayBySliceSize arr sliceSize = split_from arr sliceSize 0 []"

text \<open>\<open>make([][]T1, 0, n)\<close> panics for a negative capacity.\<close>

definition splitArray :: "'a list \<Rightarrow> int \<Rightarrow> 'a list list go option" where
  "splitArray arr n =
     (if n = 0 then Some (Inl DivideByZero)
      else let sliceSize = go_div (i64 (i64 (int (length arr) + n) - 1)) n
           in if n < 0 then Some (Inl (Panicked ''makeslice: cap out of range''))
              else split_from arr sliceSize 0 [])"

section \<open>Lemmas\<close>

lemma Filter_eq [simp]: "Filter s fn = filter fn s"
  by (induction s) auto

lemma Reduce_fold: "Reduce s acc fn = fold fn s acc"
  by (induction s arbitrary: acc) auto

lemma Zip_eq: "length a \<le> length b \<Longrightarrow> Zip a b = Inr (zip a b)"
  by (induction a b rule: Zip.induct) auto

lemma Zip_panics: "length b < length a \<Longrightarrow> Zip a b = Inl IndexOutOfRange"
  by (induction a b rule: Zip.induct) auto

lemma Dict_eq: "length a = length b \<Longrightarrow> Dict a b = Inr (map_of (rev (zip a b)))"
proof -
  have "length a = length b \<Longrightarrow> Dict_from m a b = Inr (m ++ map_of (rev (zip a b)))" for m
    by (induction m a b rule: Dict_from.induct) auto
  then show "length a = length b \<Longrightarrow> ?thesis" by (simp add: Dict_def)
qed

text \<open>The loop takes chunks off the front; \<open>chunks\<close> is what it builds.\<close>

function chunks :: "nat \<Rightarrow> 'a list \<Rightarrow> 'a list list" where
  "chunks k xs = (if xs = [] \<or> k = 0 then [] else take k xs # chunks k (drop k xs))"
  by auto
termination by (relation "measure (\<lambda>(k, xs). length xs)") auto

declare chunks.simps [simp del]

lemma concat_chunks: "0 < k \<Longrightarrow> concat (chunks k xs) = xs"
  by (induction k xs rule: chunks.induct) (subst chunks.simps, simp)

lemma chunks_length: "p \<in> set (chunks k xs) \<Longrightarrow> 0 < length p \<and> length p \<le> k"
proof (induction k xs rule: chunks.induct)
  case (1 k xs)
  then show ?case by (subst (asm) (2) chunks.simps) (auto split: if_splits)
qed

lemma chunks_full: "i + 1 < length (chunks k xs) \<Longrightarrow> length (chunks k xs ! i) = k"
proof (induction k xs arbitrary: i rule: chunks.induct)
  case (1 k xs)
  show ?case
  proof (cases "xs = [] \<or> k = 0")
    case True
    then have "chunks k xs = []" by (subst chunks.simps) simp
    with 1(2) show ?thesis by simp
  next
    case False
    then have c: "chunks k xs = take k xs # chunks k (drop k xs)" by (subst chunks.simps) simp
    have "k \<le> length xs" if "chunks k (drop k xs) \<noteq> []"
      using that by (subst (asm) chunks.simps) (auto split: if_splits)
    with 1 False c show ?thesis by (cases i) auto
  qed
qed

lemma split_from_chunks:
  assumes "0 < sz" and "int (length arr) + sz < 2 ^ 63" and "0 \<le> i" and "i < int (length arr) + sz"
  shows "split_from arr sz i result = Some (Inr (result @ chunks (nat sz) (drop (nat i) arr)))"
  using assms(3,4)
proof (induction "nat (int (length arr) - i)" arbitrary: i result rule: less_induct)
  case less
  show ?case
  proof (cases "i < int (length arr)")
    case False
    then have "drop (nat i) arr = []" by simp
    with False show ?thesis by (subst split_from.simps) (simp add: chunks.simps)
  next
    case True
    have next_i: "i64 (i + sz) = i + sz"
      by (rule i64_id) (use assms less.prems True in \<open>auto simp: in_i64_def\<close>)
    let ?e = "if int (length arr) < i + sz then int (length arr) else i + sz"
    have slice: "go_slice arr i ?e = Inr (take (nat sz) (drop (nat i) arr))"
      using True assms(1) less.prems by (auto simp: go_slice_def min_def)
    have IH: "split_from arr sz (i + sz) r =
        Some (Inr (r @ chunks (nat sz) (drop (nat (i + sz)) arr)))" for r
      by (rule less.hyps) (use True assms(1) less.prems in auto)
    have "drop (nat (i + sz)) arr = drop (nat sz) (drop (nat i) arr)"
      using assms(1) less.prems by (simp add: nat_add_distrib add.commute)
    moreover have "drop (nat i) arr \<noteq> []" using True less.prems by simp
    ultimately have "chunks (nat sz) (drop (nat i) arr) =
        take (nat sz) (drop (nat i) arr) # chunks (nat sz) (drop (nat (i + sz)) arr)"
      using assms(1) by (subst chunks.simps) simp
    moreover have "split_from arr sz i result =
        split_from arr sz (i + sz) (result @ [take (nat sz) (drop (nat i) arr)])"
      by (subst split_from.simps) (use True in \<open>simp only: if_True next_i Let_def slice sum.case\<close>)
    ultimately show ?thesis by (simp only: IH append.assoc append_Cons append_Nil)
  qed
qed

text \<open>With a zero slice size the index never moves.\<close>

lemma split_from_zero:
  assumes "split_from arr sz i result = Some y"
  shows "\<not> (sz = 0 \<and> 0 \<le> i \<and> i < int (length arr) \<and> in_i64 (int (length arr)))"
proof (rule split_from.raw_induct [where P = "\<lambda>arr sz i result y.
    \<not> (sz = 0 \<and> 0 \<le> i \<and> i < int (length arr) \<and> in_i64 (int (length arr)))", OF _ assms], rule notI)
  fix loop :: "'a list \<Rightarrow> int \<Rightarrow> int \<Rightarrow> 'a list list \<Rightarrow> 'a list list go option"
    and arr :: "'a list" and sz i result y
  assume IH: "\<And>arr sz i result y. loop arr sz i result = Some y \<Longrightarrow>
      \<not> (sz = 0 \<and> 0 \<le> i \<and> i < int (length arr) \<and> in_i64 (int (length arr)))"
    and body: "(if i < int (length arr)
      then let e = if int (length arr) < i64 (i + sz) then int (length arr) else i64 (i + sz)
           in case go_slice arr i e of Inl p \<Rightarrow> Some (Inl p)
              | Inr part \<Rightarrow> loop arr sz (i64 (i + sz)) (result @ [part])
      else Some (Inr result)) = Some y"
    and z: "sz = 0 \<and> 0 \<le> i \<and> i < int (length arr) \<and> in_i64 (int (length arr))"
  then have "i64 i = i" by (intro i64_id) (auto simp: in_i64_def)
  with body z have "loop arr 0 i (result @ [[]]) = Some y" by (simp add: go_slice_def Let_def)
  from IH [OF this] z show False by simp
qed

section \<open>Properties\<close>

text \<open>C36. \<open>splitArrayBySliceSize\<close> with a positive slice size returns: the parts put together are the
  list, every part has at least one and at most \<open>sliceSize\<close> elements, and only the last
  part may be short.\<close>

theorem split_by_size_partition:
  assumes "0 < sliceSize" and "int (length arr) + sliceSize < 2 ^ 63"
  shows "\<exists>parts. splitArrayBySliceSize arr sliceSize = Some (Inr parts) \<and> concat parts = arr \<and>
    (\<forall>p\<in>set parts. 0 < length p \<and> int (length p) \<le> sliceSize) \<and>
    (\<forall>i. i + 1 < length parts \<longrightarrow> int (length (parts ! i)) = sliceSize)"
proof -
  have "splitArrayBySliceSize arr sliceSize = Some (Inr (chunks (nat sliceSize) arr))"
    unfolding splitArrayBySliceSize_def using split_from_chunks [OF assms, of 0 "[]"] assms(1) by simp
  then show ?thesis
    using assms(1) chunks_length [of _ "nat sliceSize" arr] chunks_full [of _ "nat sliceSize" arr]
    by (fastforce simp: concat_chunks)
qed

theorem split_by_size_partition_witness:
  "\<exists>parts. splitArrayBySliceSize [1, 2, 3, 4, 5 :: int] 2 = Some (Inr parts) \<and> concat parts = [1, 2, 3, 4, 5]"
  using split_by_size_partition [of 2 "[1, 2, 3, 4, 5 :: int]"] by auto

text \<open>With a slice size of zero (the value of a setting that is missing from the configuration)
  \<open>splitArrayBySliceSize\<close> never returns on a list that is not empty, and a negative slice size
  panics.\<close>

theorem split_by_size_bad_size:
  assumes "arr \<noteq> []" and "int (length arr) < 2 ^ 63"
  shows "splitArrayBySliceSize arr 0 = None \<and>
    (- (2 ^ 63) \<le> k \<and> k < 0 \<longrightarrow> splitArrayBySliceSize arr k = Some (Inl SliceBounds))"
proof
  show "splitArrayBySliceSize arr 0 = None"
    using split_from_zero [of arr 0 0 "[]"] assms
    by (cases "split_from arr 0 0 []") (auto simp: splitArrayBySliceSize_def in_i64_def)
  show "- (2 ^ 63) \<le> k \<and> k < 0 \<longrightarrow> splitArrayBySliceSize arr k = Some (Inl SliceBounds)"
    using assms by (auto simp: splitArrayBySliceSize_def split_from.simps [of arr k] go_slice_def
        i64_id in_i64_def)
qed

theorem split_by_size_bad_size_witness:
  "splitArrayBySliceSize [''BTCUSDT''] 0 = None \<and> splitArrayBySliceSize [''BTCUSDT''] (- 1) = Some (Inl SliceBounds)"
  using split_by_size_bad_size [of "[''BTCUSDT'']" "- 1"] by simp

end
