(* ===== verification/Ws_Server.thy ===== *)
theory Ws_Server
  imports Go_List Go_Generic Pb_Messages
begin

text \<open>
  The WebSocket server of the aggregation service (\<open>cmd/QuoteAggrService/wsserver.go\<close>): the cache of
  the last periods, the registry of clients, the access check, and the frame that is sent.
  \<open>marshal\<close> (\<open>proto.Marshal\<close>) and \<open>zlib\<close> (\<open>Write\<close> and \<open>Close\<close> of a \<open>zlib.Writer\<close>) are arguments
  that give \<open>None\<close> where the call fails. How one client catches up with the cache is modelled in
  \<open>Ws_Sync\<close>.
\<close>

section \<open>State\<close>

record WsUserAccount =
  ua_User :: string
  ua_Passwd :: string
  ua_Enable :: bool
  ua_Ips :: "string list"

record WsServerConfigVars =
  ws_Enable :: bool
  PassUsers :: string
  UpdateUserTime :: int
  ListenAddr :: string
  MaxConns :: int
  IpLimited :: bool
  AuthTimeWait :: int
  DataCacheTime :: int
  CompressData :: bool
  SendMsgHdr :: bool
  Users :: "WsUserAccount list"

record WsSendData =
  wd_Period :: int
  wd_Ts :: int
  wd_Size :: int
  wd_PostTs :: int
  wd_Data :: bytes

text \<open>A write that zlib refuses leaves the data as it is.\<close>

definition NewWsSendData ::
  "('f PeriodMessage \<Rightarrow> bytes option) \<Rightarrow> (bytes \<Rightarrow> bytes option) \<Rightarrow> bool \<Rightarrow> 'f PeriodMessage \<Rightarrow> WsSendData option" where
  "NewWsSendData marshal zlib compress pm =
     (case marshal pm of
        None \<Rightarrow> None
      | Some bs \<Rightarrow>
          Some \<lparr>wd_Period = pm_Period pm, wd_Ts = pm_Ts pm, wd_Size = int (length bs), wd_PostTs = 0,
                wd_Data = (if compress then (case zlib bs of Some z \<Rightarrow> z | None \<Rightarrow> bs) else bs)\<rparr>)"

text \<open>The part of a client the server touches. The capacities of its channels are
  \<open>DataCacheTime * 60 / 3\<close> and 1024; \<open>wc_open\<close> is whether the connection is open.\<close>

record WsClient =
  wc_user :: WsUserAccount
  wc_start :: int
  wc_cap :: int
  wc_live :: "WsSendData list"
  wc_open :: bool

definition cache_size :: "WsServerConfigVars \<Rightarrow> int" where
  "cache_size cfg = go_div (i64 (DataCacheTime cfg * 60)) 3"

definition live_cap :: nat where
  "live_cap = 1024"

text \<open>\<open>make(chan, n)\<close> panics for a negative size.\<close>

definition NewWsClient :: "WsServerConfigVars \<Rightarrow> int \<Rightarrow> WsUserAccount \<Rightarrow> WsClient go" where
  "NewWsClient cfg start user =
     (if cache_size cfg < 0 then Inl (Panicked ''makechan: size out of range'')
      else Inr \<lparr>wc_user = user, wc_start = start, wc_cap = cache_size cfg, wc_live = [], wc_open = True\<rparr>)"

text \<open>The map of clients holds pointers; \<open>heap\<close> holds the clients they point to.\<close>

record WsServer =
  dataQueue :: "WsSendData glist"
  ws_config :: WsServerConfigVars
  clients :: "string \<rightharpoonup> nat"
  heap :: "nat \<rightharpoonup> WsClient"

definition NewWsServer :: "WsServerConfigVars \<Rightarrow> WsServer" where
  "NewWsServer cfg = \<lparr>dataQueue = list_Init, ws_config = cfg, clients = Map.empty, heap = Map.empty\<rparr>"

section \<open>Enqueueing\<close>

text \<open>\<open>c.msgLiveCh <- pm\<close> blocks when the channel is full.\<close>

definition delivery :: "WsClient \<Rightarrow> WsSendData \<Rightarrow> WsClient option" where
  "delivery c d = (if length (wc_live c) < live_cap then Some (c\<lparr>wc_live := wc_live c @ [d]\<rparr>) else None)"

fun deliver_all :: "string list \<Rightarrow> WsSendData \<Rightarrow> WsServer \<Rightarrow> WsServer option" where
  "deliver_all [] d s = Some s"
| "deliver_all (name # names) d s =
     (case clients s name of
        None \<Rightarrow> deliver_all names d s
      | Some p \<Rightarrow>
          (case heap s p of
             None \<Rightarrow> deliver_all names d s
           | Some c \<Rightarrow>
               (case delivery c d of
                  None \<Rightarrow> None
                | Some c' \<Rightarrow> deliver_all names d (s\<lparr>heap := (heap s)(p \<mapsto> c')\<rparr>))))"

definition cache_push :: "WsSendData \<Rightarrow> WsServer \<Rightarrow> WsServer" where
  "cache_push d s =
     (let q = PushBack d (dataQueue s)
      in s\<lparr>dataQueue :=
             (if cache_size (ws_config s) < int (Len q)
              then (case Front q of None \<Rightarrow> q | Some e \<Rightarrow> Remove e q) else q)\<rparr>)"

text \<open>\<open>None\<close>: the method blocks on a full channel and keeps the server's mutex.\<close>

definition enqueue ::
  "('f PeriodMessage \<Rightarrow> bytes option) \<Rightarrow> (bytes \<Rightarrow> bytes option) \<Rightarrow> string list \<Rightarrow> 'f PeriodMessage \<Rightarrow>
     WsServer \<Rightarrow> WsServer option" where
  "enqueue marshal zlib names pm s =
     (case NewWsSendData marshal zlib (CompressData (ws_config s)) pm of
        None \<Rightarrow> Some s
      | Some d \<Rightarrow> deliver_all names d (cache_push d s))"

section \<open>Frames\<close>

text \<open>\<open>binary.Write\<close> of a signed integer of \<open>n\<close> bytes in network order.\<close>

fun be_bytes :: "nat \<Rightarrow> int \<Rightarrow> bytes" where
  "be_bytes 0 x = []"
| "be_bytes (Suc n) x = be_bytes n (x div 256) @ [word_of_int x]"

record MessageHeaderFixed =
  hd_Version :: int
  hd_Compress :: int
  hd_Period :: int
  hd_Timestamp :: int
  hd_PostTimestamp :: int

definition sendHdr :: "int \<Rightarrow> WsSendData \<Rightarrow> bytes" where
  "sendHdr now d =
     (let header = \<lparr>hd_Version = 1, hd_Compress = 1, hd_Period = wd_Period d, hd_Timestamp = wd_Ts d,
                    hd_PostTimestamp = now\<rparr>
      in be_bytes 1 (hd_Version header) @ be_bytes 1 (hd_Compress header) @ be_bytes 8 (hd_Period header) @
         be_bytes 8 (hd_Timestamp header) @ be_bytes 8 (hd_PostTimestamp header))"

definition send :: "WsServerConfigVars \<Rightarrow> int \<Rightarrow> WsSendData \<Rightarrow> bytes" where
  "send cfg now d = (if SendMsgHdr cfg then sendHdr now d @ wd_Data d else wd_Data d)"

section \<open>Clients\<close>

text \<open>\<open>strings.Split(addr, ":")[0]\<close>\<close>

definition host_part :: "string \<Rightarrow> string" where
  "host_part addr = takeWhile (\<lambda>c. c \<noteq> CHR '':'') addr"

fun find_user :: "string \<Rightarrow> string \<Rightarrow> WsUserAccount list \<Rightarrow> WsUserAccount option" where
  "find_user name remote [] = None"
| "find_user name remote (user # users) =
     (if ua_User user = name then
        (if ua_Ips user \<noteq> [] then
           (if Filter (ua_Ips user) (\<lambda>ip. ip = host_part remote) \<noteq> [] then Some user
            else find_user name remote users)
         else Some user)
      else find_user name remote users)"

text \<open>What becomes of a request: denied, accepted, or the process exits because the upgrade failed
  (\<open>logger.Fatalln\<close>).\<close>

datatype accept_result = Denied | Exits | Accepted WsServer

definition close_client :: "nat \<Rightarrow> WsServer \<Rightarrow> WsServer" where
  "close_client p s = s\<lparr>heap := (heap s)(p := map_option (wc_open_update (\<lambda>_. False)) (heap s p))\<rparr>"

text \<open>The handler of \<open>/ws\<close>: \<open>p\<close> is the pointer of the new client, \<open>now\<close> the clock in
  milliseconds, \<open>upgraded\<close> whether the upgrade succeeded.\<close>

definition accept ::
  "nat \<Rightarrow> int \<Rightarrow> bool \<Rightarrow> string \<Rightarrow> string \<Rightarrow> string \<Rightarrow> WsServer \<Rightarrow> accept_result go" where
  "accept p now upgraded name startParam remote s =
     (case find_user name remote (Users (ws_config s)) of
        None \<Rightarrow> Inr Denied
      | Some useracc \<Rightarrow>
          if \<not> upgraded then Inr Exits
          else
            (case NewWsClient (ws_config s) (i64 (now - i64 (ParseInt startParam * 1000))) useracc of
               Inl e \<Rightarrow> Inl e
             | Inr client \<Rightarrow>
                 (let s1 = (case clients s name of None \<Rightarrow> s | Some old \<Rightarrow> close_client old s)
                  in Inr (Accepted (s1\<lparr>heap := (heap s1)(p \<mapsto> client),
                                       clients := (clients s1)(name \<mapsto> p)\<rparr>)))))"

text \<open>A client's reader ends when its connection is closed, and calls \<open>onclose\<close>.\<close>

definition onclose :: "nat \<Rightarrow> WsServer \<Rightarrow> WsServer" where
  "onclose p s =
     (case heap s p of
        None \<Rightarrow> s
      | Some client \<Rightarrow>
          (case clients s (ua_User (wc_user client)) of
             None \<Rightarrow> s
           | Some c \<Rightarrow>
               if c = p then s\<lparr>clients := (clients s)(ua_User (wc_user client) := None)\<rparr> else s))"

definition handleMessages_end :: "nat \<Rightarrow> WsServer \<Rightarrow> WsServer" where
  "handleMessages_end p s = onclose p (close_client p s)"

text \<open>The accounts are emptied before the file is read. \<open>file\<close> is what \<open>json.Unmarshal\<close> then
  stores in them, \<open>None\<close> when the file cannot be read.\<close>

definition reloadUsers :: "WsUserAccount list option \<Rightarrow> WsServer \<Rightarrow> WsServer" where
  "reloadUsers file s =
     s\<lparr>ws_config := (ws_config s)\<lparr>Users := (case file of None \<Rightarrow> [] | Some us \<Rightarrow> us)\<rparr>\<rparr>"

text \<open>The goroutine that \<open>open\<close> starts: the accounts are read at once and at each expiry of the timer, until the channel \<open>stop\<close> is closed.
  \<open>None\<close>: the process exits because the address cannot be listened on (\<open>logger.Fatal\<close>).\<close>

datatype reload_wait = ReloadTimer "WsUserAccount list option" | ServerStops

fun reload_loop :: "reload_wait list \<Rightarrow> WsServer \<Rightarrow> WsServer" where
  "reload_loop [] s = s"
| "reload_loop (ServerStops # ws) s = s"
| "reload_loop (ReloadTimer file # ws) s = reload_loop ws (reloadUsers file s)"

definition ws_open :: "(string \<Rightarrow> bool) \<Rightarrow> WsUserAccount list option \<Rightarrow> reload_wait list \<Rightarrow> WsServer \<Rightarrow> WsServer option" where
  "ws_open listens file ws s =
     (if listens (ListenAddr (ws_config s)) then Some (reload_loop ws (reloadUsers file s)) else None)"

text \<open>\<open>_send\<close>, the method that \<open>send\<close> has replaced: it marshals and compresses at the time of sending. The result is what is written,
  \<open>None\<close> where the message cannot be marshalled.\<close>

definition old_send :: "('f PeriodMessage \<Rightarrow> bytes option) \<Rightarrow> (bytes \<Rightarrow> bytes option) \<Rightarrow> WsServerConfigVars \<Rightarrow> 'f PeriodMessage \<Rightarrow> bytes option" where
  "old_send marshal zlib cfg pm =
     (case marshal pm of
        None \<Rightarrow> None
      | Some bs \<Rightarrow>
          if CompressData cfg then (case zlib bs of Some z \<Rightarrow> Some z | None \<Rightarrow> Some bs) else Some bs)"

section \<open>Steps\<close>

text \<open>
  What happens to the server, one critical section at a time: a period is enqueued, a request is
  accepted (with a fresh pointer), a connection breaks, the reader of a closed connection calls
  \<open>onclose\<close>, a client takes a message from its live channel, the accounts are read again.
\<close>

inductive ws_step ::
  "('f PeriodMessage \<Rightarrow> bytes option) \<Rightarrow> (bytes \<Rightarrow> bytes option) \<Rightarrow> WsServer \<Rightarrow> WsServer \<Rightarrow> bool"
  for marshal zlib where
  Enqueue: "range_order names (clients s) \<Longrightarrow> enqueue marshal zlib names pm s = Some s' \<Longrightarrow>
              ws_step marshal zlib s s'"
| Accept: "heap s p = None \<Longrightarrow> accept p now True name startParam remote s = Inr (Accepted s') \<Longrightarrow>
             ws_step marshal zlib s s'"
| Broken: "heap s p \<noteq> None \<Longrightarrow> ws_step marshal zlib s (close_client p s)"
| Closed: "heap s p = Some c \<Longrightarrow> \<not> wc_open c \<Longrightarrow> ws_step marshal zlib s (onclose p s)"
| Taken: "heap s p = Some c \<Longrightarrow> wc_live c = d # ds \<Longrightarrow>
            ws_step marshal zlib s (s\<lparr>heap := (heap s)(p \<mapsto> c\<lparr>wc_live := ds\<rparr>)\<rparr>)"
| Reload: "ws_step marshal zlib s (reloadUsers file s)"

inductive ws_reachable ::
  "('f PeriodMessage \<Rightarrow> bytes option) \<Rightarrow> (bytes \<Rightarrow> bytes option) \<Rightarrow> WsServerConfigVars \<Rightarrow> WsServer \<Rightarrow> bool"
  for marshal zlib cfg where
  Init: "ws_reachable marshal zlib cfg (NewWsServer cfg)"
| Step: "ws_reachable marshal zlib cfg s \<Longrightarrow> ws_step marshal zlib s s' \<Longrightarrow> ws_reachable marshal zlib cfg s'"

inductive_cases ws_stepE: "ws_step marshal zlib s s'"

section \<open>The invariant\<close>

text \<open>
  The queue is well formed and no longer than the cache; a registered pointer leads to a client of
  that user, whose live channel is within its capacity; and an open client is registered.
\<close>

definition queue_ok :: "WsServer \<Rightarrow> bool" where
  "queue_ok s \<longleftrightarrow> list_wf (dataQueue s) \<and> int (length (contents (dataQueue s))) \<le> max 0 (cache_size (ws_config s))"

definition registry_ok :: "WsServer \<Rightarrow> bool" where
  "registry_ok s \<longleftrightarrow>
     (\<forall>name p. clients s name = Some p \<longrightarrow> (\<exists>c. heap s p = Some c \<and> ua_User (wc_user c) = name)) \<and>
     (\<forall>p c. heap s p = Some c \<and> wc_open c \<longrightarrow> clients s (ua_User (wc_user c)) = Some p) \<and>
     (\<forall>p c. heap s p = Some c \<longrightarrow> length (wc_live c) \<le> live_cap)"

definition ws_wf :: "WsServer \<Rightarrow> bool" where
  "ws_wf s \<longleftrightarrow> queue_ok s \<and> registry_ok s"

lemma cache_push_contents:
  assumes "list_wf (dataQueue s)"
    and "int (length (contents (dataQueue s))) \<le> max 0 (cache_size (ws_config s))"
  shows "list_wf (dataQueue (cache_push d s))"
    and "contents (dataQueue (cache_push d s)) =
      (let xs = contents (dataQueue s) @ [d] in drop (length xs - nat (cache_size (ws_config s))) xs)"
proof -
  let ?q = "PushBack d (dataQueue s)" and ?n = "nat (cache_size (ws_config s))"
  have wf: "list_wf ?q" using assms(1) by simp
  obtain h where h: "Front ?q = Some h"
    using glq.front_vals [OF wf, of "hd (contents ?q)" "tl (contents ?q)"] glq.vals_push [OF assms(1), of d] by force
  have push: "contents ?q = contents (dataQueue s) @ [d]" using glq.vals_push [OF assms(1)] .
  have full: "cache_size (ws_config s) < int (Len ?q) \<longleftrightarrow> ?n < Len ?q"
    using assms wf push by (auto simp: Len_contents)
  show "list_wf (dataQueue (cache_push d s))"
    using wf h by (simp add: cache_push_def Let_def)
  have "length (contents (dataQueue s)) \<le> ?n" using assms(2) by linarith
  from glq.push_evict_vals [OF assms(1) this, of d] show
    "contents (dataQueue (cache_push d s)) =
      (let xs = contents (dataQueue s) @ [d] in drop (length xs - ?n) xs)"
    by (auto simp: cache_push_def Let_def h full push split: if_splits simp del: drop_append)
qed

lemma deliver_all_queue:
  "deliver_all names d s = Some s' \<Longrightarrow>
     dataQueue s' = dataQueue s \<and> ws_config s' = ws_config s \<and> clients s' = clients s"
  by (induction names d s rule: deliver_all.induct) (auto split: option.splits)

text \<open>Deliveries change nothing of a client but its live channel, within its capacity.\<close>

definition client_le :: "WsClient \<Rightarrow> WsClient \<Rightarrow> bool" where
  "client_le c c' \<longleftrightarrow> wc_user c' = wc_user c \<and> wc_open c' = wc_open c \<and>
     (length (wc_live c) \<le> live_cap \<longrightarrow> length (wc_live c') \<le> live_cap)"

definition heap_le :: "(nat \<rightharpoonup> WsClient) \<Rightarrow> (nat \<rightharpoonup> WsClient) \<Rightarrow> bool" where
  "heap_le h h' \<longleftrightarrow> (\<forall>p. rel_option client_le (h p) (h' p))"

lemma client_le_refl [simp]: "client_le c c"
  by (simp add: client_le_def)

lemma heap_le_refl [simp]: "heap_le h h"
  by (simp add: heap_le_def option.rel_refl)

lemma heap_le_upd: "h p = Some c \<Longrightarrow> client_le c c' \<Longrightarrow> heap_le (h(p \<mapsto> c')) h' \<Longrightarrow> heap_le h h'"
  unfolding heap_le_def
proof
  fix q
  assume h: "h p = Some c" "client_le c c'" "\<forall>q. rel_option client_le ((h(p \<mapsto> c')) q) (h' q)"
  then have "rel_option client_le ((h(p \<mapsto> c')) q) (h' q)" by blast
  then show "rel_option client_le (h q) (h' q)"
    using h(1,2) by (cases "q = p") (auto simp: option_rel_Some1 client_le_def)
qed

lemma deliver_all_heap: "deliver_all names d s = Some s' \<Longrightarrow> heap_le (heap s) (heap s')"
proof (induction names arbitrary: s)
  case (Cons name names)
  show ?case
  proof (cases "clients s name")
    case None
    with Cons show ?thesis by simp
  next
    case (Some p)
    show ?thesis
    proof (cases "heap s p")
      case None
      with Cons Some show ?thesis by simp
    next
      case (Some c)
      with Cons.prems \<open>clients s name = Some p\<close> have
        "deliver_all names d (s\<lparr>heap := (heap s)(p \<mapsto> c\<lparr>wc_live := wc_live c @ [d]\<rparr>)\<rparr>) = Some s'"
        and len: "length (wc_live c) < live_cap"
        by (auto simp: delivery_def split: if_splits)
      note IH = Cons.IH [OF this(1)]
      show ?thesis
      proof (rule heap_le_upd [where p = p and c = c])
        show "client_le c (c\<lparr>wc_live := wc_live c @ [d]\<rparr>)" using len by (simp add: client_le_def)
        show "heap_le ((heap s)(p \<mapsto> c\<lparr>wc_live := wc_live c @ [d]\<rparr>)) (heap s')"
          using IH by (simp del: fun_upd_apply)
      qed (rule Some)
    qed
  qed
qed simp

lemma heap_leD:
  assumes "heap_le h h'"
  shows "h p = Some c \<Longrightarrow> \<exists>c'. h' p = Some c' \<and> client_le c c'"
    and "h' p = Some c' \<Longrightarrow> \<exists>c. h p = Some c \<and> client_le c c'"
  using assms unfolding heap_le_def by (metis option_rel_Some1 option_rel_Some2)+

lemma registry_heap_le:
  assumes "registry_ok s" and "heap_le (heap s) (heap s')" and "clients s' = clients s"
  shows "registry_ok s'"
proof -
  have "\<exists>c. heap s' p = Some c \<and> ua_User (wc_user c) = name" if "clients s' name = Some p" for name p
  proof -
    from that assms(1,3) obtain c where "heap s p = Some c" "ua_User (wc_user c) = name"
      by (auto simp: registry_ok_def)
    with heap_leD(1) [OF assms(2)] show ?thesis by (fastforce simp: client_le_def)
  qed
  moreover have "clients s' (ua_User (wc_user c)) = Some p" if c: "heap s' p = Some c" "wc_open c" for p c
  proof -
    from heap_leD(2) [OF assms(2) c(1)] obtain b where "heap s p = Some b" "client_le b c" by blast
    with assms(1,3) c(2) show ?thesis by (auto simp: registry_ok_def client_le_def)
  qed
  moreover have "length (wc_live c) \<le> live_cap" if c: "heap s' p = Some c" for p c
  proof -
    from heap_leD(2) [OF assms(2) c] obtain b where "heap s p = Some b" "client_le b c" by blast
    with assms(1) show ?thesis by (auto simp: registry_ok_def client_le_def)
  qed
  ultimately show ?thesis by (simp add: registry_ok_def)
qed

section \<open>Every step keeps the invariant\<close>

lemma cache_push_fields [simp]:
  "clients (cache_push d s) = clients s" "heap (cache_push d s) = heap s" "ws_config (cache_push d s) = ws_config s"
  by (simp_all add: cache_push_def Let_def)

lemma queue_ok_push:
  assumes "queue_ok s"
  shows "queue_ok (cache_push d s)"
  using cache_push_contents [of s d] assms by (auto simp: queue_ok_def Let_def)

lemma enqueue_wf:
  assumes "ws_wf s" and "enqueue marshal zlib names pm s = Some s'"
  shows "ws_wf s'"
proof (cases "NewWsSendData marshal zlib (CompressData (ws_config s)) pm")
  case None
  with assms show ?thesis by (simp add: enqueue_def)
next
  case (Some d)
  with assms(2) have d: "deliver_all names d (cache_push d s) = Some s'" by (simp add: enqueue_def)
  note q = deliver_all_queue [OF d]
  have "queue_ok s'" using queue_ok_push [of s d] assms(1) q by (simp add: ws_wf_def queue_ok_def)
  moreover have "registry_ok (cache_push d s)" using assms(1) by (simp add: ws_wf_def registry_ok_def)
  then have "registry_ok s'" by (rule registry_heap_le [OF _ deliver_all_heap [OF d]]) (simp add: q)
  ultimately show ?thesis by (simp add: ws_wf_def)
qed

lemma find_user_name: "find_user name remote us = Some u \<Longrightarrow> u \<in> set us \<and> ua_User u = name"
  by (induction us) (auto split: if_splits)

lemma registry_okI:
  assumes "\<And>name p. clients s name = Some p \<Longrightarrow> \<exists>c. heap s p = Some c \<and> ua_User (wc_user c) = name"
    and "\<And>p c. heap s p = Some c \<Longrightarrow> wc_open c \<Longrightarrow> clients s (ua_User (wc_user c)) = Some p"
    and "\<And>p c. heap s p = Some c \<Longrightarrow> length (wc_live c) \<le> live_cap"
  shows "registry_ok s"
  using assms unfolding registry_ok_def by blast

lemma registry_okD:
  assumes "registry_ok s"
  shows "clients s name = Some p \<Longrightarrow> \<exists>c. heap s p = Some c \<and> ua_User (wc_user c) = name"
    and "heap s p = Some c \<Longrightarrow> wc_open c \<Longrightarrow> clients s (ua_User (wc_user c)) = Some p"
    and "heap s p = Some c \<Longrightarrow> length (wc_live c) \<le> live_cap"
  using assms unfolding registry_ok_def by blast+

lemma heap_close:
  "heap (close_client p s) q = Some c \<longleftrightarrow>
     (if q = p then \<exists>b. heap s p = Some b \<and> c = b\<lparr>wc_open := False\<rparr> else heap s q = Some c)"
  by (auto simp: close_client_def)

lemma close_client_fields [simp]:
  "clients (close_client p s) = clients s" "dataQueue (close_client p s) = dataQueue s"
  "ws_config (close_client p s) = ws_config s"
  by (simp_all add: close_client_def)

lemma registry_close: "registry_ok s \<Longrightarrow> registry_ok (close_client p s)"
proof (rule registry_okI, goal_cases)
  case (1 name q)
  then obtain c where "heap s q = Some c" "ua_User (wc_user c) = name"
    using registry_okD(1) [OF 1(1)] by auto
  then show ?case by (cases "q = p") (simp_all add: heap_close)
next
  case (2 q c)
  with registry_okD(2) [OF 2(1)] show ?case by (auto simp: heap_close split: if_splits)
next
  case (3 q c)
  with registry_okD(3) [OF 3(1)] show ?case by (auto simp: heap_close split: if_splits)
qed

lemma registry_add:
  assumes "registry_ok s" and "heap s p = None" and "ua_User (wc_user c) = name" and "wc_live c = []"
    and "\<And>q b. heap s q = Some b \<Longrightarrow> wc_open b \<Longrightarrow> ua_User (wc_user b) \<noteq> name"
  shows "registry_ok (s\<lparr>heap := (heap s)(p \<mapsto> c), clients := (clients s)(name \<mapsto> p)\<rparr>)"
proof (rule registry_okI, goal_cases)
  case (1 n q)
  with registry_okD(1) [OF assms(1), of n q] assms(2,3) show ?case by (auto split: if_splits)
next
  case (2 q b)
  with registry_okD(2) [OF assms(1), of q b] assms show ?case by (auto split: if_splits)
next
  case (3 q b)
  with registry_okD(3) [OF assms(1), of q b] assms(4) show ?case by (auto split: if_splits)
qed

lemma accept_wf:
  assumes "ws_wf s" and "heap s p = None" and "accept p now True name startParam remote s = Inr (Accepted s')"
  shows "ws_wf s'"
proof -
  let ?s1 = "case clients s name of None \<Rightarrow> s | Some old \<Rightarrow> close_client old s"
  from assms(3) obtain u where u: "find_user name remote (Users (ws_config s)) = Some u"
    and s': "s' = ?s1\<lparr>heap := (heap ?s1)(p \<mapsto> \<lparr>wc_user = u, wc_start = i64 (now - i64 (ParseInt startParam * 1000)),
             wc_cap = cache_size (ws_config s), wc_live = [], wc_open = True\<rparr>),
            clients := (clients ?s1)(name \<mapsto> p)\<rparr>"
    by (auto simp: accept_def NewWsClient_def Let_def split: option.splits if_splits)
  have name: "ua_User u = name" using find_user_name [OF u] by simp
  have r: "registry_ok s" using assms(1) by (simp add: ws_wf_def)
  have "queue_ok s'" using assms(1) by (auto simp: s' ws_wf_def queue_ok_def split: option.splits)
  moreover have "registry_ok s'" unfolding s'
  proof (rule registry_add)
    show "registry_ok ?s1" using r registry_close by (auto split: option.splits)
    show "heap ?s1 p = None" using assms(2) by (auto simp: close_client_def split: option.splits)
    fix q b assume "heap ?s1 q = Some b" "wc_open b"
    then show "ua_User (wc_user b) \<noteq> name"
      using registry_okD(2) [OF r, of q b] by (auto simp: heap_close split: option.splits if_splits)
  qed (simp_all add: name)
  ultimately show ?thesis by (simp add: ws_wf_def)
qed

lemma onclose_wf:
  assumes "ws_wf s" and "heap s p = Some c" and "\<not> wc_open c"
  shows "ws_wf (onclose p s)"
proof -
  have r: "registry_ok s" using assms(1) by (simp add: ws_wf_def)
  have "registry_ok (onclose p s)"
  proof (rule registry_okI, goal_cases)
    case (1 n q)
    with registry_okD(1) [OF r, of n q] show ?case by (auto simp: onclose_def split: option.splits if_splits)
  next
    case (2 q b)
    with registry_okD(2) [OF r, of q b] assms(2,3) show ?case
      by (auto simp: onclose_def split: option.splits if_splits)
  next
    case (3 q b)
    with registry_okD(3) [OF r, of q b] show ?case by (auto simp: onclose_def split: option.splits if_splits)
  qed
  with assms(1) show ?thesis by (auto simp: ws_wf_def queue_ok_def onclose_def split: option.splits)
qed

lemma ws_step_wf:
  assumes "ws_step marshal zlib s s'" and "ws_wf s"
  shows "ws_wf s'"
  using assms
proof (cases rule: ws_step.cases)
  case (Taken p c d ds)
  have "registry_ok s'" unfolding Taken
    by (rule registry_heap_le [of s], use assms(2) in \<open>simp add: ws_wf_def\<close>)
      (use Taken in \<open>auto simp: heap_le_def client_le_def option.rel_refl intro!: option.rel_refl\<close>)
  then show ?thesis using assms(2) Taken by (simp add: ws_wf_def queue_ok_def)
next
  case (Broken p)
  then show ?thesis using assms(2) registry_close by (simp add: ws_wf_def queue_ok_def)
next
  case (Reload us)
  then show ?thesis using assms(2)
    by (simp add: ws_wf_def queue_ok_def registry_ok_def reloadUsers_def cache_size_def)
qed (use assms(2) enqueue_wf accept_wf onclose_wf in blast)+

lemma ws_reachable_wf: "ws_reachable marshal zlib cfg s \<Longrightarrow> ws_wf s"
proof (induction rule: ws_reachable.induct)
  case Init
  then show ?case by (simp add: ws_wf_def queue_ok_def registry_ok_def NewWsServer_def)
next
  case (Step s s')
  then show ?case using ws_step_wf by blast
qed

section \<open>Opening and sending\<close>

text \<open>Without the header a client is sent the same bytes as by the method of old.\<close>

lemma old_send_same:
  "\<not> SendMsgHdr cfg \<Longrightarrow>
     old_send marshal zlib cfg pm = map_option (send cfg now) (NewWsSendData marshal zlib (CompressData cfg) pm)"
  by (simp add: old_send_def send_def NewWsSendData_def split: option.splits)

text \<open>The accounts are those of the last reading.\<close>

lemma reload_loop_users:
  "Users (ws_config (reload_loop (map ReloadTimer files) (reloadUsers f0 s))) =
     (case last (f0 # files) of None \<Rightarrow> [] | Some us \<Rightarrow> us)"
proof (induction files arbitrary: f0 s)
  case Nil
  then show ?case by (simp add: reloadUsers_def)
next
  case (Cons f files)
  from Cons.IH [of f "reloadUsers f0 s"] show ?case by simp
qed

text \<open>While the file cannot be read nobody gets in, whoever was let in before.\<close>

lemma unreadable_users_deny: "accept p now upgraded name startParam remote (reloadUsers None s) = Inr Denied"
  by (simp add: accept_def reloadUsers_def)

end
