(* ===== verification/Ws_Server_Props.thy ===== *)
theory Ws_Server_Props
  imports Ws_Server
begin

text \<open>The properties of the WebSocket server: its cache, its registry of clients, the access check and
  the frame it sends.\<close>

section \<open>The cache\<close>

text \<open>A sequence of calls of \<open>enqueue\<close>, each with the order in which it visits the clients.\<close>

fun enqueue_all ::
  "('f PeriodMessage \<Rightarrow> bytes option) \<Rightarrow> (bytes \<Rightarrow> bytes option) \<Rightarrow> (string list \<times> 'f PeriodMessage) list \<Rightarrow>
     WsServer \<Rightarrow> WsServer option" where
  "enqueue_all marshal zlib [] s = Some s"
| "enqueue_all marshal zlib ((names, pm) # es) s =
     (case enqueue marshal zlib names pm s of None \<Rightarrow> None | Some s' \<Rightarrow> enqueue_all marshal zlib es s')"

definition sent_data ::
  "('f PeriodMessage \<Rightarrow> bytes option) \<Rightarrow> (bytes \<Rightarrow> bytes option) \<Rightarrow> bool \<Rightarrow> (string list \<times> 'f PeriodMessage) list \<Rightarrow>
     WsSendData list" where
  "sent_data marshal zlib compress es = List.map_filter (NewWsSendData marshal zlib compress \<circ> snd) es"

definition last_n :: "nat \<Rightarrow> 'a list \<Rightarrow> 'a list" where
  "last_n n xs = drop (length xs - n) xs"

lemma last_n_append: "last_n n (last_n n xs @ ys) = last_n n (xs @ ys)"
proof (cases "length xs \<le> n")
  case True
  then show ?thesis by (simp add: last_n_def)
next
  case False
  then have "length ys + (length xs - n) = length xs + length ys - n" "length xs + length ys - n - length xs = length ys - n"
    by auto
  with False show ?thesis by (simp add: last_n_def)
qed

lemma enqueue_contents:
  assumes "queue_ok s" and "enqueue marshal zlib names pm s = Some s'"
  shows "queue_ok s' \<and> ws_config s' = ws_config s \<and> contents (dataQueue s') =
    last_n (nat (cache_size (ws_config s)))
      (contents (dataQueue s) @ sent_data marshal zlib (CompressData (ws_config s)) [(names, pm)])"
proof (cases "NewWsSendData marshal zlib (CompressData (ws_config s)) pm")
  case None
  with assms show ?thesis
    by (auto simp: enqueue_def sent_data_def map_filter_simps last_n_def queue_ok_def)
next
  case (Some d)
  with assms(2) have d: "deliver_all names d (cache_push d s) = Some s'" by (simp add: enqueue_def)
  have "contents (dataQueue (cache_push d s)) =
      last_n (nat (cache_size (ws_config s))) (contents (dataQueue s) @ [d])"
    using cache_push_contents(2) [of s d] assms(1) by (simp add: queue_ok_def Let_def last_n_def)
  with Some deliver_all_queue [OF d] queue_ok_push [OF assms(1), of d] show ?thesis
    by (simp add: sent_data_def map_filter_simps queue_ok_def)
qed

lemma enqueue_all_contents:
  assumes "queue_ok s" and "enqueue_all marshal zlib es s = Some s'"
  shows "contents (dataQueue s') =
    last_n (nat (cache_size (ws_config s)))
      (contents (dataQueue s) @ sent_data marshal zlib (CompressData (ws_config s)) es)"
  using assms
proof (induction es arbitrary: s)
  case Nil
  then show ?case by (auto simp: sent_data_def map_filter_simps last_n_def queue_ok_def)
next
  case (Cons e es)
  obtain names pm where e: "e = (names, pm)" by force
  with Cons.prems(2) obtain s1 where s1: "enqueue marshal zlib names pm s = Some s1"
    "enqueue_all marshal zlib es s1 = Some s'" by (auto split: option.splits)
  note r = enqueue_contents [OF Cons.prems(1) s1(1)]
  have "sent_data marshal zlib z (e # es) = sent_data marshal zlib z [e] @ sent_data marshal zlib z es" for z
    by (simp add: sent_data_def map_filter_simps split: option.splits)
  with Cons.IH [OF _ s1(2)] r show ?case by (simp add: e last_n_append)
qed

section \<open>Delivery\<close>

lemma deliver_all_live:
  assumes "deliver_all names d s = Some s'" and "distinct names" and "inj_on (clients s) (set names)"
    and "\<And>name p. name \<in> set names \<Longrightarrow> clients s name = Some p \<Longrightarrow> heap s p \<noteq> None"
  shows "heap s' p =
    (if \<exists>name\<in>set names. clients s name = Some p
     then map_option (\<lambda>c. c\<lparr>wc_live := wc_live c @ [d]\<rparr>) (heap s p) else heap s p)"
  using assms
proof (induction names arbitrary: s)
  case Nil
  then show ?case by simp
next
  case (Cons name names)
  show ?case
  proof (cases "clients s name")
    case None
    with Cons.prems(1) have d: "deliver_all names d s = Some s'" by simp
    have "heap s' p = (if \<exists>name\<in>set names. clients s name = Some p
        then map_option (\<lambda>c. c\<lparr>wc_live := wc_live c @ [d]\<rparr>) (heap s p) else heap s p)"
      by (rule Cons.IH [OF d]) (use Cons.prems in auto)
    with None show ?thesis by simp
  next
    case (Some q)
    with Cons.prems(4) obtain c where c: "heap s q = Some c" by fastforce
    let ?s = "s\<lparr>heap := (heap s)(q \<mapsto> c\<lparr>wc_live := wc_live c @ [d]\<rparr>)\<rparr>"
    have d: "deliver_all names d ?s = Some s'"
      using Cons.prems(1) Some c by (auto simp: delivery_def split: if_splits)
    have fresh: "clients s n \<noteq> Some q" if "n \<in> set names" for n
      using Cons.prems(2,3) Some that unfolding inj_on_def by (metis distinct.simps(2) list.set_intros)
    have "heap s' p = (if \<exists>name\<in>set names. clients ?s name = Some p
        then map_option (\<lambda>c. c\<lparr>wc_live := wc_live c @ [d]\<rparr>) (heap ?s p) else heap ?s p)"
      by (rule Cons.IH [OF d]) (use Cons.prems in \<open>auto simp: inj_on_def\<close>)
    with Some c fresh show ?thesis by (cases "p = q") auto
  qed
qed

lemma clients_inj: "registry_ok s \<Longrightarrow> range_order names (clients s) \<Longrightarrow> inj_on (clients s) (set names)"
proof (rule inj_onI)
  fix a b assume r: "registry_ok s" and ord: "range_order names (clients s)"
    and ab: "a \<in> set names" "b \<in> set names" "clients s a = clients s b"
  then obtain p where "clients s a = Some p" "clients s b = Some p" by (auto simp: range_order_def)
  with registry_okD(1) [OF r, of a p] registry_okD(1) [OF r, of b p] show "a = b" by auto
qed

lemma enqueue_live:
  assumes "ws_wf s" and "range_order names (clients s)"
    and "NewWsSendData marshal zlib (CompressData (ws_config s)) pm = Some d"
    and "enqueue marshal zlib names pm s = Some s'"
  shows "heap s' p = (if p \<in> ran (clients s) then map_option (\<lambda>c. c\<lparr>wc_live := wc_live c @ [d]\<rparr>) (heap s p)
                      else heap s p)"
proof -
  have r: "registry_ok s" using assms(1) by (simp add: ws_wf_def)
  have d: "deliver_all names d (cache_push d s) = Some s'" using assms(3,4) by (simp add: enqueue_def)
  have "heap s' p = (if \<exists>name\<in>set names. clients s name = Some p
      then map_option (\<lambda>c. c\<lparr>wc_live := wc_live c @ [d]\<rparr>) (heap s p) else heap s p)"
    using deliver_all_live [OF d, of p] assms(2) clients_inj [OF r assms(2)] registry_okD(1) [OF r]
    by (fastforce simp: range_order_def)
  moreover have "(\<exists>name\<in>set names. clients s name = Some p) \<longleftrightarrow> p \<in> ran (clients s)"
    using assms(2) by (auto simp: range_order_def ran_def)
  ultimately show ?thesis by simp
qed

text \<open>Where every registered client has room, \<open>enqueue\<close> returns.\<close>

lemma deliver_all_room:
  assumes "distinct names" and "inj_on (clients s) (set names)" and "set names \<subseteq> dom (clients s)"
    and "\<And>name p c. name \<in> set names \<Longrightarrow> clients s name = Some p \<Longrightarrow> heap s p = Some c \<Longrightarrow> length (wc_live c) < live_cap"
  shows "deliver_all names d s \<noteq> None"
  using assms
proof (induction names arbitrary: s)
  case (Cons name names)
  from Cons.prems(3) obtain q where q: "clients s name = Some q" by auto
  have fresh: "clients s n \<noteq> Some q" if "n \<in> set names" for n
    using Cons.prems(1,2) q that unfolding inj_on_def by (metis distinct.simps(2) list.set_intros)
  show ?case
  proof (cases "heap s q")
    case None
    have "deliver_all names d s \<noteq> None" by (rule Cons.IH) (use Cons.prems in auto)
    with None q show ?thesis by simp
  next
    case (Some c)
    let ?s = "s\<lparr>heap := (heap s)(q \<mapsto> c\<lparr>wc_live := wc_live c @ [d]\<rparr>)\<rparr>"
    have "deliver_all names d ?s \<noteq> None"
      by (rule Cons.IH) (use Cons.prems fresh in \<open>auto simp: inj_on_def split: if_splits\<close>)
    with Some q Cons.prems(4) [of name q c] show ?thesis by (simp add: delivery_def)
  qed
qed simp

lemma enqueue_room:
  assumes "ws_wf s" and "range_order names (clients s)"
    and "\<And>p c. p \<in> ran (clients s) \<Longrightarrow> heap s p = Some c \<Longrightarrow> length (wc_live c) < live_cap"
  shows "\<exists>s'. enqueue marshal zlib names pm s = Some s'"
proof -
  have r: "registry_ok s" using assms(1) by (simp add: ws_wf_def)
  have "deliver_all names d (cache_push d s) \<noteq> None" for d
    by (rule deliver_all_room)
      (use assms clients_inj [OF r assms(2)] in \<open>auto simp: range_order_def ran_def\<close>)
  then show ?thesis by (cases "NewWsSendData marshal zlib (CompressData (ws_config s)) pm") (auto simp: enqueue_def)
qed

lemma deliver_all_blocks:
  assumes "name \<in> set names" and "clients s name = Some p" and "heap s p = Some c"
    and "live_cap \<le> length (wc_live c)"
  shows "deliver_all names d s = None"
  using assms
proof (induction names arbitrary: s c)
  case Nil
  then show ?case by simp
next
  case (Cons n names)
  show ?case
  proof (cases "n = name")
    case True
    with Cons.prems show ?thesis by (simp add: delivery_def)
  next
    case False
    with Cons.prems(1) have n: "name \<in> set names" by simp
    show ?thesis
    proof (cases "clients s n")
      case None
      with Cons.IH [OF n Cons.prems(2-4)] show ?thesis by simp
    next
      case (Some q)
      show ?thesis
      proof (cases "heap s q")
        case None
        with Some Cons.IH [OF n Cons.prems(2-4)] show ?thesis by simp
      next
        case (Some b)
        let ?s = "s\<lparr>heap := (heap s)(q \<mapsto> b\<lparr>wc_live := wc_live b @ [d]\<rparr>)\<rparr>"
        have "\<exists>c. heap ?s p = Some c \<and> live_cap \<le> length (wc_live c)"
          using Cons.prems(3,4) Some by auto
        with Cons.IH [OF n, of ?s] Cons.prems(2) have "deliver_all names d ?s = None" by auto
        with Some \<open>clients s n = Some q\<close> show ?thesis by (simp add: delivery_def)
      qed
    qed
  qed
qed

section \<open>Properties\<close>

definition demo_ws :: WsServerConfigVars where
  "demo_ws = \<lparr>ws_Enable = True, PassUsers = ''users.json'', UpdateUserTime = 120, ListenAddr = ''127.0.0.1:1501'',
     MaxConns = 5, IpLimited = False, AuthTimeWait = 5, DataCacheTime = 120, CompressData = False,
     SendMsgHdr = True, Users = [\<lparr>ua_User = ''4152cda6'', ua_Passwd = ''123456'', ua_Enable = False, ua_Ips = []\<rparr>]\<rparr>"

definition demo_marshal :: "int PeriodMessage \<Rightarrow> bytes option" where
  "demo_marshal pm = Some [word_of_int (pm_Ts pm)]"

text \<open>C17. The cache holds the last periods: after any sequence of \<open>enqueue\<close> calls that return, the
  queue holds, in order, the last \<open>20 * DataCacheTime\<close> of the messages that could be
  marshalled (two minutes of periods of three seconds are forty messages), and no other.\<close>

theorem cache_holds_last_periods:
  assumes "enqueue_all marshal zlib es (NewWsServer cfg) = Some s"
    and "0 \<le> DataCacheTime cfg" and "DataCacheTime cfg \<le> 2 ^ 50"
  shows "contents (dataQueue s) =
    last_n (nat (20 * DataCacheTime cfg)) (sent_data marshal zlib (CompressData cfg) es)"
proof -
  have "i64 (DataCacheTime cfg * 60) = DataCacheTime cfg * 60" by (rule i64_small) (use assms in auto)
  then have c: "cache_size cfg = 20 * DataCacheTime cfg" using assms by (simp add: cache_size_def go_div_nonneg)
  have "queue_ok (NewWsServer cfg)" by (simp add: queue_ok_def NewWsServer_def)
  from enqueue_all_contents [OF this assms(1)] c show ?thesis by (simp add: NewWsServer_def)
qed

theorem cache_holds_last_periods_witness:
  "\<exists>s. enqueue_all demo_marshal Some [([], NewPeriodMessage), ([], NewPeriodMessage\<lparr>pm_Ts := 3000\<rparr>)]
         (NewWsServer demo_ws) = Some s \<and> map wd_Ts (contents (dataQueue s)) = [0, 3000]"
proof -
  let ?es = "[([], NewPeriodMessage), ([], NewPeriodMessage\<lparr>pm_Ts := 3000\<rparr>)] :: (string list \<times> int PeriodMessage) list"
  obtain s where s: "enqueue_all demo_marshal Some ?es (NewWsServer demo_ws) = Some s"
    by (simp add: enqueue_def NewWsSendData_def demo_marshal_def)
  have "map wd_Ts (last_n (nat (20 * DataCacheTime demo_ws)) (sent_data demo_marshal Some (CompressData demo_ws) ?es)) = [0, 3000]"
    by code_simp
  with cache_holds_last_periods [OF s] s show ?thesis by (simp add: demo_ws_def)
qed

text \<open>C18. The registry of clients. In every state the server can reach, a registered client belongs to
  the user it is registered under, every open connection is the registered one of its user, so
  that a user has at most one open connection, no live channel exceeds its capacity and the
  cache never exceeds its size.\<close>

theorem registry_invariant:
  assumes "ws_reachable marshal zlib cfg s"
  shows "(\<forall>name p. clients s name = Some p \<longrightarrow> (\<exists>c. heap s p = Some c \<and> ua_User (wc_user c) = name)) \<and>
    (\<forall>p c q b. heap s p = Some c \<and> wc_open c \<and> heap s q = Some b \<and> wc_open b \<and>
       ua_User (wc_user c) = ua_User (wc_user b) \<longrightarrow> p = q) \<and>
    (\<forall>p c. heap s p = Some c \<longrightarrow> length (wc_live c) \<le> live_cap) \<and>
    int (length (contents (dataQueue s))) \<le> max 0 (cache_size (ws_config s))"
proof -
  have r: "registry_ok s" and q: "queue_ok s" using ws_reachable_wf [OF assms] by (simp_all add: ws_wf_def)
  have "p = q" if "heap s p = Some c" "wc_open c" "heap s q = Some b" "wc_open b"
    "ua_User (wc_user c) = ua_User (wc_user b)" for p c q b
    using registry_okD(2) [OF r, of p c] registry_okD(2) [OF r, of q b] that by simp
  then show ?thesis using registry_okD(1,3) [OF r] q unfolding queue_ok_def by blast
qed

theorem registry_invariant_witness:
  "\<exists>s c. ws_reachable demo_marshal Some demo_ws s \<and> clients s ''4152cda6'' = Some 0 \<and> heap s 0 = Some c \<and>
     ua_User (wc_user c) = ''4152cda6''"
proof -
  have "case accept 0 1000 True ''4152cda6'' ''5'' ''10.0.0.1:4000'' (NewWsServer demo_ws) of
      Inr (Accepted s) \<Rightarrow> clients s ''4152cda6'' = Some 0 | _ \<Rightarrow> False" by code_simp
  then obtain s where s: "accept 0 1000 True ''4152cda6'' ''5'' ''10.0.0.1:4000'' (NewWsServer demo_ws) = Inr (Accepted s)"
    "clients s ''4152cda6'' = Some 0" by (auto split: sum.splits accept_result.splits)
  have "ws_reachable demo_marshal Some demo_ws s"
    by (rule ws_reachable.Step [OF ws_reachable.Init ws_step.Accept [OF _ s(1)]]) (simp add: NewWsServer_def)
  with registry_invariant [OF this] s(2) show ?thesis by blast
qed

text \<open>Who gets in: a request is let in exactly when some account has the requested name and either
  lists no address or lists the host part of the remote address. The password, the account's
  \<open>Enable\<close> flag and the \<open>IpLimited\<close> and \<open>MaxConns\<close> settings play no part.\<close>

theorem access_granted_iff:
  "accept p now upgraded name startParam remote s \<noteq> Inr Denied \<longleftrightarrow>
     (\<exists>u\<in>set (Users (ws_config s)). ua_User u = name \<and> (ua_Ips u = [] \<or> host_part remote \<in> set (ua_Ips u)))"
proof -
  have "find_user name remote us \<noteq> None \<longleftrightarrow>
      (\<exists>u\<in>set us. ua_User u = name \<and> (ua_Ips u = [] \<or> host_part remote \<in> set (ua_Ips u)))" for us
    by (induction us) (auto simp: filter_empty_conv)
  moreover have "accept p now upgraded name startParam remote s \<noteq> Inr Denied \<longleftrightarrow>
      find_user name remote (Users (ws_config s)) \<noteq> None"
    by (auto simp: accept_def NewWsClient_def Let_def split: option.splits)
  ultimately show ?thesis by simp
qed

theorem access_granted_iff_witness:
  "accept 0 0 True ''4152cda6'' [] ''10.0.0.1:4000'' (NewWsServer demo_ws) \<noteq> Inr Denied"
  unfolding access_granted_iff by code_simp

text \<open>A request of a known user that is not a WebSocket upgrade ends the whole process: the handler
  reports the failed upgrade with \<open>logger.Fatalln\<close>.\<close>

theorem failed_upgrade_exits:
  assumes "u \<in> set (Users (ws_config s))" and "ua_Ips u = []"
  shows "accept p now False (ua_User u) startParam remote s = Inr Exits"
proof -
  have "find_user (ua_User u) remote us \<noteq> None" if "u \<in> set us" for us
    using that assms(2) by (induction us) auto
  with assms(1) show ?thesis by (auto simp: accept_def split: option.splits)
qed

theorem failed_upgrade_exits_witness:
  "accept 0 0 False ''4152cda6'' [] ''10.0.0.1:4000'' (NewWsServer demo_ws) = Inr Exits"
  using failed_upgrade_exits [of "hd (Users demo_ws)" "NewWsServer demo_ws" 0 0 "[]" "''10.0.0.1:4000''"]
  by (simp add: demo_ws_def NewWsServer_def)

text \<open>Delivery: when \<open>enqueue\<close> returns, every registered client has the new message at the end of its
  live channel, exactly once, and every other client is left alone.\<close>

theorem enqueue_delivers_once:
  assumes "ws_wf s" and "range_order names (clients s)"
    and "NewWsSendData marshal zlib (CompressData (ws_config s)) pm = Some d"
    and "enqueue marshal zlib names pm s = Some s'"
  shows "heap s' p = (if p \<in> ran (clients s) then map_option (\<lambda>c. c\<lparr>wc_live := wc_live c @ [d]\<rparr>) (heap s p)
                      else heap s p)"
  using enqueue_live [OF assms] .

lemma demo_client:
  "\<exists>s s' c. ws_wf s \<and> range_order [''4152cda6''] (clients s) \<and> clients s ''4152cda6'' = Some 0 \<and>
     heap s 0 = Some c \<and> wc_live c = [] \<and> \<not> CompressData (ws_config s) \<and>
     enqueue demo_marshal Some [''4152cda6''] NewPeriodMessage s = Some s'"
proof -
  have "case accept 0 1000 True ''4152cda6'' ''5'' ''10.0.0.1:4000'' (NewWsServer demo_ws) of
      Inr (Accepted s) \<Rightarrow>
        map_option wc_live (heap s 0) = Some [] \<and> \<not> CompressData (ws_config s) \<and>
        enqueue demo_marshal Some [''4152cda6''] NewPeriodMessage s \<noteq> None
    | _ \<Rightarrow> False"
    by (simp add: accept_def NewWsServer_def demo_ws_def NewWsClient_def cache_size_def i64_def go_div_def
        Let_def enqueue_def NewWsSendData_def demo_marshal_def delivery_def live_cap_def)
  then obtain s s' c where
    s: "accept 0 1000 True ''4152cda6'' ''5'' ''10.0.0.1:4000'' (NewWsServer demo_ws) = Inr (Accepted s)"
      "heap s 0 = Some c" "wc_live c = []" "\<not> CompressData (ws_config s)"
      "enqueue demo_marshal Some [''4152cda6''] NewPeriodMessage s = Some s'"
    by (auto split: sum.splits accept_result.splits)
  have "clients s = [''4152cda6'' \<mapsto> 0]"
    using s(1) by (auto simp: accept_def NewWsClient_def NewWsServer_def Let_def split: option.splits if_splits)
  moreover have "ws_reachable demo_marshal Some demo_ws s"
    by (rule ws_reachable.Step [OF ws_reachable.Init ws_step.Accept [OF _ s(1)]]) (simp add: NewWsServer_def)
  moreover from this have "ws_wf s" by (rule ws_reachable_wf)
  moreover have "range_order [''4152cda6''] (clients s)" "clients s ''4152cda6'' = Some 0"
    using \<open>clients s = [''4152cda6'' \<mapsto> 0]\<close> by (simp_all add: range_order_def)
  ultimately show ?thesis using s(2-5) by blast
qed

theorem enqueue_delivers_once_witness:
  "\<exists>s s' c. clients s ''4152cda6'' = Some 0 \<and>
     enqueue demo_marshal Some [''4152cda6''] NewPeriodMessage s = Some s' \<and>
     heap s' 0 = Some c \<and> map wd_Ts (wc_live c) = [0]"
proof -
  from demo_client obtain s s' c where
    s: "ws_wf s" "range_order [''4152cda6''] (clients s)" "clients s ''4152cda6'' = Some 0"
      "heap s 0 = Some c" "wc_live c = []" "\<not> CompressData (ws_config s)"
      "enqueue demo_marshal Some [''4152cda6''] NewPeriodMessage s = Some s'" by blast
  let ?d = "\<lparr>wd_Period = 0, wd_Ts = 0, wd_Size = 1, wd_PostTs = 0, wd_Data = [0]\<rparr>"
  have "NewWsSendData demo_marshal Some (CompressData (ws_config s)) NewPeriodMessage = Some ?d"
    using s(6) by (simp add: NewWsSendData_def demo_marshal_def NewPeriodMessage_def)
  from enqueue_delivers_once [OF s(1,2) this s(7), of 0] s(3-5)
  have "heap s' 0 = Some (c\<lparr>wc_live := [?d]\<rparr>)" by (auto simp: ran_def)
  then show ?thesis
    by (intro exI [of _ s] exI [of _ s'] exI [of _ "c\<lparr>wc_live := [?d]\<rparr>"]) (use s(3,7) in simp)
qed

text \<open>A client that does not take its messages stops the server: once the live channel of a
  registered client is full, \<open>enqueue\<close> blocks on it, whatever order the clients are visited in,
  and it does so while it holds the server's mutex.\<close>

theorem full_channel_blocks_enqueue:
  assumes "range_order names (clients s)"
    and "NewWsSendData marshal zlib (CompressData (ws_config s)) pm \<noteq> None"
    and "clients s name = Some p" and "heap s p = Some c" and "length (wc_live c) = live_cap"
  shows "enqueue marshal zlib names pm s = None"
proof -
  obtain d where d: "NewWsSendData marshal zlib (CompressData (ws_config s)) pm = Some d" using assms(2) by auto
  have "name \<in> set names" using assms(1,3) by (auto simp: range_order_def)
  from deliver_all_blocks [OF this, of "cache_push d s" p c d] assms(3-5) d show ?thesis
    by (simp add: enqueue_def)
qed

theorem full_channel_blocks_enqueue_witness:
  "\<exists>s p c. clients s ''4152cda6'' = Some p \<and> heap s p = Some c \<and> length (wc_live c) = live_cap \<and>
     enqueue demo_marshal Some [''4152cda6''] NewPeriodMessage s = None"
proof -
  let ?d = "\<lparr>wd_Period = 0, wd_Ts = 0, wd_Size = 1, wd_PostTs = 0, wd_Data = [0]\<rparr>"
  let ?c = "\<lparr>wc_user = hd (Users demo_ws), wc_start = 0, wc_cap = 2400, wc_live = replicate live_cap ?d, wc_open = True\<rparr>"
  let ?s = "(NewWsServer demo_ws)\<lparr>clients := [''4152cda6'' \<mapsto> 0], heap := [0 \<mapsto> ?c]\<rparr>"
  have "range_order [''4152cda6''] (clients ?s)" by (simp add: range_order_def)
  moreover have "NewWsSendData demo_marshal Some (CompressData (ws_config ?s)) NewPeriodMessage \<noteq> None"
    by (simp add: NewWsSendData_def demo_marshal_def)
  ultimately have "enqueue demo_marshal Some [''4152cda6''] NewPeriodMessage ?s = None"
    by (rule full_channel_blocks_enqueue [where name = "''4152cda6''" and p = 0 and c = ?c]) simp_all
  then show ?thesis by (intro exI [of _ ?s] exI [of _ 0] exI [of _ ?c]) simp
qed

section \<open>Frames\<close>

text \<open>What a client reads from a field of a frame: \<open>struct.unpack('!q', ...)\<close> of eight bytes.\<close>

definition be_val :: "bytes \<Rightarrow> int" where
  "be_val bs = foldl (\<lambda>a b. a * 256 + uint b) 0 bs"

definition read_q :: "nat \<Rightarrow> bytes \<Rightarrow> int" where
  "read_q k frame = i64 (be_val (take 8 (drop k frame)))"

lemma be_val_append: "be_val (xs @ [b]) = be_val xs * 256 + uint b"
  by (simp add: be_val_def)

lemma length_be_bytes [simp]: "length (be_bytes n x) = n"
  by (induction n arbitrary: x) auto

lemma be_val_bytes: "be_val (be_bytes n x) = x mod 256 ^ n"
proof (induction n arbitrary: x)
  case 0
  then show ?case by (simp add: be_val_def)
next
  case (Suc n)
  have "uint (word_of_int x :: 8 word) = x mod 256" by (simp add: uint_word_of_int)
  moreover have "x mod (256 * 256 ^ n) = 256 * (x div 256 mod 256 ^ n) + x mod 256"
    by (rule zmod_zmult2_eq) simp
  ultimately show ?case by (simp add: be_val_append Suc.IH mult.commute)
qed

lemma i64_be_val: "in_i64 x \<Longrightarrow> i64 (be_val (be_bytes 8 x)) = x"
proof -
  assume x: "in_i64 x"
  have "i64 (x mod 2 ^ 64) = i64 x" by (simp add: i64_def mod_simps)
  then show ?thesis using x by (simp add: be_val_bytes i64_id)
qed

lemma read_q_at: "length pre = k \<Longrightarrow> in_i64 x \<Longrightarrow> read_q k (pre @ be_bytes 8 x @ post) = x"
  by (simp add: read_q_def i64_be_val)

text \<open>C19. The frame a client receives with the header on: 26 bytes of header, then the data. Reading the
  three numbers at offsets 2, 10 and 18 in network order gives back the period, the start time
  and the time of sending, for every value of an \<open>int64\<close>; the version byte is 1 and the
  compression byte is 1, also when the data is not compressed.\<close>

theorem frame_roundtrip:
  assumes "SendMsgHdr cfg" and "in_i64 (wd_Period d)" and "in_i64 (wd_Ts d)" and "in_i64 now"
  shows "take 2 (send cfg now d) = [1, 1] \<and> read_q 2 (send cfg now d) = wd_Period d \<and>
         read_q 10 (send cfg now d) = wd_Ts d \<and> read_q 18 (send cfg now d) = now \<and>
         drop 26 (send cfg now d) = wd_Data d"
proof -
  let ?p = "be_bytes 8 (wd_Period d)" and ?t = "be_bytes 8 (wd_Ts d)" and ?n = "be_bytes 8 now"
  have hd: "be_bytes 1 1 = [1]" by simp
  have f: "send cfg now d = [1, 1] @ ?p @ ?t @ ?n @ wd_Data d"
    using assms(1) unfolding send_def sendHdr_def Let_def by (simp only: MessageHeaderFixed.simps hd if_True) simp
  have "read_q 2 (send cfg now d) = wd_Period d"
    unfolding f by (rule read_q_at) (use assms(2) in simp_all)
  moreover have "read_q 10 (send cfg now d) = wd_Ts d"
    unfolding f using read_q_at [of "[1, 1] @ ?p" 10 "wd_Ts d" "?n @ wd_Data d"] assms(3) by simp
  moreover have "read_q 18 (send cfg now d) = now"
    unfolding f using read_q_at [of "[1, 1] @ ?p @ ?t" 18 now "wd_Data d"] assms(4) by simp
  moreover have "take 2 (send cfg now d) = [1, 1]" "drop 26 (send cfg now d) = wd_Data d"
    unfolding f by simp_all
  ultimately show ?thesis by blast
qed

theorem frame_roundtrip_witness:
  "read_q 18 (send demo_ws 1704067204801 \<lparr>wd_Period = - 1, wd_Ts = 1704067200000, wd_Size = 1, wd_PostTs = 0, wd_Data = [7]\<rparr>) = 1704067204801"
  using frame_roundtrip [of demo_ws "\<lparr>wd_Period = - 1, wd_Ts = 1704067200000, wd_Size = 1, wd_PostTs = 0, wd_Data = [7]\<rparr>" 1704067204801]
  by (simp add: demo_ws_def in_i64_def)

end
