(* ===== verification/Ws_Sync.thy ===== *)
theory Ws_Sync
  imports Main "HOL-Library.Multiset" "HOL-Library.Sublist"
begin

text \<open>
  How a WebSocket client catches up with the cache (\<open>WsClient.run\<close> in
  \<open>cmd/QuoteAggrService/wsserver.go\<close>). Two goroutines share the channels of the client: the syncer
  copies the cached messages from \<open>start\<close> on and then what was put aside meanwhile, and the
  loop takes messages from either channel, sends those of \<open>msgCh\<close> and forwards or puts aside those
  of \<open>msgLiveCh\<close>. The step relation has one step per channel operation, lock or atomic store;
  a step that would block is not enabled. The type variable \<open>'d\<close> is the type of the messages;
  \<open>cap\<close> (at least 1) and \<open>lcap\<close> are the capacities of the channels and \<open>cache\<close> is the length of
  the queue of the server. \<open>arrived\<close> and \<open>snap\<close> record what was delivered to the client and what
  the syncer copied; the program does not have them.
\<close>

datatype 'd sync_pc = SyncStart | SyncCopy "'d list" | SyncDrain "'d list" | SyncStore | SyncDone

datatype 'd loop_pc = LoopSelect | LoopForward 'd | LoopAcc 'd

record 'd sync =
  cached :: "'d list"
  msgCh :: "'d list"
  msgLiveCh :: "'d list"
  accmsg :: "'d list"
  mtx_held :: bool
  pre_sync_ok :: bool
  syncer :: "'d sync_pc"
  looper :: "'d loop_pc"
  sent :: "'d list"
  arrived :: "'d list"
  snap :: "'d list"

text \<open>The state when \<open>run\<close> enters its loop; there is a syncer only when \<open>start\<close> is not zero.\<close>

definition run_init :: "int \<Rightarrow> 'd list \<Rightarrow> 'd sync" where
  "run_init start q =
     \<lparr>cached = q, msgCh = [], msgLiveCh = [], accmsg = [], mtx_held = False,
      pre_sync_ok = (start = 0), syncer = (if start = 0 then SyncDone else SyncStart),
      looper = LoopSelect, sent = [], arrived = [], snap = []\<rparr>"

inductive sync_step ::
  "nat \<Rightarrow> nat \<Rightarrow> nat \<Rightarrow> ('d \<Rightarrow> int) \<Rightarrow> int \<Rightarrow> 'd sync \<Rightarrow> 'd sync \<Rightarrow> bool"
  for cap lcap cache ts start where
  Deliver: "length (msgLiveCh s) < lcap \<Longrightarrow>
     sync_step cap lcap cache ts start s
       (s\<lparr>cached := drop (length (cached s @ [d]) - cache) (cached s @ [d]),
          msgLiveCh := msgLiveCh s @ [d], arrived := arrived s @ [d]\<rparr>)"
| Snapshot: "syncer s = SyncStart \<Longrightarrow>
     sync_step cap lcap cache ts start s
       (s\<lparr>syncer := SyncCopy (filter (\<lambda>d. start \<le> ts d) (cached s)),
          snap := filter (\<lambda>d. start \<le> ts d) (cached s)\<rparr>)"
| Copy: "syncer s = SyncCopy (d # ds) \<Longrightarrow> length (msgCh s) < cap \<Longrightarrow>
     sync_step cap lcap cache ts start s (s\<lparr>msgCh := msgCh s @ [d], syncer := SyncCopy ds\<rparr>)"
| Lock: "syncer s = SyncCopy [] \<Longrightarrow> \<not> mtx_held s \<Longrightarrow>
     sync_step cap lcap cache ts start s (s\<lparr>mtx_held := True, syncer := SyncDrain (accmsg s)\<rparr>)"
| Drain: "syncer s = SyncDrain (d # ds) \<Longrightarrow> length (msgCh s) < cap \<Longrightarrow>
     sync_step cap lcap cache ts start s (s\<lparr>msgCh := msgCh s @ [d], syncer := SyncDrain ds\<rparr>)"
| Unlock: "syncer s = SyncDrain [] \<Longrightarrow>
     sync_step cap lcap cache ts start s (s\<lparr>accmsg := [], mtx_held := False, syncer := SyncStore\<rparr>)"
| Store: "syncer s = SyncStore \<Longrightarrow>
     sync_step cap lcap cache ts start s (s\<lparr>pre_sync_ok := True, syncer := SyncDone\<rparr>)"
| TakeMsg: "looper s = LoopSelect \<Longrightarrow> msgCh s = d # ds \<Longrightarrow>
     sync_step cap lcap cache ts start s (s\<lparr>msgCh := ds, sent := sent s @ [d]\<rparr>)"
| TakeLive: "looper s = LoopSelect \<Longrightarrow> msgLiveCh s = d # ds \<Longrightarrow>
     sync_step cap lcap cache ts start s
       (s\<lparr>msgLiveCh := ds, looper := (if pre_sync_ok s then LoopForward d else LoopAcc d)\<rparr>)"
| Forward: "looper s = LoopForward d \<Longrightarrow> length (msgCh s) < cap \<Longrightarrow>
     sync_step cap lcap cache ts start s (s\<lparr>msgCh := msgCh s @ [d], looper := LoopSelect\<rparr>)"
| Acc: "looper s = LoopAcc d \<Longrightarrow> \<not> mtx_held s \<Longrightarrow>
     sync_step cap lcap cache ts start s (s\<lparr>accmsg := accmsg s @ [d], looper := LoopSelect\<rparr>)"

abbreviation sync_steps ::
  "nat \<Rightarrow> nat \<Rightarrow> nat \<Rightarrow> ('d \<Rightarrow> int) \<Rightarrow> int \<Rightarrow> 'd sync \<Rightarrow> 'd sync \<Rightarrow> bool" where
  "sync_steps cap lcap cache ts start \<equiv> (sync_step cap lcap cache ts start)\<^sup>*\<^sup>*"

text \<open>The same steps as a function of a schedule: each name is a rule of the relation, \<open>None\<close> where it is not
  enabled.\<close>

datatype 'd sync_label =
    DoDeliver 'd | DoSnapshot | DoCopy | DoLock | DoDrain | DoUnlock | DoStore | DoTakeMsg | DoTakeLive | DoForward | DoAcc

fun sync_exec :: "nat \<Rightarrow> nat \<Rightarrow> nat \<Rightarrow> ('d \<Rightarrow> int) \<Rightarrow> int \<Rightarrow> 'd sync \<Rightarrow> 'd sync_label \<Rightarrow> 'd sync option" where
  "sync_exec cap lcap cache ts start s (DoDeliver d) =
     (if length (msgLiveCh s) < lcap
      then Some (s\<lparr>cached := drop (length (cached s @ [d]) - cache) (cached s @ [d]),
                   msgLiveCh := msgLiveCh s @ [d], arrived := arrived s @ [d]\<rparr>) else None)"
| "sync_exec cap lcap cache ts start s DoSnapshot =
     (if syncer s = SyncStart
      then Some (s\<lparr>syncer := SyncCopy (filter (\<lambda>d. start \<le> ts d) (cached s)),
                   snap := filter (\<lambda>d. start \<le> ts d) (cached s)\<rparr>) else None)"
| "sync_exec cap lcap cache ts start s DoCopy =
     (case syncer s of SyncCopy (d # ds) \<Rightarrow>
        if length (msgCh s) < cap then Some (s\<lparr>msgCh := msgCh s @ [d], syncer := SyncCopy ds\<rparr>) else None | _ \<Rightarrow> None)"
| "sync_exec cap lcap cache ts start s DoLock =
     (if syncer s = SyncCopy [] \<and> \<not> mtx_held s
      then Some (s\<lparr>mtx_held := True, syncer := SyncDrain (accmsg s)\<rparr>) else None)"
| "sync_exec cap lcap cache ts start s DoDrain =
     (case syncer s of SyncDrain (d # ds) \<Rightarrow>
        if length (msgCh s) < cap then Some (s\<lparr>msgCh := msgCh s @ [d], syncer := SyncDrain ds\<rparr>) else None | _ \<Rightarrow> None)"
| "sync_exec cap lcap cache ts start s DoUnlock =
     (if syncer s = SyncDrain [] then Some (s\<lparr>accmsg := [], mtx_held := False, syncer := SyncStore\<rparr>) else None)"
| "sync_exec cap lcap cache ts start s DoStore =
     (if syncer s = SyncStore then Some (s\<lparr>pre_sync_ok := True, syncer := SyncDone\<rparr>) else None)"
| "sync_exec cap lcap cache ts start s DoTakeMsg =
     (case (looper s, msgCh s) of (LoopSelect, d # ds) \<Rightarrow> Some (s\<lparr>msgCh := ds, sent := sent s @ [d]\<rparr>) | _ \<Rightarrow> None)"
| "sync_exec cap lcap cache ts start s DoTakeLive =
     (case (looper s, msgLiveCh s) of (LoopSelect, d # ds) \<Rightarrow>
        Some (s\<lparr>msgLiveCh := ds, looper := (if pre_sync_ok s then LoopForward d else LoopAcc d)\<rparr>) | _ \<Rightarrow> None)"
| "sync_exec cap lcap cache ts start s DoForward =
     (case looper s of LoopForward d \<Rightarrow>
        if length (msgCh s) < cap then Some (s\<lparr>msgCh := msgCh s @ [d], looper := LoopSelect\<rparr>) else None | _ \<Rightarrow> None)"
| "sync_exec cap lcap cache ts start s DoAcc =
     (case looper s of LoopAcc d \<Rightarrow>
        if \<not> mtx_held s then Some (s\<lparr>accmsg := accmsg s @ [d], looper := LoopSelect\<rparr>) else None | _ \<Rightarrow> None)"

fun sync_schedule :: "nat \<Rightarrow> nat \<Rightarrow> nat \<Rightarrow> ('d \<Rightarrow> int) \<Rightarrow> int \<Rightarrow> 'd sync \<Rightarrow> 'd sync_label list \<Rightarrow> 'd sync option" where
  "sync_schedule cap lcap cache ts start s [] = Some s"
| "sync_schedule cap lcap cache ts start s (l # ls) =
     Option.bind (sync_exec cap lcap cache ts start s l) (\<lambda>s'. sync_schedule cap lcap cache ts start s' ls)"

lemma sync_exec_sound: "sync_exec cap lcap cache ts start s l = Some s' \<Longrightarrow> sync_step cap lcap cache ts start s s'"
  using sync_step.Deliver [of s lcap cap cache ts start] sync_step.TakeLive [of s _ _ cap lcap cache ts start]
  by (cases l) (auto split: if_splits sync_pc.splits loop_pc.splits list.splits intro: sync_step.intros)

lemma sync_exec_complete: "sync_step cap lcap cache ts start s s' \<Longrightarrow> \<exists>l. sync_exec cap lcap cache ts start s l = Some s'"
proof (induction rule: sync_step.cases)
  case (Deliver s d)
  then show ?case by (intro exI [of _ "DoDeliver d"]) simp
next
  case (Snapshot s)
  then show ?case by (intro exI [of _ DoSnapshot]) simp
next
  case (Copy s d ds)
  then show ?case by (intro exI [of _ DoCopy]) simp
next
  case (Lock s)
  then show ?case by (intro exI [of _ DoLock]) simp
next
  case (Drain s d ds)
  then show ?case by (intro exI [of _ DoDrain]) simp
next
  case (Unlock s)
  then show ?case by (intro exI [of _ DoUnlock]) simp
next
  case (Store s)
  then show ?case by (intro exI [of _ DoStore]) simp
next
  case (TakeMsg s d ds)
  then show ?case by (intro exI [of _ DoTakeMsg]) simp
next
  case (TakeLive s d ds)
  then show ?case by (intro exI [of _ DoTakeLive]) simp
next
  case (Forward s d)
  then show ?case by (intro exI [of _ DoForward]) simp
next
  case (Acc s d)
  then show ?case by (intro exI [of _ DoAcc]) simp
qed

lemma sync_schedule_steps:
  "sync_schedule cap lcap cache ts start s ls = Some s' \<Longrightarrow> sync_steps cap lcap cache ts start s s'"
proof (induction ls arbitrary: s)
  case (Cons l ls)
  then obtain s1 where "sync_exec cap lcap cache ts start s l = Some s1"
    "sync_schedule cap lcap cache ts start s1 ls = Some s'" by (auto split: bind_splits)
  with sync_exec_sound Cons.IH show ?case by (meson converse_rtranclp_into_rtranclp)
qed simp

section \<open>Invariants\<close>

text \<open>What the syncer and the loop hold in their hands.\<close>

definition syncing :: "'d sync \<Rightarrow> 'd multiset" where
  "syncing s = (case syncer s of
      SyncCopy ds \<Rightarrow> mset ds + mset (accmsg s) | SyncDrain ds \<Rightarrow> mset ds | _ \<Rightarrow> mset (accmsg s))"

definition looping :: "'d sync \<Rightarrow> 'd multiset" where
  "looping s = (case looper s of LoopSelect \<Rightarrow> {#} | LoopForward d \<Rightarrow> {#d#} | LoopAcc d \<Rightarrow> {#d#})"

definition balance :: "'d sync \<Rightarrow> bool" where
  "balance s \<longleftrightarrow>
     mset (sent s) + mset (msgCh s) + mset (msgLiveCh s) + syncing s + looping s = mset (arrived s) + mset (snap s)"

text \<open>The mutex is held exactly while draining, the flag is set exactly at the end, nothing is forwarded
  before that, and nothing is copied before the snapshot.\<close>

definition control :: "'d sync \<Rightarrow> bool" where
  "control s \<longleftrightarrow>
     (mtx_held s \<longleftrightarrow> (\<exists>ds. syncer s = SyncDrain ds)) \<and> (pre_sync_ok s \<longleftrightarrow> syncer s = SyncDone) \<and>
     (\<forall>d. looper s = LoopForward d \<longrightarrow> syncer s = SyncDone) \<and> (syncer s = SyncStart \<longrightarrow> snap s = [])"

text \<open>The cached messages come first and in their order.\<close>

definition ordered :: "'d sync \<Rightarrow> bool" where
  "ordered s \<longleftrightarrow> (case syncer s of
      SyncStart \<Rightarrow> sent s @ msgCh s = []
    | SyncCopy ds \<Rightarrow> sent s @ msgCh s @ ds = snap s
    | _ \<Rightarrow> prefix (snap s) (sent s @ msgCh s))"

lemma control_step:
  assumes "sync_step cap lcap cache ts start s s'" and "control s"
  shows "control s'"
  using assms by (cases rule: sync_step.cases) (auto simp: control_def)

lemma balance_step:
  assumes "sync_step cap lcap cache ts start s s'" and "control s" and "balance s"
  shows "balance s'"
  using assms
  by (cases rule: sync_step.cases)
    (auto simp: balance_def control_def syncing_def looping_def ac_simps split: sync_pc.splits)

lemma prefix_snoc: "prefix xs (as @ bs) \<Longrightarrow> prefix xs (as @ bs @ [d])"
  using prefix_prefix [of xs "as @ bs" "[d]"] by simp

lemma ordered_step:
  assumes "sync_step cap lcap cache ts start s s'" and "control s" and "ordered s"
  shows "ordered s'"
  using assms
  by (cases rule: sync_step.cases)
    (auto simp: ordered_def control_def prefix_snoc split: sync_pc.splits)

lemma sync_steps_inv:
  assumes "sync_steps cap lcap cache ts start (run_init start q) s"
  shows "control s \<and> balance s \<and> ordered s"
  using assms
proof (induction rule: rtranclp_induct)
  case base
  show ?case by (auto simp: run_init_def control_def balance_def ordered_def syncing_def looping_def)
next
  case (step s s')
  then have "control s" "balance s" "ordered s" by simp_all
  with control_step [OF step(2)] balance_step [OF step(2)] ordered_step [OF step(2)] show ?case by simp
qed

text \<open>Once the syncer is done, what was put aside stays there.\<close>

lemma put_aside_stays:
  assumes "sync_steps cap lcap cache ts start s s'" and "syncer s = SyncDone"
  shows "syncer s' = SyncDone \<and> prefix (accmsg s) (accmsg s')"
  using assms
proof (induction rule: rtranclp_induct)
  case base
  then show ?case by simp
next
  case (step s1 s2)
  then have "syncer s1 = SyncDone" "prefix (accmsg s) (accmsg s1)" by simp_all
  with step(2) show ?case by (cases rule: sync_step.cases) (auto intro: prefix_prefix)
qed

text \<open>A full channel that only the loop itself could empty.\<close>

lemma stuck_stays:
  assumes "sync_steps cap lcap cache ts start s s'" and "syncer s = SyncDone"
    and "looper s = LoopForward d" and "length (msgCh s) = cap"
  shows "syncer s' = SyncDone \<and> looper s' = LoopForward d \<and> msgCh s' = msgCh s \<and> sent s' = sent s"
  using assms
proof (induction rule: rtranclp_induct)
  case base
  then show ?case by simp
next
  case (step s1 s2)
  then have "syncer s1 = SyncDone" "looper s1 = LoopForward d" "msgCh s1 = msgCh s" "sent s1 = sent s" by simp_all
  with step(2,6) show ?case by (cases rule: sync_step.cases) auto
qed

section \<open>Properties\<close>

text \<open>C20. Conservation. In every state a client can reach, the messages it has sent, those in its two
  channels, those put aside and those in the hands of the two goroutines are together exactly
  the messages delivered to it and the cached messages from \<open>start\<close> on: nothing is
  dropped on the way and nothing is invented.\<close>

theorem client_messages_conserved:
  assumes "sync_steps cap lcap cache ts start (run_init start q) s"
  shows "mset (sent s) + mset (msgCh s) + mset (msgLiveCh s) + syncing s + looping s =
         mset (arrived s) + mset (snap s)"
  using sync_steps_inv [OF assms] by (simp add: balance_def)

lemma demo_copy:
  "sync_steps 2 3 9 id 1 (run_init 1 [0, 1, 2 :: int])
     \<lparr>cached = [0, 1, 2], msgCh = [1, 2], msgLiveCh = [], accmsg = [], mtx_held = False, pre_sync_ok = False,
      syncer = SyncCopy [], looper = LoopSelect, sent = [], arrived = [], snap = [1, 2]\<rparr>"
  by (rule sync_schedule_steps [where ls = "[DoSnapshot, DoCopy, DoCopy]"]) (simp add: run_init_def)

theorem client_messages_conserved_witness:
  "\<exists>s. sync_steps 2 3 9 id 1 (run_init 1 [0, 1, 2 :: int]) s \<and> msgCh s = [1, 2] \<and>
     mset (sent s) + {#1, 2#} + mset (msgLiveCh s) + syncing s + looping s = mset (arrived s) + mset (snap s)"
  by (rule exI [of _ "\<lparr>cached = [0, 1, 2], msgCh = [1, 2], msgLiveCh = [], accmsg = [], mtx_held = False,
        pre_sync_ok = False, syncer = SyncCopy [], looper = LoopSelect, sent = [], arrived = [], snap = [1, 2]\<rparr>"])
    (use client_messages_conserved [OF demo_copy] demo_copy in simp)



text \<open>C22. Completeness, and the race that spoils it. When the syncer is done and both channels are empty
  and the loop waits, a client has sent everything exactly when nothing is left aside; and what
  is aside then is never sent: it stays aside in every later state.\<close>

theorem idle_client_complete:
  assumes "sync_steps cap lcap cache ts start (run_init start q) s"
    and "syncer s = SyncDone" and "looper s = LoopSelect" and "msgCh s = []" and "msgLiveCh s = []"
  shows "(mset (sent s) = mset (arrived s) + mset (snap s) \<longleftrightarrow> accmsg s = []) \<and>
         (\<forall>s'. sync_steps cap lcap cache ts start s s' \<longrightarrow> prefix (accmsg s) (accmsg s'))"
proof -
  have "mset (sent s) + mset (accmsg s) = mset (arrived s) + mset (snap s)"
    using sync_steps_inv [OF assms(1)] assms(2-5) by (simp add: balance_def syncing_def looping_def)
  then have "mset (sent s) = mset (arrived s) + mset (snap s) \<longleftrightarrow> accmsg s = []"
    by (metis add_cancel_left_right mset_zero_iff)
  then show ?thesis using put_aside_stays [OF _ assms(2)] by blast
qed

text \<open>The loop reads the flag before the syncer sets it, and gets the mutex after the syncer has
  drained: the message is put aside for good.\<close>

abbreviation lost_state :: "int sync" where
  "lost_state \<equiv> \<lparr>cached = [5], msgCh = [], msgLiveCh = [], accmsg = [5], mtx_held = False, pre_sync_ok = True,
     syncer = SyncDone, looper = LoopSelect, sent = [], arrived = [5], snap = []\<rparr>"

lemma lost_reachable: "sync_steps 2 3 9 id 1 (run_init 1 []) lost_state"
  by (rule sync_schedule_steps [where ls = "[DoSnapshot, DoDeliver 5, DoTakeLive, DoLock, DoUnlock, DoAcc, DoStore]"])
    (simp add: run_init_def)

theorem idle_client_complete_witness:
  "\<exists>s. sync_steps 2 3 9 id 1 (run_init 1 []) s \<and> arrived s = [5 :: int] \<and> sent s = [] \<and> accmsg s = [5] \<and>
     mset (sent s) \<noteq> mset (arrived s) + mset (snap s)"
  by (rule exI [of _ lost_state]) (use idle_client_complete [OF lost_reachable] lost_reachable in simp)

text \<open>A message that is enqueued after the client is registered and before the syncer looks at the
  cache is sent twice: it is in the cache and in the live channel.\<close>

theorem delivered_twice:
  "\<exists>s. sync_steps 2 3 9 id 1 (run_init 1 []) s \<and> arrived s = [5 :: int] \<and> sent s = [5, 5]"
proof (intro exI conjI)
  let ?s = "\<lparr>cached = [5], msgCh = [], msgLiveCh = [], accmsg = [], mtx_held = False, pre_sync_ok = True,
     syncer = SyncDone, looper = LoopSelect, sent = [5, 5], arrived = [5], snap = [5]\<rparr> :: int sync"
  show "sync_steps 2 3 9 id 1 (run_init 1 []) ?s"
    by (rule sync_schedule_steps [where ls = "[DoDeliver 5, DoSnapshot, DoCopy, DoLock, DoUnlock, DoStore,
        DoTakeLive, DoForward, DoTakeMsg, DoTakeMsg]"]) (simp add: run_init_def)
qed simp_all

text \<open>The loop can block itself for ever: it is the only reader of \<open>msgCh\<close>, and when it forwards a live
  message into a full \<open>msgCh\<close> after the syncer is done, no later state sends anything more.\<close>

theorem full_client_is_stuck:
  assumes "syncer s = SyncDone" and "looper s = LoopForward d" and "length (msgCh s) = cap"
    and "sync_steps cap lcap cache ts start s s'"
  shows "sent s' = sent s \<and> looper s' = LoopForward d"
  using stuck_stays [OF assms(4,1-3)] by simp

abbreviation stuck_state :: "int sync" where
  "stuck_state \<equiv> \<lparr>cached = [5, 6], msgCh = [5], msgLiveCh = [], accmsg = [], mtx_held = False, pre_sync_ok = True,
     syncer = SyncDone, looper = LoopForward 6, sent = [], arrived = [5, 6], snap = []\<rparr>"

theorem full_client_is_stuck_witness:
  "sync_steps 1 3 9 id 0 (run_init 0 []) stuck_state \<and>
     (\<forall>s'. \<not> (sync_steps 1 3 9 id 0 stuck_state s' \<and> sent s' \<noteq> []))"
proof
  show "sync_steps 1 3 9 id 0 (run_init 0 []) stuck_state"
    by (rule sync_schedule_steps [where ls = "[DoDeliver 5, DoDeliver 6, DoTakeLive, DoForward, DoTakeLive]"]) (simp add: run_init_def)
  show "\<forall>s'. \<not> (sync_steps 1 3 9 id 0 stuck_state s' \<and> sent s' \<noteq> [])"
    using full_client_is_stuck [of stuck_state 6 1 3 9 id 0] by auto
qed

end
