(* ===== verification/Rate_Limit.thy ===== *)
theory Rate_Limit
  imports Go_Prelude
begin

text \<open>
  The rate limiter (\<open>ratelimit.go\<close>, the same file in both services): the limits the exchange
  announces, the timer that resets the counters, and \<open>Consume\<close>, which charges a call. Each method
  holds the mutex for its whole body (\<open>Open\<close> for each tick).
\<close>

section \<open>Definitions\<close>

record LimitConfig =
  lc_interval :: int
  lc_count :: int
  lc_limit :: int
  lc_current :: int

text \<open>The fields that are read of an announced limit.\<close>

record RateLimit =
  rl_RateLimitType :: string
  rl_Interval :: string
  rl_IntervalNum :: int
  rl_Limit :: int

text \<open>\<open>rlm_close\<close> is the channel \<open>close\<close>: whether it has been made.\<close>

record RateLimitManager =
  rlm_close :: bool
  order_intervals :: "string \<rightharpoonup> LimitConfig"
  req_weight_intervals :: "string \<rightharpoonup> LimitConfig"

definition NewRateLimitManager :: RateLimitManager where
  "NewRateLimitManager = \<lparr>rlm_close = False, order_intervals = Map.empty, req_weight_intervals = Map.empty\<rparr>"

definition limit_config :: "RateLimit \<Rightarrow> LimitConfig" where
  "limit_config rl = \<lparr>lc_interval = rl_IntervalNum rl, lc_count = 0, lc_limit = rl_Limit rl, lc_current = 0\<rparr>"

definition known_interval :: "string \<Rightarrow> bool" where
  "known_interval i \<longleftrightarrow> i = ''SECOND'' \<or> i = ''MINUTE'' \<or> i = ''HOUR'' \<or> i = ''DAY''"

fun UpdateRateLimitManager :: "RateLimit list \<Rightarrow> RateLimitManager \<Rightarrow> RateLimitManager" where
  "UpdateRateLimitManager [] rlm = rlm"
| "UpdateRateLimitManager (rl # rls) rlm =
     UpdateRateLimitManager rls
       (if rl_RateLimitType rl = ''REQUEST_WEIGHT'' then
          (if known_interval (rl_Interval rl)
           then rlm\<lparr>req_weight_intervals := (req_weight_intervals rlm)(rl_Interval rl \<mapsto> limit_config rl)\<rparr> else rlm)
        else if rl_RateLimitType rl = ''ORDERS'' then
          (if known_interval (rl_Interval rl)
           then rlm\<lparr>order_intervals := (order_intervals rlm)(rl_Interval rl \<mapsto> limit_config rl)\<rparr> else rlm)
        else rlm)"

text \<open>One counter at a tick of the timer; \<open>secs\<close> is the second of the day, \<open>unit\<close> 1 or 60.\<close>

definition tick_limit :: "int \<Rightarrow> int \<Rightarrow> LimitConfig \<Rightarrow> LimitConfig go" where
  "tick_limit secs unit tv =
     (let intv = i64 (lc_interval tv * unit)
      in if intv = 0 then Inl DivideByZero
         else Inr (tv\<lparr>lc_count := (if go_mod secs intv = 0 then 0 else lc_count tv),
                      lc_current := i64 (go_div secs intv * intv)\<rparr>))"

definition tick_key :: "int \<Rightarrow> int \<Rightarrow> string \<Rightarrow> (string \<rightharpoonup> LimitConfig) \<Rightarrow> (string \<rightharpoonup> LimitConfig) go" where
  "tick_key secs unit k m =
     (case m k of
        None \<Rightarrow> Inr m
      | Some tv \<Rightarrow> (case tick_limit secs unit tv of Inl p \<Rightarrow> Inl p | Inr tv' \<Rightarrow> Inr (m(k \<mapsto> tv'))))"

definition tick_intervals :: "int \<Rightarrow> string \<Rightarrow> (string \<rightharpoonup> LimitConfig) \<Rightarrow> (string \<rightharpoonup> LimitConfig) go" where
  "tick_intervals secs msg m =
     (case tick_key secs 1 ''SECOND'' m of
        Inl p \<Rightarrow> Inl p
      | Inr m1 \<Rightarrow>
          (case tick_key secs 60 ''MINUTE'' m1 of
             Inl p \<Rightarrow> Inl p
           | Inr m2 \<Rightarrow> (case m2 ''HOUR'' of None \<Rightarrow> Inr m2 | Some _ \<Rightarrow> Inl (Panicked msg))))"

text \<open>The body of the timer case of \<open>Open\<close>.\<close>

definition Open_tick :: "int \<Rightarrow> RateLimitManager \<Rightarrow> RateLimitManager go" where
  "Open_tick secs rlm =
     (case tick_intervals secs ''order_intervals HOUR not implemented!'' (order_intervals rlm) of
        Inl p \<Rightarrow> Inl p
      | Inr om \<Rightarrow>
          (case tick_intervals secs ''req_weight_intervals HOUR not implemented!'' (req_weight_intervals rlm) of
             Inl p \<Rightarrow> Inl p
           | Inr wm \<Rightarrow> Inr (rlm\<lparr>order_intervals := om, req_weight_intervals := wm\<rparr>)))"

text \<open>A check of \<open>Consume\<close>: refuse when \<open>count + need\<close> exceeds the limit, otherwise charge \<open>charge\<close>.
  \<open>None\<close> is the refusal.\<close>

definition charge_key :: "int \<Rightarrow> int \<Rightarrow> string \<Rightarrow> (string \<rightharpoonup> LimitConfig) \<Rightarrow> (string \<rightharpoonup> LimitConfig) option" where
  "charge_key need charge k m =
     (case m k of
        None \<Rightarrow> Some m
      | Some tv \<Rightarrow>
          if lc_limit tv < i64 (lc_count tv + need) then None
          else Some (m(k \<mapsto> tv\<lparr>lc_count := i64 (lc_count tv + charge)\<rparr>)))"

definition Consume_weight :: "int \<Rightarrow> RateLimitManager \<Rightarrow> RateLimitManager \<times> string option" where
  "Consume_weight weight rlm =
     (if weight > 0 then
        (case charge_key weight weight ''MINUTE'' (req_weight_intervals rlm) of
           None \<Rightarrow> (rlm, Some ''REQWEIGHT_MINUTE_LIMIT_EXCEEDED'')
         | Some m1 \<Rightarrow>
             (case charge_key weight weight ''SECOND'' m1 of
                None \<Rightarrow> (rlm\<lparr>req_weight_intervals := m1\<rparr>, Some ''REQWEIGHT_SECOND_LIMIT_EXCEEDED'')
              | Some m2 \<Rightarrow> (rlm\<lparr>req_weight_intervals := m2\<rparr>, None)))
      else (rlm, None))"

definition Consume_orders :: "int \<Rightarrow> RateLimitManager \<Rightarrow> RateLimitManager \<times> string option" where
  "Consume_orders limit rlm =
     (if limit > 0 then
        (case charge_key 1 limit ''MINUTE'' (order_intervals rlm) of
           None \<Rightarrow> (rlm, Some ''ORDER_MINUTE_LIMIT_EXCEEDED'')
         | Some m1 \<Rightarrow>
             (case charge_key 1 limit ''SECOND'' (req_weight_intervals rlm) of
                None \<Rightarrow> (rlm\<lparr>order_intervals := m1\<rparr>, Some ''ORDER_SECOND_LIMIT_EXCEEDED'')
              | Some m2 \<Rightarrow> (rlm\<lparr>order_intervals := m1, req_weight_intervals := m2\<rparr>, None)))
      else (rlm, None))"

text \<open>The error, \<open>None\<close> where \<open>Consume\<close> returns true.\<close>

definition Consume :: "int \<Rightarrow> int \<Rightarrow> RateLimitManager \<Rightarrow> RateLimitManager \<times> string option" where
  "Consume weight limit rlm =
     (case Consume_weight weight rlm of
        (rlm1, Some e) \<Rightarrow> (rlm1, Some e)
      | (rlm1, None) \<Rightarrow> Consume_orders limit rlm1)"

section \<open>Runs\<close>

text \<open>\<open>Close\<close> sends on the channel \<open>close\<close>, \<open>waiting\<close> says whether \<open>Open\<close> is at its select. \<open>None\<close>: the send blocks; a send on a channel
  that was not made blocks for ever.\<close>

definition rlm_Close :: "bool \<Rightarrow> RateLimitManager \<Rightarrow> RateLimitManager option" where
  "rlm_Close waiting rlm = (if rlm_close rlm \<and> waiting then Some rlm else None)"

datatype rate_event = RConsume int int | RTick int

fun rate_step :: "RateLimitManager \<Rightarrow> rate_event \<Rightarrow> (RateLimitManager \<times> string option) go" where
  "rate_step rlm (RConsume w l) = Inr (Consume w l rlm)"
| "rate_step rlm (RTick secs) = (case Open_tick secs rlm of Inl p \<Rightarrow> Inl p | Inr r \<Rightarrow> Inr (r, None))"

text \<open>The counter of the weight per minute is between zero and its limit.\<close>

definition minute_ok :: "RateLimitManager \<Rightarrow> bool" where
  "minute_ok rlm \<longleftrightarrow>
     (\<forall>tv. req_weight_intervals rlm ''MINUTE'' = Some tv \<longrightarrow>
        0 \<le> lc_count tv \<and> lc_count tv \<le> lc_limit tv \<and> lc_limit tv \<le> 2 ^ 61)"

fun rate_event_ok :: "rate_event \<Rightarrow> bool" where
  "rate_event_ok (RConsume w l) \<longleftrightarrow> w \<le> 2 ^ 61"
| "rate_event_ok (RTick secs) \<longleftrightarrow> True"

lemma charge_key_other: "charge_key need charge k m = Some m' \<Longrightarrow> k' \<noteq> k \<Longrightarrow> m' k' = m k'"
  by (auto simp: charge_key_def split: option.splits if_splits)

lemma charge_minute:
  assumes "charge_key w w ''MINUTE'' m = Some m'" and "0 < w" and "w \<le> 2 ^ 61"
    and "\<forall>tv. m ''MINUTE'' = Some tv \<longrightarrow> 0 \<le> lc_count tv \<and> lc_count tv \<le> lc_limit tv \<and> lc_limit tv \<le> 2 ^ 61"
  shows "\<forall>tv. m' ''MINUTE'' = Some tv \<longrightarrow> 0 \<le> lc_count tv \<and> lc_count tv \<le> lc_limit tv \<and> lc_limit tv \<le> 2 ^ 61"
proof (cases "m ''MINUTE''")
  case None
  with assms(1) show ?thesis by (simp add: charge_key_def)
next
  case (Some tv)
  with assms have "i64 (lc_count tv + w) = lc_count tv + w" by (intro i64_small) auto
  with Some assms show ?thesis by (auto simp: charge_key_def split: if_splits)
qed

lemma Consume_minute:
  assumes "minute_ok rlm" and "w \<le> 2 ^ 61"
  shows "minute_ok (fst (Consume w l rlm))"
proof -
  have ch: "minute_ok (r\<lparr>req_weight_intervals := m'\<rparr>)"
    if "minute_ok r" "charge_key need c ''SECOND'' (req_weight_intervals r) = Some m'" for r need c m'
    using that charge_key_other [OF that(2), of "''MINUTE''"] by (simp add: minute_ok_def)
  have w: "minute_ok (fst (Consume_weight w rlm))"
  proof (cases "0 < w \<and> charge_key w w ''MINUTE'' (req_weight_intervals rlm) \<noteq> None")
    case True
    then obtain m1 where m1: "charge_key w w ''MINUTE'' (req_weight_intervals rlm) = Some m1" by auto
    let ?r = "rlm\<lparr>req_weight_intervals := m1\<rparr>"
    have eq: "req_weight_intervals ?r = m1" by simp
    have r: "minute_ok ?r"
      unfolding minute_ok_def eq
      by (rule charge_minute [OF m1 _ assms(2) assms(1) [unfolded minute_ok_def]]) (use True in blast)
    show ?thesis
    proof (cases "charge_key w w ''SECOND'' m1")
      case None
      with r True m1 show ?thesis by (simp add: Consume_weight_def)
    next
      case (Some m2)
      then have "minute_ok (?r\<lparr>req_weight_intervals := m2\<rparr>)" by (intro ch [OF r]) simp
      with Some True m1 show ?thesis by (simp add: Consume_weight_def)
    qed
  next
    case False
    with assms(1) show ?thesis by (auto simp: Consume_weight_def)
  qed
  have o: "minute_ok (fst (Consume_orders l r))" if r: "minute_ok r" for r
  proof -
    have om: "minute_ok (r'\<lparr>order_intervals := m\<rparr>)" if "minute_ok r'" for m r'
      using that by (simp add: minute_ok_def)
    have "minute_ok (r\<lparr>order_intervals := m1, req_weight_intervals := m2\<rparr>)"
      if "charge_key 1 l ''SECOND'' (req_weight_intervals r) = Some m2" for m1 m2
      using ch [OF om [OF r]] that by simp
    with r om [OF r] show ?thesis by (simp add: Consume_orders_def split: option.splits)
  qed
  from w o show ?thesis by (auto simp: Consume_def split: prod.splits option.splits)
qed

lemma tick_key_minute:
  assumes "tick_key secs unit k m = Inr m'" and "minute_ok (r\<lparr>req_weight_intervals := m\<rparr>)"
  shows "minute_ok (r\<lparr>req_weight_intervals := m'\<rparr>)"
  using assms by (auto simp: tick_key_def tick_limit_def minute_ok_def Let_def split: option.splits if_splits)

lemma tick_minute:
  assumes "minute_ok rlm" and "Open_tick secs rlm = Inr rlm'"
  shows "minute_ok rlm'"
proof -
  from assms(2) obtain om wm where
    wm: "tick_intervals secs ''req_weight_intervals HOUR not implemented!'' (req_weight_intervals rlm) = Inr wm"
    and rlm': "rlm' = rlm\<lparr>order_intervals := om, req_weight_intervals := wm\<rparr>"
    by (auto simp: Open_tick_def split: sum.splits)
  from wm obtain m1 where
    m1: "tick_key secs 1 ''SECOND'' (req_weight_intervals rlm) = Inr m1" "tick_key secs 60 ''MINUTE'' m1 = Inr wm"
    by (auto simp: tick_intervals_def split: sum.splits option.splits)
  have "minute_ok (rlm\<lparr>req_weight_intervals := wm\<rparr>)"
    by (rule tick_key_minute [OF m1(2)], rule tick_key_minute [OF m1(1)]) (use assms(1) in simp)
  then show ?thesis by (simp add: rlm' minute_ok_def)
qed

lemma rate_run_minute:
  assumes "minute_ok rlm" and "list_all rate_event_ok es" and "go_run rate_step rlm es = Inr (rlm', errs)"
  shows "minute_ok rlm'"
  using assms
proof (induction es arbitrary: rlm errs)
  case Nil
  then show ?case by simp
next
  case (Cons e es)
  then obtain r out errs' where r: "rate_step rlm e = Inr (r, out)" "go_run rate_step r es = Inr (rlm', errs')"
    by (auto split: sum.splits prod.splits)
  have "minute_ok r"
  proof (cases e)
    case (RConsume w l)
    with r(1) Cons.prems Consume_minute [of rlm w l] show ?thesis by auto
  next
    case (RTick secs)
    with r(1) Cons.prems tick_minute [of rlm secs r] show ?thesis by (auto split: sum.splits)
  qed
  with Cons r(2) show ?thesis by simp
qed

section \<open>Properties\<close>

definition demo_limits :: "RateLimit list" where
  "demo_limits =
     [\<lparr>rl_RateLimitType = ''REQUEST_WEIGHT'', rl_Interval = ''MINUTE'', rl_IntervalNum = 1, rl_Limit = 10\<rparr>,
      \<lparr>rl_RateLimitType = ''REQUEST_WEIGHT'', rl_Interval = ''SECOND'', rl_IntervalNum = 10, rl_Limit = 4\<rparr>,
      \<lparr>rl_RateLimitType = ''ORDERS'', rl_Interval = ''SECOND'', rl_IntervalNum = 10, rl_Limit = 1\<rparr>]"

definition demo_rlm :: RateLimitManager where
  "demo_rlm = UpdateRateLimitManager demo_limits NewRateLimitManager"



text \<open>A refused call may have been charged: when the weight fits the minute but not the second,
  \<open>Consume\<close> returns an error and the minute counter has gone up by the weight all the same.\<close>

theorem refused_call_is_charged:
  assumes "0 < weight" and "req_weight_intervals rlm ''MINUTE'' = Some tm" and "req_weight_intervals rlm ''SECOND'' = Some ts"
    and "i64 (lc_count tm + weight) \<le> lc_limit tm" and "lc_limit ts < i64 (lc_count ts + weight)"
  shows "snd (Consume weight limit rlm) = Some ''REQWEIGHT_SECOND_LIMIT_EXCEEDED'' \<and>
         req_weight_intervals (fst (Consume weight limit rlm)) ''MINUTE'' =
           Some (tm\<lparr>lc_count := i64 (lc_count tm + weight)\<rparr>)"
  using assms by (simp add: Consume_def Consume_weight_def charge_key_def)

theorem refused_call_is_charged_witness:
  "snd (Consume 5 0 demo_rlm) = Some ''REQWEIGHT_SECOND_LIMIT_EXCEEDED'' \<and>
   map_option lc_count (req_weight_intervals (fst (Consume 5 0 demo_rlm)) ''MINUTE'') = Some 5"
  using refused_call_is_charged [of 5 demo_rlm
      "\<lparr>lc_interval = 1, lc_count = 0, lc_limit = 10, lc_current = 0\<rparr>" "\<lparr>lc_interval = 10, lc_count = 0, lc_limit = 4, lc_current = 0\<rparr>" 0]
  by (simp add: demo_rlm_def demo_limits_def NewRateLimitManager_def limit_config_def known_interval_def i64_def)

text \<open>The limit on orders per second is never enforced: whatever \<open>order_intervals\<close> holds for
  \<open>SECOND\<close>, \<open>Consume\<close> gives the same answer and leaves that counter alone; the check of that name
  reads and charges the weight per second instead.\<close>

theorem order_second_limit_ignored:
  "snd (Consume weight limit (rlm\<lparr>order_intervals := (order_intervals rlm)(''SECOND'' := x)\<rparr>)) =
     snd (Consume weight limit rlm) \<and>
   order_intervals (fst (Consume weight limit rlm)) ''SECOND'' = order_intervals rlm ''SECOND''"
  by (auto simp: Consume_def Consume_weight_def Consume_orders_def charge_key_def split: option.splits)

text \<open>Nothing makes the channel: a limiter that has been used in whatever way cannot be closed.\<close>

lemma UpdateRateLimitManager_close: "rlm_close (UpdateRateLimitManager rls rlm) = rlm_close rlm"
  by (induction rls arbitrary: rlm) simp_all

lemma rate_step_close: "rate_step rlm e = Inr (rlm', r) \<Longrightarrow> rlm_close rlm' = rlm_close rlm"
  by (cases e) (auto simp: Consume_def Consume_weight_def Consume_orders_def Open_tick_def Let_def
      split: sum.splits option.splits if_splits prod.splits)

lemma limiter_never_closes:
  "rlm_Close waiting (UpdateRateLimitManager rls NewRateLimitManager) = None"
  "\<not> rlm_close rlm \<Longrightarrow> rate_step rlm e = Inr (rlm', r) \<Longrightarrow> rlm_Close waiting rlm' = None"
  by (simp_all add: rlm_Close_def UpdateRateLimitManager_close NewRateLimitManager_def rate_step_close)

end
