(* ===== verification/Recv_Events.thy ===== *)
theory Recv_Events
  imports Quote_Types
begin

text \<open>
  The event handlers of the receiving service (\<open>cmd/QuoteRecvSerivce/controller.go\<close> and
  \<open>market_snapshot.go\<close>): each turns an event of the exchange into a quote message and sends it
  to the channel of the fan-out manager. The records of the events have the fields the handlers
  read.
\<close>

section \<open>Events of the exchange\<close>

record EventLevel =
  el_Price :: string
  el_Quantity :: string

record WsDepthEvent =
  de_Time :: int
  de_TransactionTime :: int
  de_Symbol :: string
  de_FirstUpdateID :: int
  de_LastUpdateID :: int
  de_PrevLastUpdateID :: int
  de_Bids :: "EventLevel list"
  de_Asks :: "EventLevel list"

record WsTradeEvent =
  te_Event :: string
  te_Time :: int
  te_Symbol :: string
  te_TradeID :: int
  te_Price :: string
  te_Quantity :: string
  te_BuyerOrderID :: int
  te_SellerOrderID :: int
  te_TradeTime :: int
  te_IsBuyerMaker :: bool
  te_Placeholder :: bool

record WsKline =
  wk_StartTime :: int
  wk_EndTime :: int
  wk_Interval :: string
  wk_FirstTradeID :: int
  wk_LastTradeID :: int
  wk_Open :: string
  wk_Close :: string
  wk_High :: string
  wk_Low :: string
  wk_Volume :: string
  wk_TradeNum :: int
  wk_IsFinal :: bool
  wk_QuoteVolume :: string
  wk_ActiveBuyVolume :: string
  wk_ActiveBuyQuoteVolume :: string

record WsKlineEvent =
  ke_Time :: int
  ke_Symbol :: string
  ke_Kline :: WsKline

record WsAggTradeEvent =
  ae_Time :: int
  ae_Symbol :: string
  ae_AggregateTradeID :: int
  ae_Price :: string
  ae_Quantity :: string
  ae_FirstTradeID :: int
  ae_LastTradeID :: int
  ae_TradeTime :: int
  ae_Maker :: bool

record DepthResponse =
  dr_LastUpdateID :: int
  dr_Time :: int
  dr_TradeTime :: int
  dr_Bids :: "EventLevel list"
  dr_Asks :: "EventLevel list"

section \<open>Handlers\<close>

text \<open>\<open>f.msgCh\<close> is made with 100 places.\<close>

definition msgCh_cap :: nat where
  "msgCh_cap = 100"

type_synonym msg_chan = "Message list"

definition price_of :: "EventLevel \<Rightarrow> AskPrice" where
  "price_of l = \<lparr>ap_Price = el_Price l, ap_Qty = el_Quantity l\<rparr>"

definition OnWsAggTradeEvent :: "WsAggTradeEvent \<Rightarrow> msg_chan \<Rightarrow> msg_chan option" where
  "OnWsAggTradeEvent event ch =
     (let trade = \<lparr>qa_Time = ae_Time event, qa_Symbol = ae_Symbol event,
                   qa_AggregateTradeID = ae_AggregateTradeID event, qa_Price = ae_Price event,
                   qa_Quantity = ae_Quantity event, qa_FirstTradeID = ae_FirstTradeID event,
                   qa_LastTradeID = ae_LastTradeID event, qa_TradeTime = ae_TradeTime event,
                   qa_Maker = ae_Maker event\<rparr>
      in chan_send msgCh_cap (quote_message_of QuoteDataType_AggTrade (Data_AggTrade trade)) ch)"

definition OnWsDepthEvent :: "WsDepthEvent \<Rightarrow> msg_chan \<Rightarrow> msg_chan option" where
  "OnWsDepthEvent event ch =
     (let depth = \<lparr>qd_Time = de_Time event, qd_TransactionTime = de_TransactionTime event,
                   qd_Symbol = de_Symbol event, qd_FirstUpdateID = de_FirstUpdateID event,
                   qd_LastUpdateID = de_LastUpdateID event, qd_PrevLastUpdateID = de_PrevLastUpdateID event,
                   qd_Bids = map price_of (de_Bids event), qd_Asks = map price_of (de_Asks event)\<rparr>
      in chan_send msgCh_cap (quote_message_of QuoteDataType_Depth (Data_Depth depth)) ch)"

definition OnWsKLineEvent :: "WsKlineEvent \<Rightarrow> msg_chan \<Rightarrow> msg_chan option" where
  "OnWsKLineEvent event ch =
     (let k = ke_Kline event;
          kline = \<lparr>qk_Time = ke_Time event, qk_StartTime = wk_StartTime k, qk_EndTime = wk_EndTime k,
                   qk_Symbol = ke_Symbol event, qk_Interval = wk_Interval k,
                   qk_FirstTradeID = wk_FirstTradeID k, qk_LastTradeID = wk_LastTradeID k,
                   qk_Open = wk_Open k, qk_Close = wk_Close k, qk_High = wk_High k, qk_Low = wk_Low k,
                   qk_Volume = wk_Volume k, qk_TradeNum = wk_TradeNum k, qk_IsFinal = wk_IsFinal k,
                   qk_QuoteVolume = wk_QuoteVolume k, qk_ActiveBuyVolume = wk_ActiveBuyVolume k,
                   qk_ActiveBuyQuoteVolume = wk_ActiveBuyQuoteVolume k\<rparr>
      in chan_send msgCh_cap (quote_message_of QuoteDataType_Kline (Data_Kline kline)) ch)"

definition OnWsOrbIncDepthEvent :: "WsDepthEvent \<Rightarrow> msg_chan \<Rightarrow> msg_chan option" where
  "OnWsOrbIncDepthEvent event ch =
     (let depth = \<lparr>qi_Time = de_Time event, qi_TransactionTime = de_TransactionTime event,
                   qi_Symbol = de_Symbol event, qi_FirstUpdateID = de_FirstUpdateID event,
                   qi_LastUpdateID = de_LastUpdateID event, qi_PrevLastUpdateID = de_PrevLastUpdateID event,
                   qi_Bids = map price_of (de_Bids event), qi_Asks = map price_of (de_Asks event)\<rparr>
      in chan_send msgCh_cap (quote_message_of QuoteDataType_OrderIncrement (Data_OrbIncr depth)) ch)"

definition OnWsTradeEvent :: "WsTradeEvent \<Rightarrow> msg_chan \<Rightarrow> msg_chan option" where
  "OnWsTradeEvent event ch =
     (let trade = \<lparr>qt_Event = te_Event event, qt_Time = te_Time event, qt_Symbol = te_Symbol event,
                   qt_TradeID = te_TradeID event, qt_Price = te_Price event,
                   qt_Quantity = te_Quantity event, qt_BuyerOrderID = te_BuyerOrderID event,
                   qt_SellerOrderID = te_SellerOrderID event, qt_TradeTime = te_TradeTime event,
                   qt_IsBuyerMaker = te_IsBuyerMaker event, qt_Placeholder = te_Placeholder event\<rparr>
      in chan_send msgCh_cap (quote_message_of QuoteDataType_Trade (Data_Trade trade)) ch)"

section \<open>Snapshots\<close>

text \<open>\<open>SnapShotManager.snapshot\<close>: \<open>res\<close> is the answer of the depth service, \<open>None\<close> where the request
  fails; then the error is returned and nothing is sent.\<close>

definition snapshot :: "string \<Rightarrow> DepthResponse option \<Rightarrow> msg_chan \<Rightarrow> msg_chan option" where
  "snapshot symbol res ch =
     (case res of
        None \<Rightarrow> Some ch
      | Some r \<Rightarrow>
          (let qs = \<lparr>qs_Symbol = symbol, qs_LastUpdateID = dr_LastUpdateID r, qs_Time = dr_Time r,
                     qs_TradeTime = dr_TradeTime r, qs_Bids = map price_of (dr_Bids r),
                     qs_Asks = map price_of (dr_Asks r)\<rparr>
           in chan_send msgCh_cap (quote_message_of QuoteDataType_SnapShot (Data_SnapShot qs)) ch))"

section \<open>Lemmas\<close>

lemmas handler_defs = OnWsAggTradeEvent_def OnWsDepthEvent_def OnWsKLineEvent_def OnWsOrbIncDepthEvent_def
  OnWsTradeEvent_def

text \<open>A handler appends one message or blocks; it never changes what is in the channel.\<close>

lemma chan_send_Some: "chan_send cap x ch = Some ch' \<longleftrightarrow> length ch < cap \<and> ch' = ch @ [x]"
  by (auto simp: chan_send_def)

end
