(* ===== verification/Recv_Services.thy ===== *)
theory Recv_Services
  imports Recv_Events Go_Generic "HOL-Library.Multiset"
begin

text \<open>
  The five WebSocket feeds of the receiving service (\<open>market_depth.go\<close>, \<open>market_orb_inc.go\<close>,
  \<open>market_trade.go\<close>, \<open>market_kline.go\<close>, \<open>market_aggtrade.go\<close> in \<open>cmd/QuoteRecvSerivce\<close>). Each has its own
  handler, its own subscription and the reconnect timeout it reads; they share the fields of the
  structs and the protocol: a connection is stopped and replaced when nothing has arrived for
  longer than the timeout. The locale \<open>ws_feed\<close> states the protocol, and each feed is an
  interpretation of it. \<open>serve\<close> stands for the \<open>futures.WsCombined...Serve\<close> functions of
  go-binance: the connection that the \<open>k\<close>-th attempt opens, or \<open>None\<close> where it reports an error.
\<close>

section \<open>State\<close>

text \<open>The fields the five service structs have in common. \<open>sv_conn\<close> is the connection whose \<open>stopC\<close> the
  service holds, \<open>None\<close> for a nil channel. \<open>sv_opened\<close> and \<open>sv_stopped\<close> record the connections that
  were opened and those that were sent a stop signal.\<close>

record ws_service =
  sv_id :: string
  sv_symbols :: "string list"
  sv_conn :: "nat option"
  sv_updates :: "string set"
  sv_latest :: int
  sv_opened :: "nat list"
  sv_stopped :: "nat list"

definition new_service :: "nat \<Rightarrow> string list \<Rightarrow> ws_service" where
  "new_service n symbols =
     \<lparr>sv_id = FormatInt (int n), sv_symbols = symbols, sv_conn = None, sv_updates = {}, sv_latest = 0,
      sv_opened = [], sv_stopped = []\<rparr>"

record recv_config =
  RecvOrbIncReconnectTimeout :: int
  RecvTradeReconnectTimeout :: int
  RecvSnapShotEnable :: bool

text \<open>The part of \<open>normalize_config\<close> that concerns the feeds.\<close>

definition normalize_timeouts :: "recv_config \<Rightarrow> recv_config" where
  "normalize_timeouts cfg =
     cfg\<lparr>RecvOrbIncReconnectTimeout :=
           (if RecvOrbIncReconnectTimeout cfg = 0 then 120 else RecvOrbIncReconnectTimeout cfg),
         RecvTradeReconnectTimeout :=
           (if RecvTradeReconnectTimeout cfg = 0 then 120 else RecvTradeReconnectTimeout cfg)\<rparr>"

datatype subscription =
    SubDepth "string \<rightharpoonup> string"
  | SubDiffDepth "string list"
  | SubTrade "string list"
  | SubKline "string \<rightharpoonup> string"
  | SubAggTrade "string list"

type_synonym serve = "subscription \<Rightarrow> nat \<Rightarrow> nat option"

definition key_values :: "string list \<Rightarrow> string \<Rightarrow> (string \<rightharpoonup> string)" where
  "key_values symbols v = fold (\<lambda>key m. m(key \<mapsto> v)) symbols Map.empty"

section \<open>Depth\<close>

definition WsDepthService_reset :: "ws_service \<Rightarrow> ws_service" where
  "WsDepthService_reset ds =
     ds\<lparr>sv_stopped := (case sv_conn ds of Some c \<Rightarrow> sv_stopped ds @ [c] | None \<Rightarrow> sv_stopped ds),
        sv_conn := None, sv_latest := 0\<rparr>"

definition WsDepthService_handler :: "int \<Rightarrow> WsDepthEvent \<Rightarrow> ws_service \<Rightarrow> msg_chan \<Rightarrow> ws_service \<times> msg_chan option" where
  "WsDepthService_handler now event ds ch =
     (ds\<lparr>sv_latest := now, sv_updates := insert (de_Symbol event) (sv_updates ds)\<rparr>, OnWsDepthEvent event ch)"

definition WsDepthService_error :: "ws_service \<Rightarrow> ws_service" where
  "WsDepthService_error ds = WsDepthService_reset ds"

definition WsDepthService_doConnect :: "int \<Rightarrow> serve \<Rightarrow> int \<Rightarrow> ws_service \<Rightarrow> ws_service option" where
  "WsDepthService_doConnect level serve now ds =
     (case retry (serve (SubDepth (key_values (sv_symbols ds) (FormatInt level)))) 0 of
        None \<Rightarrow> None
      | Some c \<Rightarrow> Some (ds\<lparr>sv_conn := Some c, sv_opened := sv_opened ds @ [c], sv_latest := now\<rparr>))"

definition WsDepthService_run_tick ::
  "recv_config \<Rightarrow> int \<Rightarrow> serve \<Rightarrow> int \<Rightarrow> int \<Rightarrow> ws_service \<Rightarrow> ws_service option" where
  "WsDepthService_run_tick cfg level serve now now2 ds =
     (if RecvOrbIncReconnectTimeout cfg < i64 (now - sv_latest ds)
      then WsDepthService_doConnect level serve now2 (WsDepthService_reset ds) else Some ds)"

section \<open>Trades\<close>

definition WsTradeService_reset :: "ws_service \<Rightarrow> ws_service" where
  "WsTradeService_reset ds =
     ds\<lparr>sv_stopped := (case sv_conn ds of Some c \<Rightarrow> sv_stopped ds @ [c] | None \<Rightarrow> sv_stopped ds),
        sv_conn := None, sv_latest := 0\<rparr>"

definition WsTradeService_handler :: "int \<Rightarrow> WsTradeEvent \<Rightarrow> ws_service \<Rightarrow> msg_chan \<Rightarrow> ws_service \<times> msg_chan option" where
  "WsTradeService_handler now event ds ch =
     (ds\<lparr>sv_latest := now, sv_updates := insert (te_Symbol event) (sv_updates ds)\<rparr>, OnWsTradeEvent event ch)"

definition WsTradeService_error :: "ws_service \<Rightarrow> ws_service" where
  "WsTradeService_error ds = WsTradeService_reset ds"

definition WsTradeService_doConnect :: "serve \<Rightarrow> int \<Rightarrow> ws_service \<Rightarrow> ws_service option" where
  "WsTradeService_doConnect serve now ds =
     (case retry (serve (SubTrade (sv_symbols ds))) 0 of
        None \<Rightarrow> None
      | Some c \<Rightarrow> Some (ds\<lparr>sv_conn := Some c, sv_opened := sv_opened ds @ [c], sv_latest := now\<rparr>))"

definition WsTradeService_run_tick ::
  "recv_config \<Rightarrow> serve \<Rightarrow> int \<Rightarrow> int \<Rightarrow> ws_service \<Rightarrow> ws_service option" where
  "WsTradeService_run_tick cfg serve now now2 ds =
     (if RecvTradeReconnectTimeout cfg < i64 (now - sv_latest ds)
      then WsTradeService_doConnect serve now2 (WsTradeService_reset ds) else Some ds)"

section \<open>Candles\<close>

definition WsKLineService_reset :: "ws_service \<Rightarrow> ws_service" where
  "WsKLineService_reset ds =
     ds\<lparr>sv_stopped := (case sv_conn ds of Some c \<Rightarrow> sv_stopped ds @ [c] | None \<Rightarrow> sv_stopped ds),
        sv_conn := None, sv_latest := 0\<rparr>"

definition WsKLineService_handler :: "int \<Rightarrow> WsKlineEvent \<Rightarrow> ws_service \<Rightarrow> msg_chan \<Rightarrow> ws_service \<times> msg_chan option" where
  "WsKLineService_handler now event ds ch =
     (ds\<lparr>sv_latest := now, sv_updates := insert (ke_Symbol event) (sv_updates ds)\<rparr>, OnWsKLineEvent event ch)"

definition WsKLineService_error :: "ws_service \<Rightarrow> ws_service" where
  "WsKLineService_error ds = WsKLineService_reset ds"

definition WsKLineService_doConnect :: "string \<Rightarrow> serve \<Rightarrow> int \<Rightarrow> ws_service \<Rightarrow> ws_service option" where
  "WsKLineService_doConnect interval serve now ds =
     (case retry (serve (SubKline (key_values (sv_symbols ds) interval))) 0 of
        None \<Rightarrow> None
      | Some c \<Rightarrow> Some (ds\<lparr>sv_conn := Some c, sv_opened := sv_opened ds @ [c], sv_latest := now\<rparr>))"

definition WsKLineService_run_tick ::
  "recv_config \<Rightarrow> string \<Rightarrow> serve \<Rightarrow> int \<Rightarrow> int \<Rightarrow> ws_service \<Rightarrow> ws_service option" where
  "WsKLineService_run_tick cfg interval serve now now2 ds =
     (if RecvOrbIncReconnectTimeout cfg < i64 (now - sv_latest ds)
      then WsKLineService_doConnect interval serve now2 (WsKLineService_reset ds) else Some ds)"

section \<open>Aggregate trades\<close>

definition WsAggTradeService_reset :: "ws_service \<Rightarrow> ws_service" where
  "WsAggTradeService_reset ds =
     ds\<lparr>sv_stopped := (case sv_conn ds of Some c \<Rightarrow> sv_stopped ds @ [c] | None \<Rightarrow> sv_stopped ds),
        sv_conn := None, sv_latest := 0\<rparr>"

definition WsAggTradeService_handler :: "int \<Rightarrow> WsAggTradeEvent \<Rightarrow> ws_service \<Rightarrow> msg_chan \<Rightarrow> ws_service \<times> msg_chan option" where
  "WsAggTradeService_handler now event ds ch =
     (ds\<lparr>sv_latest := now, sv_updates := insert (ae_Symbol event) (sv_updates ds)\<rparr>, OnWsAggTradeEvent event ch)"

definition WsAggTradeService_error :: "ws_service \<Rightarrow> ws_service" where
  "WsAggTradeService_error ds = WsAggTradeService_reset ds"

definition WsAggTradeService_doConnect :: "serve \<Rightarrow> int \<Rightarrow> ws_service \<Rightarrow> ws_service option" where
  "WsAggTradeService_doConnect serve now ds =
     (case retry (serve (SubAggTrade (sv_symbols ds))) 0 of
        None \<Rightarrow> None
      | Some c \<Rightarrow> Some (ds\<lparr>sv_conn := Some c, sv_opened := sv_opened ds @ [c], sv_latest := now\<rparr>))"

definition WsAggTradeService_run_tick ::
  "recv_config \<Rightarrow> serve \<Rightarrow> int \<Rightarrow> int \<Rightarrow> ws_service \<Rightarrow> ws_service option" where
  "WsAggTradeService_run_tick cfg serve now now2 ds =
     (if RecvOrbIncReconnectTimeout cfg < i64 (now - sv_latest ds)
      then WsAggTradeService_doConnect serve now2 (WsAggTradeService_reset ds) else Some ds)"

section \<open>Increments of the order book\<close>

definition WsOrbIncService_reset :: "ws_service \<Rightarrow> ws_service" where
  "WsOrbIncService_reset ds =
     ds\<lparr>sv_stopped := (case sv_conn ds of Some c \<Rightarrow> sv_stopped ds @ [c] | None \<Rightarrow> sv_stopped ds),
        sv_conn := None, sv_latest := 0\<rparr>"

definition WsOrbIncService_handler :: "int \<Rightarrow> WsDepthEvent \<Rightarrow> ws_service \<Rightarrow> msg_chan \<Rightarrow> ws_service \<times> msg_chan option" where
  "WsOrbIncService_handler now event ds ch =
     (ds\<lparr>sv_latest := now, sv_updates := insert (de_Symbol event) (sv_updates ds)\<rparr>, OnWsOrbIncDepthEvent event ch)"

definition WsOrbIncService_error :: "ws_service \<Rightarrow> ws_service" where
  "WsOrbIncService_error ds = WsOrbIncService_reset ds"

text \<open>A new connection asks for a snapshot of each of its symbols; \<open>doSnapShot\<close> hands the request to a
  goroutine of its own.\<close>

definition WsOrbIncService_doConnect ::
  "recv_config \<Rightarrow> serve \<Rightarrow> int \<Rightarrow> ws_service \<Rightarrow> (ws_service \<times> string list) option" where
  "WsOrbIncService_doConnect cfg serve now ds =
     (case retry (serve (SubDiffDepth (sv_symbols ds))) 0 of
        None \<Rightarrow> None
      | Some c \<Rightarrow>
          Some (ds\<lparr>sv_conn := Some c, sv_opened := sv_opened ds @ [c], sv_latest := now\<rparr>,
                if RecvSnapShotEnable cfg then sv_symbols ds else []))"

definition WsOrbIncService_run_tick ::
  "recv_config \<Rightarrow> serve \<Rightarrow> int \<Rightarrow> int \<Rightarrow> ws_service \<Rightarrow> (ws_service \<times> string list) option" where
  "WsOrbIncService_run_tick cfg serve now now2 ds =
     (if RecvOrbIncReconnectTimeout cfg < i64 (now - sv_latest ds)
      then WsOrbIncService_doConnect cfg serve now2 (WsOrbIncService_reset ds) else Some (ds, []))"

section \<open>Managers\<close>

text \<open>The managers of the five feeds have the same fields: the services, and for every symbol the service
  that carries it, here its position in the list.\<close>

record ws_manager =
  mg_services :: "ws_service list"
  mg_index :: "string \<rightharpoonup> nat"

fun open_services :: "nat \<Rightarrow> string list list \<Rightarrow> ws_manager \<Rightarrow> ws_manager" where
  "open_services n [] mgr = mgr"
| "open_services n (symarr # symarrs) mgr =
     open_services (Suc n) symarrs
       (mgr\<lparr>mg_services := mg_services mgr @ [new_service n symarr],
            mg_index := fold (\<lambda>nm m. m(nm \<mapsto> length (mg_services mgr))) symarr (mg_index mgr)\<rparr>)"

definition open_manager :: "int \<Rightarrow> string list \<Rightarrow> ws_manager \<Rightarrow> ws_manager go option" where
  "open_manager maxSymbols symbols mgr =
     (case splitArrayBySliceSize symbols maxSymbols of
        None \<Rightarrow> None
      | Some (Inl p) \<Rightarrow> Some (Inl p)
      | Some (Inr parts) \<Rightarrow> Some (Inr (open_services 0 parts mgr)))"

definition WsDepthClientManager_Init :: ws_manager where
  "WsDepthClientManager_Init = \<lparr>mg_services = [], mg_index = Map.empty\<rparr>"

definition WsDepthClientManager_Open :: "int \<Rightarrow> string list \<Rightarrow> ws_manager \<Rightarrow> ws_manager go option" where
  "WsDepthClientManager_Open maxSymbolNumPerConn symbols mgr = open_manager maxSymbolNumPerConn symbols mgr"

definition WsTradeClientManager_Init :: ws_manager where
  "WsTradeClientManager_Init = \<lparr>mg_services = [], mg_index = Map.empty\<rparr>"

definition WsTradeClientManager_Open :: "int \<Rightarrow> string list \<Rightarrow> ws_manager \<Rightarrow> ws_manager go option" where
  "WsTradeClientManager_Open maxSymbolNumPerConn symbols mgr = open_manager maxSymbolNumPerConn symbols mgr"

definition WsKLineManager_Init :: ws_manager where
  "WsKLineManager_Init = \<lparr>mg_services = [], mg_index = Map.empty\<rparr>"

definition WsKLineManager_Open :: "int \<Rightarrow> string list \<Rightarrow> ws_manager \<Rightarrow> ws_manager go option" where
  "WsKLineManager_Open maxSymbolNumPerConn symbols mgr = open_manager maxSymbolNumPerConn symbols mgr"

definition WsAggTradeManager_Init :: ws_manager where
  "WsAggTradeManager_Init = \<lparr>mg_services = [], mg_index = Map.empty\<rparr>"

definition WsAggTradeManager_Open :: "int \<Rightarrow> string list \<Rightarrow> ws_manager \<Rightarrow> ws_manager go option" where
  "WsAggTradeManager_Open maxSymbolNumPerConn symbols mgr = open_manager maxSymbolNumPerConn symbols mgr"

definition WsOrbIncClientManager_Init :: ws_manager where
  "WsOrbIncClientManager_Init = \<lparr>mg_services = [], mg_index = Map.empty\<rparr>"

definition WsOrbIncClientManager_Open :: "int \<Rightarrow> string list \<Rightarrow> ws_manager \<Rightarrow> ws_manager go option" where
  "WsOrbIncClientManager_Open maxSymbolNumPerConn symbols mgr = open_manager maxSymbolNumPerConn symbols mgr"

section \<open>The connection protocol\<close>

text \<open>What reaches a service while it runs: an event of the exchange at some time, the error callback of
  the library, a tick of its timer with the two clock readings of the tick and the attempts to connect
  that it would make.\<close>

datatype 'e feed_event = FEvent int 'e | FError | FTick serve int int

fun feed_run ::
  "(int \<Rightarrow> 'e \<Rightarrow> ws_service \<Rightarrow> ws_service) \<Rightarrow> (ws_service \<Rightarrow> ws_service) \<Rightarrow>
   (serve \<Rightarrow> int \<Rightarrow> int \<Rightarrow> ws_service \<Rightarrow> ws_service option) \<Rightarrow> 'e feed_event list \<Rightarrow> ws_service \<Rightarrow>
   ws_service option" where
  "feed_run seen fail tick [] s = Some s"
| "feed_run seen fail tick (FEvent now e # evs) s = feed_run seen fail tick evs (seen now e s)"
| "feed_run seen fail tick (FError # evs) s = feed_run seen fail tick evs (fail s)"
| "feed_run seen fail tick (FTick serve now now2 # evs) s =
     (case tick serve now now2 s of None \<Rightarrow> None | Some s' \<Rightarrow> feed_run seen fail tick evs s')"

definition live_conns :: "ws_service \<Rightarrow> nat list" where
  "live_conns s = (case sv_conn s of None \<Rightarrow> [] | Some c \<Rightarrow> [c])"

definition accounted :: "ws_service \<Rightarrow> bool" where
  "accounted s \<longleftrightarrow> sv_opened s = sv_stopped s @ live_conns s"

lemma live_conns_simps [simp]:
  "sv_conn s = None \<Longrightarrow> live_conns s = []"
  "sv_conn s = Some c \<Longrightarrow> live_conns s = [c]"
  by (simp_all add: live_conns_def)

lemma new_service_accounted [simp]: "accounted (new_service n symbols)"
  by (simp add: accounted_def new_service_def live_conns_def)

locale ws_feed =
  fixes timeout :: int
    and wanted :: "ws_service \<Rightarrow> subscription"
    and reset :: "ws_service \<Rightarrow> ws_service"
    and seen :: "int \<Rightarrow> 'e \<Rightarrow> ws_service \<Rightarrow> ws_service"
    and fail :: "ws_service \<Rightarrow> ws_service"
    and connect :: "serve \<Rightarrow> int \<Rightarrow> ws_service \<Rightarrow> ws_service option"
    and tick :: "serve \<Rightarrow> int \<Rightarrow> int \<Rightarrow> ws_service \<Rightarrow> ws_service option"
  assumes reset_conn: "sv_conn (reset s) = None"
    and reset_logs: "sv_opened (reset s) = sv_opened s" "sv_stopped (reset s) = sv_stopped s @ live_conns s"
    and reset_latest: "sv_latest (reset s) = 0"
    and wanted_reset: "wanted (reset s) = wanted s"
    and fail_resets: "fail s = reset s"
    and note_keeps: "sv_conn (seen now e s) = sv_conn s" "sv_opened (seen now e s) = sv_opened s"
      "sv_stopped (seen now e s) = sv_stopped s"
    and note_latest: "sv_latest (seen now e s) = now"
    and connect_some: "connect serve now s = Some s' \<Longrightarrow> \<exists>c. sv_conn s' = Some c \<and>
      sv_opened s' = sv_opened s @ [c] \<and> sv_stopped s' = sv_stopped s \<and> sv_latest s' = now"
    and connect_none: "connect serve now s = None \<longleftrightarrow> retry (serve (wanted s)) 0 = None"
    and tick_eq: "tick serve now now2 s =
      (if timeout < i64 (now - sv_latest s) then connect serve now2 (reset s) else Some s)"
begin

lemma reset_accounted: "accounted s \<Longrightarrow> accounted (reset s)"
  by (simp add: accounted_def reset_conn reset_logs)

lemma connect_accounted:
  assumes "connect serve now (reset s) = Some s'" and "accounted s"
  shows "accounted s'"
  using connect_some [OF assms(1)] reset_accounted [OF assms(2)] by (auto simp: accounted_def reset_conn)

lemma run_accounted: "feed_run seen fail tick evs s = Some s' \<Longrightarrow> accounted s \<Longrightarrow> accounted s'"
proof (induction evs arbitrary: s)
  case (Cons ev evs)
  show ?case
  proof (cases ev)
    case (FEvent now e)
    then show ?thesis using Cons by (auto simp: accounted_def note_keeps live_conns_def)
  next
    case FError
    then show ?thesis using Cons by (simp add: fail_resets reset_accounted)
  next
    case (FTick serve now now2)
    then show ?thesis using Cons
      by (auto simp: tick_eq split: option.splits if_splits intro: connect_accounted)
  qed
qed simp

lemma quiet_reconnects:
  assumes "timeout < now - sv_latest s" and "in_i64 (now - sv_latest s)" and "serve (wanted s) k = Some c"
  shows "\<exists>s' c'. tick serve now now2 s = Some s' \<and> sv_conn s' = Some c' \<and> sv_latest s' = now2 \<and>
    sv_stopped s' = sv_stopped s @ live_conns s \<and> sv_opened s' = sv_opened s @ [c']"
proof -
  have "connect serve now2 (reset s) \<noteq> None"
    using retry_returns [of "serve (wanted s)", OF assms(3)] by (auto simp: connect_none wanted_reset)
  then obtain s' where "connect serve now2 (reset s) = Some s'" by auto
  with connect_some [OF this] show ?thesis using assms by (auto simp: tick_eq i64_id reset_logs)
qed

lemma live_left_alone:
  "now - sv_latest s \<le> timeout \<Longrightarrow> in_i64 (now - sv_latest s) \<Longrightarrow> tick serve now now2 s = Some s"
  by (simp add: tick_eq i64_id)

end

abbreviation depth_wanted :: "int \<Rightarrow> ws_service \<Rightarrow> subscription" where
  "depth_wanted level s \<equiv> SubDepth (key_values (sv_symbols s) (FormatInt level))"

abbreviation kline_wanted :: "string \<Rightarrow> ws_service \<Rightarrow> subscription" where
  "kline_wanted interval s \<equiv> SubKline (key_values (sv_symbols s) interval)"

abbreviation depth_seen :: "int \<Rightarrow> WsDepthEvent \<Rightarrow> ws_service \<Rightarrow> ws_service" where
  "depth_seen now e s \<equiv> fst (WsDepthService_handler now e s [])"

abbreviation trade_seen :: "int \<Rightarrow> WsTradeEvent \<Rightarrow> ws_service \<Rightarrow> ws_service" where
  "trade_seen now e s \<equiv> fst (WsTradeService_handler now e s [])"

abbreviation kline_seen :: "int \<Rightarrow> WsKlineEvent \<Rightarrow> ws_service \<Rightarrow> ws_service" where
  "kline_seen now e s \<equiv> fst (WsKLineService_handler now e s [])"

abbreviation aggtrade_seen :: "int \<Rightarrow> WsAggTradeEvent \<Rightarrow> ws_service \<Rightarrow> ws_service" where
  "aggtrade_seen now e s \<equiv> fst (WsAggTradeService_handler now e s [])"

abbreviation orbinc_seen :: "int \<Rightarrow> WsDepthEvent \<Rightarrow> ws_service \<Rightarrow> ws_service" where
  "orbinc_seen now e s \<equiv> fst (WsOrbIncService_handler now e s [])"

text \<open>The feed of increments also reports the snapshots it asks for; the protocol is about its state.\<close>

abbreviation orbinc_tick :: "recv_config \<Rightarrow> serve \<Rightarrow> int \<Rightarrow> int \<Rightarrow> ws_service \<Rightarrow> ws_service option" where
  "orbinc_tick cfg serve now now2 s \<equiv> map_option fst (WsOrbIncService_run_tick cfg serve now now2 s)"

lemmas depth_defs = WsDepthService_reset_def WsDepthService_handler_def WsDepthService_error_def
  WsDepthService_doConnect_def WsDepthService_run_tick_def

lemmas trade_defs = WsTradeService_reset_def WsTradeService_handler_def WsTradeService_error_def
  WsTradeService_doConnect_def WsTradeService_run_tick_def

lemmas kline_defs = WsKLineService_reset_def WsKLineService_handler_def WsKLineService_error_def
  WsKLineService_doConnect_def WsKLineService_run_tick_def

lemmas aggtrade_defs = WsAggTradeService_reset_def WsAggTradeService_handler_def WsAggTradeService_error_def
  WsAggTradeService_doConnect_def WsAggTradeService_run_tick_def

lemmas orbinc_defs = WsOrbIncService_reset_def WsOrbIncService_handler_def WsOrbIncService_error_def
  WsOrbIncService_doConnect_def WsOrbIncService_run_tick_def

interpretation depth_feed: ws_feed "RecvOrbIncReconnectTimeout cfg" "depth_wanted level"
    WsDepthService_reset depth_seen WsDepthService_error "WsDepthService_doConnect level"
    "WsDepthService_run_tick cfg level" for cfg level
  by unfold_locales (auto simp: depth_defs live_conns_def split: option.splits)

interpretation trade_feed: ws_feed "RecvTradeReconnectTimeout cfg" "\<lambda>s. SubTrade (sv_symbols s)"
    WsTradeService_reset trade_seen WsTradeService_error WsTradeService_doConnect
    "WsTradeService_run_tick cfg" for cfg
  by unfold_locales (auto simp: trade_defs live_conns_def split: option.splits)

interpretation kline_feed: ws_feed "RecvOrbIncReconnectTimeout cfg" "kline_wanted interval"
    WsKLineService_reset kline_seen WsKLineService_error "WsKLineService_doConnect interval"
    "WsKLineService_run_tick cfg interval" for cfg interval
  by unfold_locales (auto simp: kline_defs live_conns_def split: option.splits)

interpretation aggtrade_feed: ws_feed "RecvOrbIncReconnectTimeout cfg" "\<lambda>s. SubAggTrade (sv_symbols s)"
    WsAggTradeService_reset aggtrade_seen WsAggTradeService_error WsAggTradeService_doConnect
    "WsAggTradeService_run_tick cfg" for cfg
  by unfold_locales (auto simp: aggtrade_defs live_conns_def split: option.splits)

interpretation orbinc_feed: ws_feed "RecvOrbIncReconnectTimeout cfg" "\<lambda>s. SubDiffDepth (sv_symbols s)"
    WsOrbIncService_reset orbinc_seen WsOrbIncService_error
    "\<lambda>serve now s. map_option fst (WsOrbIncService_doConnect cfg serve now s)" "orbinc_tick cfg" for cfg
  by unfold_locales (auto simp: orbinc_defs live_conns_def split: option.splits)


definition demo_serve :: serve where
  "demo_serve sub k = (if k < 2 then None else Some k)"

definition demo_recv :: recv_config where
  "demo_recv = normalize_timeouts \<lparr>RecvOrbIncReconnectTimeout = 0, RecvTradeReconnectTimeout = 0,
     RecvSnapShotEnable = True\<rparr>"

lemma demo_serve_connects: "retry (demo_serve sub) 0 = Some 2"
  by (rule retry_first [where n = 2]) (auto simp: demo_serve_def)


text \<open>C24. The feed of increments notices silence: where nothing arrived for longer than the
  configured timeout, the tick stops the connection it holds and opens a new one, asking for a snapshot
  of every symbol when snapshots are enabled, as soon as one attempt succeeds; otherwise the tick
  changes nothing. An error resets the service so that the next tick reconnects, whatever arrived
  before it.\<close>

theorem quiet_feed_reconnects:
  assumes "in_i64 (now - sv_latest s)" and "in_i64 now" and "serve (SubDiffDepth (sv_symbols s)) k = Some c"
  shows "(RecvOrbIncReconnectTimeout cfg < now - sv_latest s \<longrightarrow>
      (\<exists>s' c'. WsOrbIncService_run_tick cfg serve now now2 s =
          Some (s', if RecvSnapShotEnable cfg then sv_symbols s else []) \<and>
        sv_conn s' = Some c' \<and> sv_latest s' = now2 \<and> sv_stopped s' = sv_stopped s @ live_conns s \<and>
        sv_opened s' = sv_opened s @ [c'])) \<and>
    (now - sv_latest s \<le> RecvOrbIncReconnectTimeout cfg \<longrightarrow> WsOrbIncService_run_tick cfg serve now now2 s = Some (s, [])) \<and>
    (RecvOrbIncReconnectTimeout cfg < now \<longrightarrow>
      (\<exists>s' c'. orbinc_tick cfg serve now now2 (WsOrbIncService_error s) = Some s' \<and> sv_conn s' = Some c'))"
proof (intro conjI impI)
  assume quiet: "RecvOrbIncReconnectTimeout cfg < now - sv_latest s"
  from orbinc_feed.quiet_reconnects [of cfg now s serve k c now2] this assms(1,3)
  obtain s' c' where t: "orbinc_tick cfg serve now now2 s = Some s'" and s': "sv_conn s' = Some c'"
      "sv_latest s' = now2" "sv_stopped s' = sv_stopped s @ live_conns s" "sv_opened s' = sv_opened s @ [c']"
    by auto
  from t quiet have "WsOrbIncService_run_tick cfg serve now now2 s =
      Some (s', if RecvSnapShotEnable cfg then sv_symbols s else [])"
    using assms(1) by (auto simp: orbinc_defs i64_id split: option.splits)
  with s' show "\<exists>s' c'. WsOrbIncService_run_tick cfg serve now now2 s =
      Some (s', if RecvSnapShotEnable cfg then sv_symbols s else []) \<and>
    sv_conn s' = Some c' \<and> sv_latest s' = now2 \<and> sv_stopped s' = sv_stopped s @ live_conns s \<and>
    sv_opened s' = sv_opened s @ [c']" by blast
next
  show "WsOrbIncService_run_tick cfg serve now now2 s = Some (s, [])"
    if "now - sv_latest s \<le> RecvOrbIncReconnectTimeout cfg"
    using that assms(1) by (simp add: WsOrbIncService_run_tick_def i64_id)
next
  assume "RecvOrbIncReconnectTimeout cfg < now"
  then show "\<exists>s' c'. orbinc_tick cfg serve now now2 (WsOrbIncService_error s) = Some s' \<and> sv_conn s' = Some c'"
    using orbinc_feed.quiet_reconnects [of cfg now "WsOrbIncService_error s" serve k c now2] assms(2,3)
    by (auto simp: WsOrbIncService_error_def WsOrbIncService_reset_def)
qed

theorem quiet_feed_reconnects_witness:
  "\<exists>s' c'. WsOrbIncService_run_tick demo_recv demo_serve 1700000000 1700000001 (new_service 0 [''BTCUSDT'']) =
      Some (s', [''BTCUSDT'']) \<and> sv_conn s' = Some c'"
  using quiet_feed_reconnects [of 1700000000 "new_service 0 [''BTCUSDT'']" demo_serve 2 2 demo_recv 1700000001]
  by (auto simp: in_i64_def new_service_def demo_serve_def demo_recv_def normalize_timeouts_def)

section \<open>The allocation of symbols to services\<close>

lemma fold_index: "fold (\<lambda>nm m. m(nm \<mapsto> i)) xs m nm = (if nm \<in> set xs then Some i else m nm)"
  by (induction xs arbitrary: m) auto

lemma open_services_list:
  "map sv_symbols (mg_services (open_services n parts mgr)) = map sv_symbols (mg_services mgr) @ parts"
  by (induction n parts mgr rule: open_services.induct) (simp_all add: new_service_def)

definition index_ok :: "ws_manager \<Rightarrow> bool" where
  "index_ok mgr \<longleftrightarrow> (\<forall>nm i. mg_index mgr nm = Some i \<longrightarrow>
     i < length (mg_services mgr) \<and> nm \<in> set (sv_symbols (mg_services mgr ! i)))"

lemma open_services_index: "index_ok mgr \<Longrightarrow> index_ok (open_services n parts mgr)"
proof (induction n parts mgr rule: open_services.induct)
  case (2 n symarr symarrs mgr)
  have "index_ok (mgr\<lparr>mg_services := mg_services mgr @ [new_service n symarr],
      mg_index := fold (\<lambda>nm m. m(nm \<mapsto> length (mg_services mgr))) symarr (mg_index mgr)\<rparr>)"
    using 2(2) by (force simp: index_ok_def fold_index new_service_def nth_append less_Suc_eq)
  then show ?case using 2(1) by simp
qed simp

lemma open_services_dom:
  "dom (mg_index (open_services n parts mgr)) = dom (mg_index mgr) \<union> set (concat parts)"
  by (induction n parts mgr rule: open_services.induct) (auto simp: fold_index dom_def)

lemma open_manager_ok:
  assumes "0 < k" and "int (length symbols) + k < 2 ^ 63"
  shows "\<exists>mgr. open_manager k symbols \<lparr>mg_services = [], mg_index = Map.empty\<rparr> = Some (Inr mgr) \<and>
    concat (map sv_symbols (mg_services mgr)) = symbols \<and>
    (\<forall>s\<in>set (mg_services mgr). int (length (sv_symbols s)) \<le> k) \<and>
    dom (mg_index mgr) = set symbols \<and> index_ok mgr"
proof -
  let ?m0 = "\<lparr>mg_services = [], mg_index = Map.empty\<rparr> :: ws_manager"
  let ?mgr = "open_services 0 (chunks (nat k) symbols) ?m0"
  have "splitArrayBySliceSize symbols k = Some (Inr (chunks (nat k) symbols))"
    unfolding splitArrayBySliceSize_def using split_from_chunks [OF assms, of 0 "[]"] assms(1) by simp
  then have "open_manager k symbols ?m0 = Some (Inr ?mgr)" by (simp add: open_manager_def)
  moreover have syms: "map sv_symbols (mg_services ?mgr) = chunks (nat k) symbols"
    by (simp add: open_services_list)
  moreover have "int (length (sv_symbols s)) \<le> k" if "s \<in> set (mg_services ?mgr)" for s
  proof -
    from that have "sv_symbols s \<in> set (map sv_symbols (mg_services ?mgr))" by simp
    then have "sv_symbols s \<in> set (chunks (nat k) symbols)" by (simp only: syms)
    with chunks_length [OF this] assms(1) show ?thesis by linarith
  qed
  moreover have "index_ok ?mgr" by (rule open_services_index) (simp add: index_ok_def)
  moreover have "dom (mg_index ?mgr) = set symbols"
    using assms(1) by (simp add: open_services_dom concat_chunks del: set_concat)
  ultimately show ?thesis using assms(1) by (auto simp: concat_chunks)
qed

text \<open>\<open>Open\<close> of the manager of every feed spreads the symbols over services: put together, the
  lists of the services are the list of symbols, in order; no service has more than \<open>MaxSymbolNumPerConn\<close>
  of them; and the index of the manager knows exactly these symbols and leads from each to a service
  that carries it.\<close>

theorem symbols_allocated:
  assumes "0 < k" and "int (length symbols) + k < 2 ^ 63"
    and "(opens, init) \<in> {(WsDepthClientManager_Open, WsDepthClientManager_Init),
      (WsTradeClientManager_Open, WsTradeClientManager_Init), (WsKLineManager_Open, WsKLineManager_Init),
      (WsAggTradeManager_Open, WsAggTradeManager_Init), (WsOrbIncClientManager_Open, WsOrbIncClientManager_Init)}"
  shows "\<exists>mgr. opens k symbols init = Some (Inr mgr) \<and>
    concat (map sv_symbols (mg_services mgr)) = symbols \<and>
    (\<forall>s\<in>set (mg_services mgr). int (length (sv_symbols s)) \<le> k) \<and>
    dom (mg_index mgr) = set symbols \<and>
    (\<forall>nm i. mg_index mgr nm = Some i \<longrightarrow>
       i < length (mg_services mgr) \<and> nm \<in> set (sv_symbols (mg_services mgr ! i)))"
  using assms(3) open_manager_ok [OF assms(1,2)] unfolding index_ok_def
  by (auto simp: WsDepthClientManager_Open_def WsDepthClientManager_Init_def WsTradeClientManager_Open_def
      WsTradeClientManager_Init_def WsKLineManager_Open_def WsKLineManager_Init_def WsAggTradeManager_Open_def
      WsAggTradeManager_Init_def WsOrbIncClientManager_Open_def WsOrbIncClientManager_Init_def)

theorem symbols_allocated_witness:
  "\<exists>mgr. WsTradeClientManager_Open 2 [''A'', ''B'', ''C''] WsTradeClientManager_Init = Some (Inr mgr) \<and>
    concat (map sv_symbols (mg_services mgr)) = [''A'', ''B'', ''C''] \<and> dom (mg_index mgr) = {''A'', ''B'', ''C''}"
  using symbols_allocated [of 2 "[''A'', ''B'', ''C'']" WsTradeClientManager_Open WsTradeClientManager_Init] by auto

end
