(* ===== verification/Recv_Fanout.thy ===== *)
theory Recv_Fanout
  imports Recv_Events Pb_Messages
begin

text \<open>
  The fan-out of the receiving service (\<open>cmd/QuoteRecvSerivce/fanout.go\<close>): a message is encoded with
  \<open>encoding/gob\<close> or as a protobuf message with a topic, and sent as one or two frames to every
  ZeroMQ socket. \<open>gob_encode\<close>, \<open>flate\<close> (\<open>Write\<close> and \<open>Flush\<close> of a \<open>flate.Writer\<close>) and \<open>marshal\<close>
  (\<open>proto.Marshal\<close>) are arguments that give \<open>None\<close> where the call fails.
\<close>

section \<open>Messages of quote_common.pb.go\<close>

record 'f DepthInfo =
  di_Timestamp :: int
  di_TransTs :: int
  di_FirstUpdateId :: int
  di_LastUpdateId :: int
  di_PrevLastUpdateId :: int
  di_Bids :: "'f PriceLevel list"
  di_Asks :: "'f PriceLevel list"

record 'f KlineInfo =
  ki_Timestamp :: int
  ki_StartTime :: int
  ki_EndTime :: int
  ki_Symbol :: string
  ki_Interval :: string
  ki_FirstTradeId :: int
  ki_LastTradeId :: int
  ki_Open :: 'f
  ki_Close :: 'f
  ki_High :: 'f
  ki_Low :: 'f
  ki_Volume :: 'f
  ki_TradeNum :: int
  ki_IsFinal :: bool
  ki_QuoteVolume :: 'f
  ki_ActiveBuyVolume :: 'f
  ki_ActiveBuyQuoteVolume :: 'f

record 'f AggTradeInfo =
  ai_Timestamp :: int
  ai_Symbol :: string
  ai_AggregateTradeId :: int
  ai_Price :: 'f
  ai_Quantity :: 'f
  ai_FirstTradeId :: int
  ai_LastTradeId :: int
  ai_TradeTime :: int
  ai_Maker :: bool

text \<open>What \<open>proto.Marshal\<close> is called with.\<close>

datatype 'f pb_info =
    Pb_Depth "'f DepthInfo"
  | Pb_Inc "'f IncrementOrderBookInfo"
  | Pb_Trade "'f TradeInfo"
  | Pb_SnapShot "'f SnapShotInfo"
  | Pb_Kline "'f KlineInfo"
  | Pb_AggTrade "'f AggTradeInfo"

section \<open>Encoding\<close>

definition encode_depth :: "(string \<Rightarrow> 'f option) \<Rightarrow> QuoteDepth \<Rightarrow> 'f::zero DepthInfo" where
  "encode_depth ParseFloat depth =
     \<lparr>di_Timestamp = qd_Time depth, di_TransTs = qd_TransactionTime depth,
      di_FirstUpdateId = qd_FirstUpdateID depth, di_LastUpdateId = qd_LastUpdateID depth,
      di_PrevLastUpdateId = qd_PrevLastUpdateID depth,
      di_Bids = map (price_level ParseFloat) (qd_Bids depth),
      di_Asks = map (price_level ParseFloat) (qd_Asks depth)\<rparr>"

definition encode_inc :: "(string \<Rightarrow> 'f option) \<Rightarrow> QuoteOrbIncr \<Rightarrow> 'f::zero IncrementOrderBookInfo" where
  "encode_inc ParseFloat inc =
     \<lparr>io_Timestamp = qi_Time inc, io_TransTs = qi_TransactionTime inc,
      io_FirstUpdateId = qi_FirstUpdateID inc, io_LastUpdateId = qi_LastUpdateID inc,
      io_PrevLastUpdateId = qi_PrevLastUpdateID inc,
      io_Bids = map (price_level ParseFloat) (qi_Bids inc),
      io_Asks = map (price_level ParseFloat) (qi_Asks inc)\<rparr>"

definition encode_trade :: "(string \<Rightarrow> 'f option) \<Rightarrow> QuoteTrade \<Rightarrow> 'f::zero TradeInfo" where
  "encode_trade ParseFloat trade =
     \<lparr>ti_Timestamp = qt_Time trade, ti_TradeId = qt_TradeID trade,
      ti_Price = parsed_or_zero ParseFloat (qt_Price trade),
      ti_Qty = parsed_or_zero ParseFloat (qt_Quantity trade),
      ti_BuyerOrderId = qt_BuyerOrderID trade, ti_SellerOrderId = qt_SellerOrderID trade,
      ti_TradeTs = qt_TradeTime trade, ti_IsBuyerMaker = qt_IsBuyerMaker trade,
      ti_PlaceHolder = qt_Placeholder trade\<rparr>"

definition encode_snapshot :: "(string \<Rightarrow> 'f option) \<Rightarrow> QuoteSnapShot \<Rightarrow> 'f::zero SnapShotInfo" where
  "encode_snapshot ParseFloat snap =
     \<lparr>si_LastUpdateId = qs_LastUpdateID snap, si_Timestamp = qs_Time snap, si_TradeTs = qs_TradeTime snap,
      si_Bids = map (price_level ParseFloat) (qs_Bids snap),
      si_Asks = map (price_level ParseFloat) (qs_Asks snap)\<rparr>"

definition encode_kline :: "(string \<Rightarrow> 'f option) \<Rightarrow> QuoteKline \<Rightarrow> 'f::zero KlineInfo" where
  "encode_kline ParseFloat kline =
     \<lparr>ki_Timestamp = qk_Time kline, ki_StartTime = qk_StartTime kline, ki_EndTime = qk_EndTime kline,
      ki_Symbol = qk_Symbol kline, ki_Interval = qk_Interval kline,
      ki_FirstTradeId = qk_FirstTradeID kline, ki_LastTradeId = qk_LastTradeID kline,
      ki_Open = parsed_or_zero ParseFloat (qk_Open kline), ki_Close = parsed_or_zero ParseFloat (qk_Close kline),
      ki_High = parsed_or_zero ParseFloat (qk_High kline), ki_Low = parsed_or_zero ParseFloat (qk_Low kline),
      ki_Volume = parsed_or_zero ParseFloat (qk_Volume kline), ki_TradeNum = qk_TradeNum kline,
      ki_IsFinal = qk_IsFinal kline, ki_QuoteVolume = parsed_or_zero ParseFloat (qk_QuoteVolume kline),
      ki_ActiveBuyVolume = parsed_or_zero ParseFloat (qk_ActiveBuyVolume kline),
      ki_ActiveBuyQuoteVolume = parsed_or_zero ParseFloat (qk_ActiveBuyQuoteVolume kline)\<rparr>"

definition encode_aggtrade :: "(string \<Rightarrow> 'f option) \<Rightarrow> QuoteAggTrade \<Rightarrow> 'f::zero AggTradeInfo" where
  "encode_aggtrade ParseFloat agg =
     \<lparr>ai_Timestamp = qa_Time agg, ai_Symbol = qa_Symbol agg, ai_AggregateTradeId = qa_AggregateTradeID agg,
      ai_Price = parsed_or_zero ParseFloat (qa_Price agg),
      ai_Quantity = parsed_or_zero ParseFloat (qa_Quantity agg),
      ai_FirstTradeId = qa_FirstTradeID agg, ai_LastTradeId = qa_LastTradeID agg,
      ai_TradeTime = qa_TradeTime agg, ai_Maker = qa_Maker agg\<rparr>"

text \<open>Marshal and return with the topic; the results stay nil where marshalling fails.\<close>

definition with_topic :: "bytes option \<Rightarrow> string \<Rightarrow> bytes option \<times> string option" where
  "with_topic res topic = (case res of None \<Rightarrow> (None, None) | Some bs \<Rightarrow> (Some bs, Some topic))"

definition encodePb ::
  "(string \<Rightarrow> 'f option) \<Rightarrow> ('f::zero pb_info \<Rightarrow> bytes option) \<Rightarrow> Message \<Rightarrow> bytes option \<times> string option" where
  "encodePb pf marshal msg =
     (if msg_Type msg = MessageType_Quote then
        (case msg_Payload msg of
           Payload_Quote quote \<Rightarrow>
             if qm_Type quote = QuoteDataType_Depth then
               (case qm_Data quote of
                  Data_Depth depth \<Rightarrow> with_topic (marshal (Pb_Depth (encode_depth pf depth))) (''depth/'' @ qd_Symbol depth)
                | _ \<Rightarrow> (None, None))
             else if qm_Type quote = QuoteDataType_OrderIncrement then
               (case qm_Data quote of
                  Data_OrbIncr inc \<Rightarrow> with_topic (marshal (Pb_Inc (encode_inc pf inc))) (''inc/'' @ qi_Symbol inc)
                | _ \<Rightarrow> (None, None))
             else if qm_Type quote = QuoteDataType_Trade then
               (case qm_Data quote of
                  Data_Trade trade \<Rightarrow> with_topic (marshal (Pb_Trade (encode_trade pf trade))) (''trade/'' @ qt_Symbol trade)
                | _ \<Rightarrow> (None, None))
             else if qm_Type quote = QuoteDataType_SnapShot then
               (case qm_Data quote of
                  Data_SnapShot snap \<Rightarrow> with_topic (marshal (Pb_SnapShot (encode_snapshot pf snap))) (''snapshot/'' @ qs_Symbol snap)
                | _ \<Rightarrow> (None, None))
             else if qm_Type quote = QuoteDataType_Kline then
               (case qm_Data quote of
                  Data_Kline kline \<Rightarrow> with_topic (marshal (Pb_Kline (encode_kline pf kline))) (''kline/'' @ qk_Symbol kline)
                | _ \<Rightarrow> (None, None))
             else if qm_Type quote = QuoteDataType_AggTrade then
               (case qm_Data quote of
                  Data_AggTrade agg \<Rightarrow> with_topic (marshal (Pb_AggTrade (encode_aggtrade pf agg))) (''aggtrade/'' @ qa_Symbol agg)
                | _ \<Rightarrow> (None, None))
             else (None, None)
         | Payload_Other \<Rightarrow> (None, None))
      else (None, None))"

text \<open>\<open>gob_encode\<close> is the encoder of \<open>encoding/gob\<close>: the bytes it writes to the buffer and whether it
  succeeds. A compression that fails leaves the data as it is, and the bytes of an empty buffer are nil.\<close>

definition encodeGob ::
  "(Message \<Rightarrow> bytes \<times> bool) \<Rightarrow> (bytes \<Rightarrow> bytes option) \<Rightarrow> bool \<Rightarrow> Message \<Rightarrow> bytes option \<times> string option" where
  "encodeGob gob_encode flate compressed msg =
     (let (data, ok) = gob_encode msg;
          data' = (if ok \<and> compressed then (case flate data of Some z \<Rightarrow> z | None \<Rightarrow> data) else data)
      in (if data' = [] then None else Some data', None))"

section \<open>Sockets\<close>

text \<open>\<open>init\<close>: one socket per address, which is named after the address; \<open>new_sock\<close> says whether
  \<open>zmq.NewSocket\<close> succeeds. What \<open>Connect\<close> returns is dropped.\<close>

fun recv_fanout_init :: "(string \<Rightarrow> bool) \<Rightarrow> string list \<Rightarrow> string list \<Rightarrow> string list go" where
  "recv_fanout_init new_sock [] producers = Inr producers"
| "recv_fanout_init new_sock (addr # servers) producers =
     (if new_sock addr then recv_fanout_init new_sock servers (producers @ [addr])
      else Inl (Panicked ''NewSocket''))"

lemma recv_fanout_init_ok:
  "\<forall>addr\<in>set servers. new_sock addr \<Longrightarrow> recv_fanout_init new_sock servers producers = Inr (producers @ servers)"
  by (induction servers arbitrary: producers) simp_all

section \<open>Sending\<close>

text \<open>The frames that are sent to each socket, in order; \<open>[]\<close> where nothing is sent. A later branch
  overwrites an earlier one, as in the source.\<close>

definition frames_of :: "bytes option \<times> string option \<Rightarrow> bytes list" where
  "frames_of r =
     (case r of
        (None, _) \<Rightarrow> []
      | (Some data, None) \<Rightarrow> [data]
      | (Some data, Some topic) \<Rightarrow> [bytes_of topic, data])"

definition fanout ::
  "(string \<Rightarrow> 'f option) \<Rightarrow> ('f::zero pb_info \<Rightarrow> bytes option) \<Rightarrow> (Message \<Rightarrow> bytes \<times> bool) \<Rightarrow>
     (bytes \<Rightarrow> bytes option) \<Rightarrow> bool \<Rightarrow> string \<Rightarrow> 's list \<Rightarrow> Message \<Rightarrow> ('s \<times> bytes list) list" where
  "fanout pf marshal gob_encode flate compressed encodeType producers msg =
     (let r0 = (if ToUpper encodeType = ''GOB'' then encodeGob gob_encode flate compressed msg else (None, None));
          r = (if ToUpper encodeType = ''PB'' then encodePb pf marshal msg else r0)
      in if fst r = None then [] else map (\<lambda>dest. (dest, frames_of r)) producers)"

text \<open>One round of the loop that \<open>open\<close> starts: take a message from the channel and fan it out.\<close>

definition fanout_step ::
  "(string \<Rightarrow> 'f option) \<Rightarrow> ('f::zero pb_info \<Rightarrow> bytes option) \<Rightarrow> (Message \<Rightarrow> bytes \<times> bool) \<Rightarrow>
     (bytes \<Rightarrow> bytes option) \<Rightarrow> bool \<Rightarrow> string \<Rightarrow> 's list \<Rightarrow> msg_chan \<Rightarrow> (msg_chan \<times> ('s \<times> bytes list) list) option" where
  "fanout_step pf marshal gob_encode flate compressed encodeType producers ch =
     (case ch of
        [] \<Rightarrow> None
      | msg # rest \<Rightarrow> Some (rest, fanout pf marshal gob_encode flate compressed encodeType producers msg))"

end
