(* ===== verification/Trading_Symbols.thy ===== *)
theory Trading_Symbols
  imports Aggr_Controller
begin

text \<open>
  The symbols a service works on: the exchange's list of symbols, the filters of a symbol
  (\<open>NewTradingSymbol\<close> in \<open>config.go\<close>), and the choice of the trading symbols (\<open>updateExchangeInfo\<close>,
  \<open>loadTradingSymbol\<close> and \<open>initBinance\<close> in the two \<open>controller.go\<close>). The client of the exchange is an
  argument: \<open>fetch k\<close> is the list of symbols that the \<open>k\<close>-th request returns, or \<open>None\<close> for an error.
  \<open>dec\<close> is \<open>decimal.NewFromString\<close>, \<open>newint\<close> is \<open>decimal.NewFromInt\<close>.
\<close>

section \<open>Filters\<close>

text \<open>The dynamic type and value of an \<open>interface{}\<close>, as far as type assertions look at it.\<close>

datatype 'f go_value = VNil | VBool bool | VString string | VInt int | VInt64 int | VFloat64 'f | VComposite

type_synonym 'f filter_map = "string \<rightharpoonup> 'f go_value"

text \<open>\<open>kv[key]\<close>, which is nil for a key that is missing.\<close>

definition field :: "'f filter_map \<Rightarrow> string \<Rightarrow> 'f go_value" where
  "field kv key = (case kv key of None \<Rightarrow> VNil | Some v \<Rightarrow> v)"

text \<open>\<open>v.(string)\<close>\<close>

fun as_string :: "'f go_value \<Rightarrow> string go" where
  "as_string (VString s) = Inr s"
| "as_string _ = Inl TypeAssertion"

text \<open>\<open>x, _ = decimal.NewFromString(kv[key].(string))\<close>; a string that is no number gives the zero decimal.\<close>

definition decimal_field :: "(string \<Rightarrow> 'd option) \<Rightarrow> 'f filter_map \<Rightarrow> string \<Rightarrow> 'd::zero go" where
  "decimal_field dec kv key = go_bind (as_string (field kv key)) (\<lambda>s. Inr (parsed_or_zero dec s))"

record 'f ExchangeSymbol =
  xs_Symbol :: string
  xs_Pair :: string
  xs_Status :: string
  xs_Filters :: "'f filter_map list"

record ('d, 'f) TradingSymbol =
  ts_Inner :: "'f ExchangeSymbol"
  ts_Name :: string
  ts_Pair :: string
  ts_Price_max :: 'd
  ts_Price_min :: 'd
  ts_Price_tickSize :: 'd
  ts_LotSize_maxQty :: 'd
  ts_LotSize_minQty :: 'd
  ts_LotSize_stepSize :: 'd
  ts_MarketLotSize_maxQty :: 'd
  ts_MarketLotSize_minQty :: 'd
  ts_MarketLotSize_stepSize :: 'd
  ts_MaxNumOrders_limit :: 'd
  ts_MinNotional :: 'd
  ts_multiplierDecimal :: int
  ts_multiplierDown :: 'd
  ts_multiplierUp :: 'd
  ts_MarketTakeBound :: 'd

definition blank_symbol :: "'f ExchangeSymbol \<Rightarrow> ('d::zero, 'f) TradingSymbol" where
  "blank_symbol s =
     \<lparr>ts_Inner = s, ts_Name = xs_Symbol s, ts_Pair = xs_Pair s, ts_Price_max = 0, ts_Price_min = 0,
      ts_Price_tickSize = 0, ts_LotSize_maxQty = 0, ts_LotSize_minQty = 0, ts_LotSize_stepSize = 0,
      ts_MarketLotSize_maxQty = 0, ts_MarketLotSize_minQty = 0, ts_MarketLotSize_stepSize = 0,
      ts_MaxNumOrders_limit = 0, ts_MinNotional = 0, ts_multiplierDecimal = 0, ts_multiplierDown = 0,
      ts_multiplierUp = 0, ts_MarketTakeBound = 0\<rparr>"

text \<open>One turn of the loop over the filters: the switch over \<open>kv["filterType"]\<close>.\<close>

definition apply_filter ::
  "(string \<Rightarrow> 'd option) \<Rightarrow> (int \<Rightarrow> 'd) \<Rightarrow> 'f filter_map \<Rightarrow> ('d::zero, 'f) TradingSymbol \<Rightarrow> ('d, 'f) TradingSymbol go" where
  "apply_filter dec newint kv ts =
     (case field kv ''filterType'' of
        VString ty \<Rightarrow>
          if ty = ''PRICE_FILTER'' then
            go_bind (decimal_field dec kv ''maxPrice'') (\<lambda>a.
            go_bind (decimal_field dec kv ''minPrice'') (\<lambda>b.
            go_bind (decimal_field dec kv ''tickSize'') (\<lambda>c.
              Inr (ts\<lparr>ts_Price_max := a, ts_Price_min := b, ts_Price_tickSize := c\<rparr>))))
          else if ty = ''LOT_SIZE'' then
            go_bind (decimal_field dec kv ''maxQty'') (\<lambda>a.
            go_bind (decimal_field dec kv ''minQty'') (\<lambda>b.
            go_bind (decimal_field dec kv ''stepSize'') (\<lambda>c.
              Inr (ts\<lparr>ts_LotSize_maxQty := a, ts_LotSize_minQty := b, ts_LotSize_stepSize := c\<rparr>))))
          else if ty = ''MARKET_LOT_SIZE'' then
            go_bind (decimal_field dec kv ''maxQty'') (\<lambda>a.
            go_bind (decimal_field dec kv ''minQty'') (\<lambda>b.
            go_bind (decimal_field dec kv ''stepSize'') (\<lambda>c.
              Inr (ts\<lparr>ts_MarketLotSize_maxQty := a, ts_MarketLotSize_minQty := b, ts_MarketLotSize_stepSize := c\<rparr>))))
          else if ty = ''MAX_NUM_ORDERS'' then
            Inr (case field kv ''limit'' of VInt64 v \<Rightarrow> ts\<lparr>ts_MaxNumOrders_limit := newint v\<rparr> | _ \<Rightarrow> ts)
          else if ty = ''MIN_NOTIONAL'' then
            Inr (case field kv ''notional'' of VString v \<Rightarrow> ts\<lparr>ts_MinNotional := parsed_or_zero dec v\<rparr> | _ \<Rightarrow> ts)
          else if ty = ''PERCENT_PRICE'' then
            (let ts1 = ts\<lparr>ts_multiplierDecimal := (case field kv ''multiplierDecimal'' of VInt v \<Rightarrow> v | _ \<Rightarrow> 0)\<rparr>
             in go_bind (decimal_field dec kv ''multiplierDown'') (\<lambda>a.
                go_bind (decimal_field dec kv ''multiplierUp'') (\<lambda>b.
                  Inr (ts1\<lparr>ts_multiplierDown := a, ts_multiplierUp := b\<rparr>))))
          else if ty = ''MARKET_TAKE'' then
            go_bind (decimal_field dec kv ''multiplierUp'') (\<lambda>a. Inr (ts\<lparr>ts_MarketTakeBound := a\<rparr>))
          else Inr ts
      | _ \<Rightarrow> Inr ts)"

fun apply_filters ::
  "(string \<Rightarrow> 'd option) \<Rightarrow> (int \<Rightarrow> 'd) \<Rightarrow> 'f filter_map list \<Rightarrow> ('d::zero, 'f) TradingSymbol \<Rightarrow> ('d, 'f) TradingSymbol go" where
  "apply_filters dec newint [] ts = Inr ts"
| "apply_filters dec newint (kv # kvs) ts = go_bind (apply_filter dec newint kv ts) (apply_filters dec newint kvs)"

definition NewTradingSymbol ::
  "(string \<Rightarrow> 'd option) \<Rightarrow> (int \<Rightarrow> 'd) \<Rightarrow> 'f ExchangeSymbol \<Rightarrow> ('d::zero, 'f) TradingSymbol go" where
  "NewTradingSymbol dec newint s = apply_filters dec newint (xs_Filters s) (blank_symbol s)"

section \<open>The symbols of the exchange\<close>

type_synonym 'f exchange = "string \<rightharpoonup> 'f ExchangeSymbol"

definition exchange_map :: "'f ExchangeSymbol list \<Rightarrow> 'f exchange \<Rightarrow> 'f exchange" where
  "exchange_map syms m = fold (\<lambda>syn m. m(xs_Symbol syn \<mapsto> syn)) syms m"

text \<open>The aggregator starts from an empty map, the receiver from the map it has.\<close>

definition updateExchangeInfo :: "(nat \<Rightarrow> 'f ExchangeSymbol list option) \<Rightarrow> 'f exchange option" where
  "updateExchangeInfo fetch = map_option (\<lambda>syms. exchange_map syms Map.empty) (retry fetch 0)"

definition recv_updateExchangeInfo :: "(nat \<Rightarrow> 'f ExchangeSymbol list option) \<Rightarrow> 'f exchange \<Rightarrow> 'f exchange option" where
  "recv_updateExchangeInfo fetch m = map_option (\<lambda>syms. exchange_map syms m) (retry fetch 0)"

section \<open>The trading symbols\<close>

text \<open>The body of both loops of \<open>loadTradingSymbol\<close>; the second loop visits the keys of the map, so its
  lookup always succeeds.\<close>

fun load_names ::
  "(string \<Rightarrow> 'd option) \<Rightarrow> (int \<Rightarrow> 'd) \<Rightarrow> 'f exchange \<Rightarrow> string list \<Rightarrow> (string \<rightharpoonup> ('d::zero, 'f) TradingSymbol) \<Rightarrow>
     (string \<rightharpoonup> ('d, 'f) TradingSymbol) go" where
  "load_names dec newint exch [] m = Inr m"
| "load_names dec newint exch (name # names) m =
     (case exch name of
        None \<Rightarrow> load_names dec newint exch names m
      | Some s \<Rightarrow>
          (if xs_Status s = ''TRADING''
           then go_bind (NewTradingSymbol dec newint s) (\<lambda>ts. load_names dec newint exch names (m(name \<mapsto> ts)))
           else load_names dec newint exch names m))"

text \<open>\<open>configured\<close> is \<open>TradingSymbols\<close> of the configuration, \<open>order\<close> the order in which Go visits the map.
  The aggregator starts from an empty map; the receiver adds to the map it has.\<close>

definition recv_loadTradingSymbol ::
  "(string \<Rightarrow> 'd option) \<Rightarrow> (int \<Rightarrow> 'd) \<Rightarrow> string list \<Rightarrow> string list \<Rightarrow> 'f exchange \<Rightarrow>
     (string \<rightharpoonup> ('d::zero, 'f) TradingSymbol) \<Rightarrow> (string \<rightharpoonup> ('d, 'f) TradingSymbol) go" where
  "recv_loadTradingSymbol dec newint configured order exch m =
     (if configured \<noteq> [] then load_names dec newint exch configured m else load_names dec newint exch order m)"

definition loadTradingSymbol ::
  "(string \<Rightarrow> 'd option) \<Rightarrow> (int \<Rightarrow> 'd) \<Rightarrow> string list \<Rightarrow> string list \<Rightarrow> 'f exchange \<Rightarrow>
     (string \<rightharpoonup> ('d::zero, 'f) TradingSymbol) go" where
  "loadTradingSymbol dec newint configured order exch =
     (if configured \<noteq> [] then load_names dec newint exch configured Map.empty
      else load_names dec newint exch order Map.empty)"

definition GetTradingSymbolInfo :: "(string \<rightharpoonup> ('d, 'f) TradingSymbol) \<Rightarrow> string \<Rightarrow> ('d, 'f) TradingSymbol option" where
  "GetTradingSymbolInfo m name = (case m name of Some symbol \<Rightarrow> Some symbol | None \<Rightarrow> None)"

section \<open>Accounts\<close>

record AccountConfig =
  ac_Name :: string
  ac_ApiKey :: string
  ac_SecretKey :: string
  ac_TestNet :: bool

text \<open>The loop has no \<open>break\<close>: the last account of the name is taken.\<close>

definition select_account :: "string \<Rightarrow> AccountConfig list \<Rightarrow> AccountConfig option" where
  "select_account name accounts = fold (\<lambda>acc sel. if ac_Name acc = name then Some acc else sel) accounts None"

definition FutureLiveNet :: string where
  "FutureLiveNet = ''wss://ws-fapi.binance.com:443/ws-fapi/v1''"

definition FutureTestNet :: string where
  "FutureTestNet = ''wss://testnet.binancefuture.com/ws-fapi/v1''"

definition GetFutureNetUrl :: "bool \<Rightarrow> string" where
  "GetFutureNetUrl testnet = (if testnet then FutureTestNet else FutureLiveNet)"

text \<open>The client of the exchange's request API, a connection with a flag that says whether it is open. \<open>dial\<close>
  tells for an account's keys, an address and the number of the attempt which connection is made. \<open>None\<close> where
  no attempt succeeds.\<close>

type_synonym api_client = "nat \<times> bool"

type_synonym api_dial = "string \<Rightarrow> string \<Rightarrow> string \<Rightarrow> nat \<Rightarrow> nat option"

definition GetOrNewWsClient :: "api_dial \<Rightarrow> AccountConfig \<Rightarrow> api_client option \<Rightarrow> api_client option" where
  "GetOrNewWsClient dial acc wsapiClient =
     (case wsapiClient of
        Some client \<Rightarrow> Some client
      | None \<Rightarrow> map_option (\<lambda>conn. (conn, True))
                  (retry (dial (ac_ApiKey acc) (ac_SecretKey acc) (GetFutureNetUrl (ac_TestNet acc))) 0))"

definition ResetWsClient :: "api_client option \<Rightarrow> api_client option" where
  "ResetWsClient wsapiClient = map_option (\<lambda>(conn, _). (conn, False)) wsapiClient"

text \<open>The first half of \<open>initBinance\<close> of the aggregator decides what it works on: the account, then the
  symbols. \<open>None\<close> where the exchange never answers.\<close>

definition initBinance_symbols ::
  "(string \<Rightarrow> 'd option) \<Rightarrow> (int \<Rightarrow> 'd::zero) \<Rightarrow> string \<Rightarrow> AccountConfig list \<Rightarrow> string list \<Rightarrow>
     (nat \<Rightarrow> 'f ExchangeSymbol list option) \<Rightarrow> ('f exchange \<Rightarrow> string list) \<Rightarrow> controller \<Rightarrow>
     (AccountConfig \<times> (string \<rightharpoonup> ('d, 'f) TradingSymbol) \<times> controller) go option" where
  "initBinance_symbols dec newint account accounts configured fetch order c =
     (case select_account account accounts of
        None \<Rightarrow> Some (Inl (Panicked ''Please check Account!''))
      | Some acc \<Rightarrow>
          (case updateExchangeInfo fetch of
             None \<Rightarrow> None
           | Some exch \<Rightarrow>
               Some (go_bind (loadTradingSymbol dec newint configured (order exch) exch) (\<lambda>m.
                 Inr (acc, m, updateAggrSymbols (dom m) c)))))"

section \<open>Lemmas\<close>

lemma decimal_field_panics: "decimal_field dec kv key = Inl p \<Longrightarrow> p = TypeAssertion"
  by (cases "field kv key") (simp_all add: decimal_field_def)

lemma decimal_field_cases:
  obtains x where "decimal_field dec kv key = Inr x" | "decimal_field dec kv key = Inl TypeAssertion"
  using decimal_field_panics by (cases "decimal_field dec kv key") auto

text \<open>A filter changes neither the name nor the pair, and the only panic is a failed type assertion.\<close>

lemma go_bind_decimal:
  assumes "\<And>x. r = Inr x \<Longrightarrow> P (f x)" and "P (Inl TypeAssertion)" and "r = decimal_field dec kv key"
  shows "P (go_bind r f)"
  using assms by (cases rule: decimal_field_cases [of dec kv key]) simp_all

definition keeps_names :: "('d, 'f) TradingSymbol \<Rightarrow> ('d, 'f) TradingSymbol go \<Rightarrow> bool" where
  "keeps_names ts r \<longleftrightarrow>
     (case r of Inl p \<Rightarrow> p = TypeAssertion
      | Inr ts' \<Rightarrow> ts_Inner ts' = ts_Inner ts \<and> ts_Name ts' = ts_Name ts \<and> ts_Pair ts' = ts_Pair ts)"

lemma apply_filter_keeps: "keeps_names ts (apply_filter dec newint kv ts)"
proof (cases "field kv ''filterType''")
  case (VString ty)
  have base: "keeps_names ts (Inl TypeAssertion)" by (simp add: keeps_names_def)
  show ?thesis unfolding apply_filter_def VString go_value.case Let_def
    by (intro if_split [where P = "keeps_names ts", THEN iffD2] conjI impI;
        (intro go_bind_decimal [where P = "keeps_names ts", OF _ base refl])?)
      (auto simp: keeps_names_def split: go_value.splits)
qed (simp_all add: apply_filter_def keeps_names_def)

lemma apply_filters_keeps: "keeps_names ts (apply_filters dec newint kvs ts)"
proof (induction kvs arbitrary: ts)
  case (Cons kv kvs)
  show ?case
  proof (cases "apply_filter dec newint kv ts")
    case (Inl p)
    with apply_filter_keeps [of ts dec newint kv] show ?thesis by (simp add: keeps_names_def)
  next
    case (Inr ts1)
    with apply_filter_keeps [of ts dec newint kv] Cons.IH [of ts1] show ?thesis
      by (auto simp: keeps_names_def split: sum.splits)
  qed
qed (simp add: keeps_names_def)

lemma NewTradingSymbol_panics: "NewTradingSymbol dec newint s = Inl p \<Longrightarrow> p = TypeAssertion"
  using apply_filters_keeps [of "blank_symbol s" dec newint "xs_Filters s"]
  by (simp add: NewTradingSymbol_def keeps_names_def)

lemma NewTradingSymbol_name: "NewTradingSymbol dec newint s = Inr ts \<Longrightarrow> ts_Name ts = xs_Symbol s \<and> ts_Inner ts = s"
  using apply_filters_keeps [of "blank_symbol s" dec newint "xs_Filters s"]
  by (simp add: NewTradingSymbol_def keeps_names_def blank_symbol_def)

text \<open>A client that was reset stays in its field: from then on every caller gets the closed connection.\<close>

lemma reset_client_stays_closed:
  "GetOrNewWsClient dial acc (ResetWsClient (Some client)) = Some (fst client, False)"
  by (cases client) (simp add: GetOrNewWsClient_def ResetWsClient_def)

lemma GetOrNewWsClient_connects:
  assumes "dial (ac_ApiKey acc) (ac_SecretKey acc) (GetFutureNetUrl (ac_TestNet acc)) n = Some conn"
    and "\<forall>i<n. dial (ac_ApiKey acc) (ac_SecretKey acc) (GetFutureNetUrl (ac_TestNet acc)) i = None"
  shows "GetOrNewWsClient dial acc None = Some (conn, True)"
  using retry_first [of "dial (ac_ApiKey acc) (ac_SecretKey acc) (GetFutureNetUrl (ac_TestNet acc))" 0 n conn] assms
  by (simp add: GetOrNewWsClient_def)

text \<open>The entries of the map of the exchange carry their own names.\<close>

lemma exchange_map_name:
  "exchange_map syms m n = Some s \<Longrightarrow> (\<And>n s. m n = Some s \<Longrightarrow> xs_Symbol s = n) \<Longrightarrow> xs_Symbol s = n"
  unfolding exchange_map_def
proof (induction syms arbitrary: m)
  case (Cons syn syms)
  show ?case by (rule Cons.IH [of "m(xs_Symbol syn \<mapsto> syn)"]) (use Cons.prems in \<open>auto split: if_splits\<close>)
qed simp

lemma exchange_map_finite: "finite (dom m) \<Longrightarrow> finite (dom (exchange_map syms m))"
  unfolding exchange_map_def by (induction syms arbitrary: m) simp_all

definition tradable :: "'f exchange \<Rightarrow> string \<Rightarrow> bool" where
  "tradable exch n \<longleftrightarrow> (case exch n of None \<Rightarrow> False | Some s \<Rightarrow> xs_Status s = ''TRADING'')"

definition readable :: "(string \<Rightarrow> 'd option) \<Rightarrow> (int \<Rightarrow> 'd::zero) \<Rightarrow> 'f exchange \<Rightarrow> string \<Rightarrow> bool" where
  "readable dec newint exch n \<longleftrightarrow>
     (case exch n of None \<Rightarrow> True | Some s \<Rightarrow> \<exists>ts. NewTradingSymbol dec newint s = Inr ts)"

definition loaded ::
  "(string \<Rightarrow> 'd option) \<Rightarrow> (int \<Rightarrow> 'd) \<Rightarrow> 'f exchange \<Rightarrow> string set \<Rightarrow> (string \<rightharpoonup> ('d::zero, 'f) TradingSymbol) \<Rightarrow>
     (string \<rightharpoonup> ('d, 'f) TradingSymbol)" where
  "loaded dec newint exch S m n =
     (if n \<in> S \<and> tradable exch n
      then (case NewTradingSymbol dec newint (the (exch n)) of Inr ts \<Rightarrow> Some ts | Inl _ \<Rightarrow> None) else m n)"

lemma loaded_skip: "\<not> tradable exch name \<Longrightarrow> loaded dec newint exch (insert name S) m = loaded dec newint exch S m"
  by (auto simp: loaded_def fun_eq_iff)

lemma loaded_insert:
  "tradable exch name \<Longrightarrow> exch name = Some s \<Longrightarrow> NewTradingSymbol dec newint s = Inr ts \<Longrightarrow>
   loaded dec newint exch (insert name S) m = loaded dec newint exch S (m(name \<mapsto> ts))"
  by (auto simp: loaded_def fun_eq_iff)

lemma load_names_result:
  "load_names dec newint exch names m =
     (if \<forall>n\<in>set names. tradable exch n \<longrightarrow> readable dec newint exch n
      then Inr (loaded dec newint exch (set names) m) else Inl TypeAssertion)"
proof (induction names arbitrary: m)
  case Nil
  show ?case by (simp add: loaded_def fun_eq_iff)
next
  case (Cons name names)
  show ?case
  proof (cases "tradable exch name")
    case False
    then have "load_names dec newint exch (name # names) m = load_names dec newint exch names m"
      by (auto simp: tradable_def split: option.splits)
    then show ?thesis using False by (simp add: Cons.IH loaded_skip)
  next
    case True
    then obtain s where s: "exch name = Some s" "xs_Status s = ''TRADING''"
      by (auto simp: tradable_def split: option.splits)
    show ?thesis
    proof (cases "NewTradingSymbol dec newint s")
      case (Inl p)
      with s NewTradingSymbol_panics [OF Inl] True show ?thesis by (simp add: readable_def)
    next
      case (Inr ts)
      with s True show ?thesis by (simp add: Cons.IH loaded_insert [OF True s(1) Inr] readable_def)
    qed
  qed
qed

text \<open>The names \<open>loadTradingSymbol\<close> keeps.\<close>

definition wanted_names :: "string list \<Rightarrow> 'f exchange \<Rightarrow> string set" where
  "wanted_names configured exch = {n. (configured = [] \<or> n \<in> set configured) \<and> tradable exch n}"

lemma loadTradingSymbol_result:
  assumes "range_order order exch"
  shows "loadTradingSymbol dec newint configured order exch =
    (if \<forall>n\<in>wanted_names configured exch. readable dec newint exch n
     then Inr (loaded dec newint exch (wanted_names configured exch) Map.empty) else Inl TypeAssertion)"
proof -
  let ?names = "if configured = [] then order else configured"
  have "set order = dom exch" using assms by (simp add: range_order_def)
  then have w: "n \<in> set ?names \<and> tradable exch n \<longleftrightarrow> n \<in> wanted_names configured exch" for n
    by (auto simp: wanted_names_def tradable_def dom_def split: option.splits)
  have "loadTradingSymbol dec newint configured order exch = load_names dec newint exch ?names Map.empty"
    by (simp add: loadTradingSymbol_def)
  moreover have "(\<forall>n\<in>set ?names. tradable exch n \<longrightarrow> readable dec newint exch n) \<longleftrightarrow>
      (\<forall>n\<in>wanted_names configured exch. readable dec newint exch n)" using w by blast
  moreover have "loaded dec newint exch (set ?names) Map.empty =
      loaded dec newint exch (wanted_names configured exch) Map.empty"
    using w by (auto simp: loaded_def fun_eq_iff wanted_names_def)
  ultimately show ?thesis by (simp only: load_names_result)
qed

lemma loaded_entry:
  assumes "\<forall>n\<in>S. readable dec newint exch n" and "\<forall>n\<in>S. tradable exch n"
  shows "n \<in> S \<Longrightarrow> \<exists>s ts. exch n = Some s \<and> NewTradingSymbol dec newint s = Inr ts \<and>
      loaded dec newint exch S Map.empty n = Some ts"
    and "dom (loaded dec newint exch S Map.empty) = S"
proof -
  show entry: "\<exists>s ts. exch n = Some s \<and> NewTradingSymbol dec newint s = Inr ts \<and>
      loaded dec newint exch S Map.empty n = Some ts" if "n \<in> S" for n
  proof -
    from that assms have t: "tradable exch n" and r: "readable dec newint exch n" by auto
    from t obtain s where s: "exch n = Some s" by (auto simp: tradable_def split: option.splits)
    with r obtain ts where "NewTradingSymbol dec newint s = Inr ts" by (auto simp: readable_def)
    with s t that show ?thesis by (auto simp: loaded_def)
  qed
  have "loaded dec newint exch S Map.empty n = None" if "n \<notin> S" for n
    using that by (simp add: loaded_def)
  with entry show "dom (loaded dec newint exch S Map.empty) = S" by fastforce
qed

lemma initBinance_symbols_result:
  assumes "fetch k = Some syms" and "\<forall>i<k. fetch i = None" and "select_account account accounts = Some acc"
    and "exch = exchange_map syms Map.empty" and "range_order (order exch) exch"
  shows "initBinance_symbols dec newint account accounts configured fetch order c =
    Some (if \<forall>n\<in>wanted_names configured exch. readable dec newint exch n
          then Inr (acc, loaded dec newint exch (wanted_names configured exch) Map.empty,
                    updateAggrSymbols (wanted_names configured exch) c)
          else Inl TypeAssertion)"
proof -
  have "retry fetch 0 = Some syms" using retry_first [of fetch 0 k syms] assms(1,2) by simp
  then have upd: "updateExchangeInfo fetch = Some exch" by (simp add: updateExchangeInfo_def assms(4))
  have trad: "\<forall>n\<in>wanted_names configured exch. tradable exch n" by (simp add: wanted_names_def)
  note dom = loaded_entry(2) [OF _ trad, of dec newint]
  show ?thesis
    unfolding initBinance_symbols_def upd assms(3) option.case loadTradingSymbol_result [OF assms(5)]
    using dom by (simp only: if_distrib [of Some] split: if_split) simp
qed

section \<open>Properties\<close>

text \<open>C26. The aggregator works on exactly the tradable symbols: once the exchange answers, the set-up in \<open>initBinance\<close> returns;
  its trading symbols are those of the configured names, or of all names where none is configured,
  that the exchange lists with status \<open>TRADING\<close>, each under its own name, and it aggregates one fresh
  period buffer per trading symbol, whatever order the map is visited in. It panics exactly where one of
  these symbols has a filter that lacks a string the code asserts.\<close>

theorem trading_symbols_exact:
  assumes "fetch k = Some syms" and "\<forall>i<k. fetch i = None" and "select_account account accounts = Some acc"
    and "exch = exchange_map syms Map.empty" and "range_order (order exch) exch"
  shows "if \<forall>n\<in>wanted_names configured exch. readable dec newint exch n
     then \<exists>m c'. initBinance_symbols dec newint account accounts configured fetch order c = Some (Inr (acc, m, c')) \<and>
            dom m = wanted_names configured exch \<and> dom (periodSymbols c') = wanted_names configured exch \<and>
            (\<forall>n ts. m n = Some ts \<longrightarrow> ts_Name ts = n \<and> exch n = Some (ts_Inner ts))
     else initBinance_symbols dec newint account accounts configured fetch order c = Some (Inl TypeAssertion)"
proof -
  let ?S = "wanted_names configured exch"
  let ?m = "loaded dec newint exch ?S Map.empty"
  note res = initBinance_symbols_result [where order = order and fetch = fetch, OF assms, of dec newint configured c]
  show ?thesis
  proof (cases "\<forall>n\<in>?S. readable dec newint exch n")
    case False
    show ?thesis unfolding res if_not_P [OF False] by (rule refl)
  next
    case True
    have trad: "\<forall>n\<in>?S. tradable exch n" by (simp add: wanted_names_def)
    note entry = loaded_entry(1) [OF True trad] and dom = loaded_entry(2) [OF True trad]
    have ret: "initBinance_symbols dec newint account accounts configured fetch order c = Some (Inr (acc, ?m, updateAggrSymbols ?S c))"
      unfolding res if_P [OF True] by (rule refl)
    have "ts_Name ts = n \<and> exch n = Some (ts_Inner ts)" if "?m n = Some ts" for n ts
    proof -
      from that dom have "n \<in> ?S" by blast
      from entry [OF this] that obtain s where s: "exch n = Some s" "NewTradingSymbol dec newint s = Inr ts" by auto
      have "xs_Symbol s = n" by (rule exchange_map_name [of syms Map.empty]) (use s(1) assms(4) in auto)
      with NewTradingSymbol_name [OF s(2)] s(1) show ?thesis by simp
    qed
    moreover have "dom (periodSymbols (updateAggrSymbols ?S c)) = ?S" by (auto simp: updateAggrSymbols_def dom_def)
    ultimately show ?thesis using True ret dom by auto
  qed
qed

definition demo_syms :: "int ExchangeSymbol list" where
  "demo_syms =
     [\<lparr>xs_Symbol = ''BTCUSDT'', xs_Pair = ''BTCUSDT'', xs_Status = ''TRADING'',
       xs_Filters = [[''filterType'' \<mapsto> VString ''MAX_NUM_ORDERS'', ''limit'' \<mapsto> VFloat64 200],
                     [''filterType'' \<mapsto> VString ''MARKET_TAKE'', ''multiplierUp'' \<mapsto> VString ''5'']]\<rparr>,
      \<lparr>xs_Symbol = ''OLDUSDT'', xs_Pair = ''OLDUSDT'', xs_Status = ''SETTLING'', xs_Filters = []\<rparr>]"

definition demo_account :: AccountConfig where
  "demo_account = \<lparr>ac_Name = ''a'', ac_ApiKey = ''k'', ac_SecretKey = ''s'', ac_TestNet = False\<rparr>"

abbreviation demo_dec :: "string \<Rightarrow> int option" where
  "demo_dec \<equiv> (\<lambda>s. if s = [] then None else Some 5)"

lemma demo_exchange: "exchange_map demo_syms Map.empty = [''BTCUSDT'' \<mapsto> demo_syms ! 0, ''OLDUSDT'' \<mapsto> demo_syms ! 1]"
  by (simp add: exchange_map_def demo_syms_def)

lemma demo_status: "xs_Status (demo_syms ! 0) = ''TRADING''" "xs_Status (demo_syms ! Suc 0) = ''SETTLING''"
  by (simp_all add: demo_syms_def)

lemma demo_readable:
  "NewTradingSymbol demo_dec id (demo_syms ! 0) = Inr ((blank_symbol (demo_syms ! 0))\<lparr>ts_MarketTakeBound := 5\<rparr>)"
  by (simp add: NewTradingSymbol_def demo_syms_def apply_filter_def field_def decimal_field_def parsed_or_zero_def)

lemma demo_wanted: "wanted_names [] (exchange_map demo_syms Map.empty) = {''BTCUSDT''}"
  by (auto simp: wanted_names_def tradable_def demo_exchange demo_status split: if_splits option.splits)

theorem trading_symbols_exact_witness:
  "\<exists>m c'. initBinance_symbols demo_dec id ''a'' [demo_account] [] (\<lambda>k. if k < 2 then None else Some demo_syms)
      (\<lambda>_. [''OLDUSDT'', ''BTCUSDT'']) \<lparr>periodSymbols = Map.empty, last_period_ts = 0\<rparr> = Some (Inr (demo_account, m, c')) \<and>
    dom m = {''BTCUSDT''} \<and> dom (periodSymbols c') = {''BTCUSDT''}"
proof -
  let ?exch = "exchange_map demo_syms Map.empty"
  let ?fetch = "\<lambda>k. if k < (2 :: nat) then None else Some demo_syms"
  have sel: "select_account ''a'' [demo_account] = Some demo_account" by (simp add: select_account_def demo_account_def)
  have ord: "range_order [''OLDUSDT'', ''BTCUSDT''] ?exch" by (auto simp: range_order_def demo_exchange)
  have w: "wanted_names [] ?exch = {''BTCUSDT''}"
    by (auto simp: wanted_names_def tradable_def demo_exchange demo_status split: if_splits option.splits)
  have r: "readable demo_dec id ?exch ''BTCUSDT''" by (simp add: readable_def demo_exchange demo_readable)
  from trading_symbols_exact [where fetch = ?fetch and k = 2 and syms = demo_syms and account = "''a''"
      and accounts = "[demo_account]" and acc = demo_account and exch = ?exch and configured = "[]"
      and order = "\<lambda>_. [''OLDUSDT'', ''BTCUSDT'']" and dec = demo_dec and newint = id
      and c = "\<lparr>periodSymbols = Map.empty, last_period_ts = 0\<rparr>", OF _ _ sel refl ord]
  show ?thesis using r unfolding w by auto
qed

fun json_value :: "'f go_value \<Rightarrow> bool" where
  "json_value (VInt _) = False"
| "json_value (VInt64 _) = False"
| "json_value _ = True"

definition json_filters :: "'f ExchangeSymbol \<Rightarrow> bool" where
  "json_filters s \<longleftrightarrow> (\<forall>kv\<in>set (xs_Filters s). \<forall>key. json_value (field kv key))"

definition unread :: "('d::zero, 'f) TradingSymbol go \<Rightarrow> bool" where
  "unread r \<longleftrightarrow> (case r of Inl p \<Rightarrow> p = TypeAssertion | Inr ts \<Rightarrow> ts_MaxNumOrders_limit ts = 0 \<and> ts_multiplierDecimal ts = 0)"

lemma json_assertions:
  assumes "json_value v"
  shows "(case v of VInt64 x \<Rightarrow> f x | _ \<Rightarrow> y) = y" "(case v of VInt x \<Rightarrow> h x | _ \<Rightarrow> z) = z"
  using assms by (cases v; simp)+

lemma apply_filter_unread:
  assumes "unread (Inr ts)" and "\<forall>key. json_value (field kv key)"
  shows "unread (apply_filter dec newint kv ts)"
proof (cases "field kv ''filterType''")
  case (VString ty)
  have base: "unread (Inl TypeAssertion :: (('d::zero, 'f) TradingSymbol) go)" by (simp add: unread_def)
  note js = json_assertions [OF spec [OF assms(2)]]
  show ?thesis unfolding apply_filter_def VString go_value.case Let_def js
    by (intro if_split [where P = unread, THEN iffD2] conjI impI;
        (intro go_bind_decimal [where P = unread, OF _ base refl])?)
      (use assms(1) in \<open>auto simp: unread_def split: go_value.splits\<close>)
qed (use assms in \<open>simp_all add: apply_filter_def\<close>)

lemma apply_filters_unread:
  "unread (Inr ts) \<Longrightarrow> \<forall>kv\<in>set kvs. \<forall>key. json_value (field kv key) \<Longrightarrow> unread (apply_filters dec newint kvs ts)"
proof (induction kvs arbitrary: ts)
  case (Cons kv kvs)
  show ?case
  proof (cases "apply_filter dec newint kv ts")
    case (Inl p)
    with apply_filter_unread [of ts kv dec newint] Cons.prems show ?thesis by (simp add: unread_def)
  next
    case (Inr ts1)
    with apply_filter_unread [of ts kv dec newint] Cons show ?thesis by simp
  qed
qed simp

text \<open>C35. Two filters are never read: \<open>encoding/json\<close> puts a number into an \<open>interface{}\<close> as a \<open>float64\<close>, and the
  code asserts \<open>int64\<close> and \<open>int\<close>. For a symbol whose filters were decoded from JSON, the limit on the
  number of orders and the number of decimals of the percent filter stay zero whatever the exchange
  sends.\<close>

theorem json_filters_unread:
  assumes "json_filters s" and "NewTradingSymbol dec newint s = Inr ts"
  shows "ts_MaxNumOrders_limit ts = 0 \<and> ts_multiplierDecimal ts = 0"
  using apply_filters_unread [of "blank_symbol s" "xs_Filters s" dec newint] assms
  by (simp add: unread_def json_filters_def NewTradingSymbol_def blank_symbol_def)

theorem json_filters_unread_witness:
  "field (xs_Filters (demo_syms ! 0) ! 0) ''limit'' = VFloat64 200 \<and>
   (\<exists>ts. NewTradingSymbol demo_dec id (demo_syms ! 0) = Inr ts \<and> ts_MaxNumOrders_limit ts = 0)"
proof -
  have "json_filters (demo_syms ! 0)" by (auto simp: json_filters_def demo_syms_def field_def)
  from json_filters_unread [OF this demo_readable] demo_readable show ?thesis
    by (auto simp: demo_syms_def field_def)
qed

end
