(* ===== verification/Snapshot_Manager.thy ===== *)
theory Snapshot_Manager
  imports Recv_Events "HOL-Library.Multiset"
begin

text \<open>
  The requests for snapshots of the order book (\<open>market_snapshot.go\<close>). A request is a goroutine that
  sends a symbol to the channel of the manager; the loop of the manager starts another goroutine
  for each symbol it takes, and these fetch one at a time under a mutex. The step relation has one step per
  channel operation and lock. The answer of the exchange is an argument of the step that fetches. \<open>asked\<close> and
  \<open>answered\<close> record the requests and their answers; the program does not have them.
\<close>

section \<open>State\<close>

record SnapShotManagerConfigVars =
  sn_TimerIntervalSecs :: int
  sn_OnReconnect :: bool
  sn_OnTimer :: bool
  sn_OnSequenceCheck :: bool
  sn_TaskQueueSize :: int
  sn_DepthLimit :: int
  sn_RequestWait :: int

record SnapShotManager =
  ss_config :: SnapShotManagerConfigVars
  ss_pending :: "string multiset"
  ss_chan :: "string list"
  ss_waiting :: "string multiset"
  ss_holder :: "string option"
  ss_out :: msg_chan
  asked :: "string list"
  answered :: "(string \<times> DepthResponse option) list"

text \<open>\<open>make(chan string, n)\<close> panics for a negative size.\<close>

definition NewSnapShotManager :: "SnapShotManagerConfigVars \<Rightarrow> SnapShotManager go" where
  "NewSnapShotManager cfg =
     (if sn_TaskQueueSize cfg < 0 then Inl (Panicked ''makechan: size out of range'')
      else Inr \<lparr>ss_config = cfg, ss_pending = {#}, ss_chan = [], ss_waiting = {#}, ss_holder = None, ss_out = [],
                asked = [], answered = []\<rparr>)"

definition doSnapShot :: "string \<Rightarrow> SnapShotManager \<Rightarrow> SnapShotManager" where
  "doSnapShot symbol s = s\<lparr>ss_pending := add_mset symbol (ss_pending s), asked := asked s @ [symbol]\<rparr>"

text \<open>The timer branch of \<open>run\<close>: every trading symbol is asked for, whatever \<open>OnTimer\<close> says.\<close>

definition snapshot_timer :: "string list \<Rightarrow> SnapShotManager \<Rightarrow> SnapShotManager" where
  "snapshot_timer symbols s = fold doSnapShot symbols s"

text \<open>A goroutine that has the mutex sets the default of \<open>RequestWait\<close> in the configuration.\<close>

definition take_mutex :: "string \<Rightarrow> SnapShotManager \<Rightarrow> SnapShotManager" where
  "take_mutex symbol s =
     s\<lparr>ss_waiting := ss_waiting s - {#symbol#}, ss_holder := Some symbol,
       ss_config := (ss_config s)\<lparr>sn_RequestWait :=
          (if sn_RequestWait (ss_config s) = 0 then 1000 else sn_RequestWait (ss_config s))\<rparr>\<rparr>"

text \<open>\<open>run\<close>, the goroutines it starts, those of \<open>doSnapShot\<close>, and the fan-out manager that empties the channel
  of messages.\<close>

inductive snap_step :: "SnapShotManager \<Rightarrow> SnapShotManager \<Rightarrow> bool" where
  Ask: "snap_step s (doSnapShot symbol s)"
| Timer: "snap_step s (snapshot_timer symbols s)"
| Send: "symbol \<in># ss_pending s \<Longrightarrow> int (length (ss_chan s)) < sn_TaskQueueSize (ss_config s) \<Longrightarrow>
     snap_step s (s\<lparr>ss_pending := ss_pending s - {#symbol#}, ss_chan := ss_chan s @ [symbol]\<rparr>)"
| Take: "ss_chan s = symbol # rest \<Longrightarrow>
     snap_step s (s\<lparr>ss_chan := rest, ss_waiting := add_mset symbol (ss_waiting s)\<rparr>)"
| Meet: "symbol \<in># ss_pending s \<Longrightarrow> ss_chan s = [] \<Longrightarrow>
     snap_step s (s\<lparr>ss_pending := ss_pending s - {#symbol#}, ss_waiting := add_mset symbol (ss_waiting s)\<rparr>)"
| Lock: "symbol \<in># ss_waiting s \<Longrightarrow> ss_holder s = None \<Longrightarrow> snap_step s (take_mutex symbol s)"
| Fetch: "ss_holder s = Some symbol \<Longrightarrow> snapshot symbol res (ss_out s) = Some out \<Longrightarrow>
     snap_step s (s\<lparr>ss_holder := None, ss_out := out, answered := answered s @ [(symbol, res)]\<rparr>)"
| Drain: "ss_out s = msg # rest \<Longrightarrow> snap_step s (s\<lparr>ss_out := rest\<rparr>)"

inductive_cases snap_stepE: "snap_step s s'"

section \<open>Lemmas\<close>

text \<open>The requests that are still under way.\<close>

definition outstanding :: "SnapShotManager \<Rightarrow> string multiset" where
  "outstanding s = ss_pending s + mset (ss_chan s) + ss_waiting s +
     (case ss_holder s of None \<Rightarrow> {#} | Some symbol \<Rightarrow> {#symbol#})"

definition conserved :: "SnapShotManager \<Rightarrow> bool" where
  "conserved s \<longleftrightarrow> mset (asked s) = outstanding s + mset (map fst (answered s))"

lemma doSnapShot_conserved: "conserved s \<Longrightarrow> conserved (doSnapShot symbol s)"
  by (simp add: conserved_def outstanding_def doSnapShot_def)

lemma timer_conserved: "conserved s \<Longrightarrow> conserved (snapshot_timer symbols s)"
  unfolding snapshot_timer_def by (induction symbols arbitrary: s) (simp_all add: doSnapShot_conserved)

lemma snap_step_conserved:
  assumes "snap_step s s'" and "conserved s"
  shows "conserved s'"
  using assms(1)
proof cases
  case (Send symbol)
  then show ?thesis using assms(2) by (auto simp: conserved_def outstanding_def dest: multi_member_split)
next
  case (Meet symbol)
  then show ?thesis using assms(2) by (auto simp: conserved_def outstanding_def dest: multi_member_split)
next
  case (Lock symbol)
  then show ?thesis using assms(2)
    by (auto simp: conserved_def outstanding_def take_mutex_def dest: multi_member_split)
qed (use assms(2) in \<open>simp_all add: doSnapShot_conserved timer_conserved\<close>,
     use assms(2) in \<open>simp_all add: conserved_def outstanding_def\<close>)

lemma snap_steps_conserved: "snap_step\<^sup>*\<^sup>* s s' \<Longrightarrow> conserved s \<Longrightarrow> conserved s'"
  by (induction rule: rtranclp_induct) (auto intro: snap_step_conserved)

text \<open>A step that advances a request: it makes the work that is left smaller.\<close>

definition work :: "SnapShotManager \<Rightarrow> nat" where
  "work s = 4 * size (ss_pending s) + 3 * length (ss_chan s) + 2 * size (ss_waiting s) +
     (case ss_holder s of None \<Rightarrow> 0 | Some _ \<Rightarrow> 1)"

lemma work_zero: "work s = 0 \<longleftrightarrow> outstanding s = {#}"
  by (auto simp: work_def outstanding_def split: option.splits)

lemma size_remove1: "x \<in># M \<Longrightarrow> size M = Suc (size (M - {#x#}))"
  by (metis insert_DiffM size_add_mset)

lemma snapshot_sends: "length ch < msgCh_cap \<Longrightarrow> \<exists>ch'. snapshot symbol res ch = Some ch'"
  by (cases res) (simp_all add: snapshot_def Let_def chan_send_def)

lemma advance:
  "snap_step s s' \<Longrightarrow> work s' < work s \<Longrightarrow> asked s' = asked s \<Longrightarrow>
   \<exists>s'. snap_step s s' \<and> work s' < work s \<and> asked s' = asked s"
  by blast

lemma step_available:
  assumes "outstanding s \<noteq> {#}" and "length (ss_out s) < msgCh_cap"
  shows "\<exists>s'. snap_step s s' \<and> work s' < work s \<and> asked s' = asked s"
proof (cases "ss_holder s")
  case (Some symbol)
  from snapshot_sends [OF assms(2)] obtain out where "snapshot symbol None (ss_out s) = Some out" by blast
  then show ?thesis by (rule advance [OF snap_step.Fetch [OF Some]]) (simp_all add: work_def Some)
next
  case free: None
  show ?thesis
  proof (cases "ss_waiting s = {#}")
    case False
    then obtain symbol where w: "symbol \<in># ss_waiting s" by (meson multiset_nonemptyE)
    show ?thesis
      by (rule advance [OF snap_step.Lock [OF w free]]) (simp_all add: work_def take_mutex_def size_remove1 [OF w] free)
  next
    case idle: True
    show ?thesis
    proof (cases "ss_chan s")
      case (Cons symbol rest)
      then show ?thesis by (rule advance [OF snap_step.Take]) (simp_all add: work_def Cons)
    next
      case Nil
      with assms(1) free idle have "ss_pending s \<noteq> {#}" by (simp add: outstanding_def)
      then obtain symbol where p: "symbol \<in># ss_pending s" by (meson multiset_nonemptyE)
      show ?thesis by (rule advance [OF snap_step.Meet [OF p Nil]]) (simp_all add: work_def size_remove1 [OF p])
    qed
  qed
qed

section \<open>Properties\<close>


definition demo_snap :: SnapShotManagerConfigVars where
  "demo_snap = \<lparr>sn_TimerIntervalSecs = 60, sn_OnReconnect = False, sn_OnTimer = False, sn_OnSequenceCheck = False,
     sn_TaskQueueSize = 0, sn_DepthLimit = 100, sn_RequestWait = 0\<rparr>"


end
