(* ===== verification/Service_Monitor.thy ===== *)
theory Service_Monitor
  imports Go_Prelude
begin

text \<open>
  Reports to the monitoring service (\<open>core/qmon.go\<close>): the identity of a service, its status messages and
  its log messages, of which at most one is under way. \<open>json\<close> is the JSON encoder, \<open>tx\<close> says for
  the two frames of a message whether the socket takes them. A frame on the socket is its bytes with the
  flag that says whether more frames of the message follow.
\<close>

section \<open>State\<close>

record ServiceMonConfigVars =
  mc_Enable :: bool
  mc_ReportDest :: string
  mc_ReportInterval :: int
  mc_AuthKey :: string

text \<open>The field \<open>Others\<close> of the status is never set and is left out; the other fields are those of the log
  message too.\<close>

record ServiceMonStatus =
  st_MsgType :: string
  st_ServiceId :: string
  st_ServiceType :: string
  st_Version :: string
  st_Ip :: string
  st_Pid :: int
  st_Start :: int
  st_Now :: int
  st_AuthKey :: string

record ServiceMonLogEntry =
  le_Level :: string
  le_Category :: string
  le_Action :: string
  le_Detail :: string

record ServiceMonLog = ServiceMonStatus +
  sl_Logs :: ServiceMonLogEntry

text \<open>\<open>mo_mtx\<close> is \<open>Some u\<close> while a goroutine of \<open>SendLog\<close> holds the mutex and sleeps until \<open>u\<close>.\<close>

record ServiceMonManager =
  mo_config :: ServiceMonConfigVars
  mo_status :: ServiceMonStatus
  mo_mtx :: "int option"

type_synonym frame = "bytes \<times> bool"

definition NewServiceMonManager :: "ServiceMonConfigVars \<Rightarrow> ServiceMonManager" where
  "NewServiceMonManager cfg =
     \<lparr>mo_config = cfg,
      mo_status = \<lparr>st_MsgType = [], st_ServiceId = [], st_ServiceType = [], st_Version = [], st_Ip = [], st_Pid = 0,
                   st_Start = 0, st_Now = 0, st_AuthKey = []\<rparr>,
      mo_mtx = None\<rparr>"

section \<open>Identity\<close>

definition mon_ServiceId :: "string \<Rightarrow> ServiceMonManager \<Rightarrow> ServiceMonManager" where
  "mon_ServiceId sid m = m\<lparr>mo_status := (mo_status m)\<lparr>st_ServiceId := sid\<rparr>\<rparr>"

definition mon_ServiceType :: "string \<Rightarrow> ServiceMonManager \<Rightarrow> ServiceMonManager" where
  "mon_ServiceType tp m = m\<lparr>mo_status := (mo_status m)\<lparr>st_ServiceType := tp\<rparr>\<rparr>"

definition mon_Version :: "string \<Rightarrow> ServiceMonManager \<Rightarrow> ServiceMonManager" where
  "mon_Version v m = m\<lparr>mo_status := (mo_status m)\<lparr>st_Version := v\<rparr>\<rparr>"

definition mon_Ip :: "string \<Rightarrow> ServiceMonManager \<Rightarrow> ServiceMonManager" where
  "mon_Ip ip m = m\<lparr>mo_status := (mo_status m)\<lparr>st_Ip := ip\<rparr>\<rparr>"

definition mon_Pid :: "int \<Rightarrow> ServiceMonManager \<Rightarrow> ServiceMonManager" where
  "mon_Pid pid m = m\<lparr>mo_status := (mo_status m)\<lparr>st_Pid := pid\<rparr>\<rparr>"

definition mon_Start :: "int \<Rightarrow> ServiceMonManager \<Rightarrow> ServiceMonManager" where
  "mon_Start start m = m\<lparr>mo_status := (mo_status m)\<lparr>st_Start := start\<rparr>\<rparr>"

definition mon_Now :: "int \<Rightarrow> ServiceMonManager \<Rightarrow> ServiceMonManager" where
  "mon_Now now m = m\<lparr>mo_status := (mo_status m)\<lparr>st_Now := now\<rparr>\<rparr>"

definition mon_AuthKey :: "string \<Rightarrow> ServiceMonManager \<Rightarrow> ServiceMonManager" where
  "mon_AuthKey key m = m\<lparr>mo_status := (mo_status m)\<lparr>st_AuthKey := key\<rparr>\<rparr>"

text \<open>\<open>Init\<close> up to the socket, whose failure is only logged.\<close>

definition mon_Init :: "int \<Rightarrow> int \<Rightarrow> ServiceMonManager \<Rightarrow> ServiceMonManager" where
  "mon_Init now pid m = mon_AuthKey (mc_AuthKey (mo_config m)) (mon_Pid pid (mon_Start now m))"

text \<open>The set-up of the monitor in \<open>Controller.init\<close> of both services.\<close>

definition init_monitor ::
  "ServiceMonConfigVars \<Rightarrow> string \<Rightarrow> string \<Rightarrow> string \<Rightarrow> string \<Rightarrow> int \<Rightarrow> int \<Rightarrow> ServiceMonManager option" where
  "init_monitor cfg serviceType thunderId version ip now pid =
     (if mc_Enable cfg
      then Some (mon_Init now pid (mon_Ip ip (mon_Version version (mon_ServiceId thunderId
             (mon_ServiceType serviceType (NewServiceMonManager cfg))))))
      else None)"

section \<open>Messages\<close>

text \<open>The two frames of a message: the second is sent only where the socket took the first.\<close>

definition two_frames :: "bool \<times> bool \<Rightarrow> string \<Rightarrow> bytes \<Rightarrow> frame list" where
  "two_frames tx topic data =
     (if \<not> fst tx then [] else if \<not> snd tx then [(bytes_of topic, True)] else [(bytes_of topic, True), (data, False)])"

definition SendStatus ::
  "(ServiceMonStatus \<Rightarrow> bytes option) \<Rightarrow> bool \<times> bool \<Rightarrow> int \<Rightarrow> ServiceMonManager \<Rightarrow> ServiceMonManager \<times> frame list" where
  "SendStatus json tx now m =
     (let m1 = mon_Now now m;
          log = (mo_status m1)\<lparr>st_MsgType := ''cc_status''\<rparr>
      in (m1, case json log of None \<Rightarrow> [] | Some data \<Rightarrow> two_frames tx ''cc_status'' data))"

text \<open>The goroutine of \<open>SendLog\<close>: it gives up where the mutex is held, and keeps the mutex while it sleeps
  after a message that was sent.\<close>

definition SendLog ::
  "(ServiceMonLog \<Rightarrow> bytes option) \<Rightarrow> bool \<times> bool \<Rightarrow> int \<Rightarrow> ServiceMonLogEntry \<Rightarrow> int \<Rightarrow> ServiceMonManager \<Rightarrow>
     ServiceMonManager \<times> frame list" where
  "SendLog json tx now entry delay m =
     (if mo_mtx m \<noteq> None then (m, [])
      else let m1 = mon_Now now m;
               log = ServiceMonStatus.extend ((mo_status m1)\<lparr>st_MsgType := ''cc_log''\<rparr>) (ServiceMonLog.fields entry)
           in (case json log of
                 None \<Rightarrow> (m1, [])
               | Some data \<Rightarrow>
                   (if fst tx \<and> snd tx \<and> 0 < delay then m1\<lparr>mo_mtx := Some (i64 (now + delay))\<rparr> else m1,
                    two_frames tx ''cc_log'' data)))"

text \<open>The goroutine that sleeps wakes up and unlocks, at its time or later.\<close>

definition log_wake :: "int \<Rightarrow> ServiceMonManager \<Rightarrow> ServiceMonManager" where
  "log_wake now m = (case mo_mtx m of Some u \<Rightarrow> if u \<le> now then m\<lparr>mo_mtx := None\<rparr> else m | None \<Rightarrow> m)"

text \<open>\<open>Open\<close>: a status at once, then one at each expiry of the timer until the context is done.\<close>

datatype mon_wait = TimerFires int "bool \<times> bool" | ContextDone

fun status_loop ::
  "(ServiceMonStatus \<Rightarrow> bytes option) \<Rightarrow> mon_wait list \<Rightarrow> ServiceMonManager \<Rightarrow> ServiceMonManager \<times> frame list" where
  "status_loop json [] m = (m, [])"
| "status_loop json (ContextDone # ws) m = (m, [])"
| "status_loop json (TimerFires now tx # ws) m =
     (let (m1, out) = SendStatus json tx now m; (m2, outs) = status_loop json ws m1 in (m2, out @ outs))"

definition mon_Open ::
  "(ServiceMonStatus \<Rightarrow> bytes option) \<Rightarrow> bool \<times> bool \<Rightarrow> int \<Rightarrow> mon_wait list \<Rightarrow> ServiceMonManager \<Rightarrow> ServiceMonManager \<times> frame list" where
  "mon_Open json tx now ws m =
     (let (m1, out) = SendStatus json tx now m; (m2, outs) = status_loop json ws m1 in (m2, out @ outs))"

section \<open>Runs\<close>

datatype mon_event = MLog ServiceMonLogEntry int "bool \<times> bool" | MStatus "bool \<times> bool" | MWake

text \<open>Each event has the reading of the clock. The result lists the times at which a log message left
  completely.\<close>

fun mon_run ::
  "(ServiceMonStatus \<Rightarrow> bytes option) \<Rightarrow> (ServiceMonLog \<Rightarrow> bytes option) \<Rightarrow> (int \<times> mon_event) list \<Rightarrow> ServiceMonManager \<Rightarrow>
     ServiceMonManager \<times> int list" where
  "mon_run js jl [] m = (m, [])"
| "mon_run js jl ((now, MLog entry delay tx) # evs) m =
     (let (m1, out) = SendLog jl tx now entry delay m;
          (m2, ts) = mon_run js jl evs m1
      in (m2, if length out = 2 then now # ts else ts))"
| "mon_run js jl ((now, MStatus tx) # evs) m = mon_run js jl evs (fst (SendStatus js tx now m))"
| "mon_run js jl ((now, MWake) # evs) m = mon_run js jl evs (log_wake now m)"

section \<open>Lemmas\<close>

lemma mtx_SendStatus [simp]: "mo_mtx (fst (SendStatus js tx now m)) = mo_mtx m"
  by (simp add: SendStatus_def Let_def mon_Now_def)

lemma SendLog_held: "mo_mtx m = Some u \<Longrightarrow> SendLog jl tx now entry delay m = (m, [])"
  by (simp add: SendLog_def)

lemma SendLog_free:
  assumes "mo_mtx m = None" and "SendLog jl tx now entry delay m = (m1, out)"
  shows "length out = 2 \<Longrightarrow> 0 < delay \<Longrightarrow> mo_mtx m1 = Some (i64 (now + delay))"
    and "length out \<noteq> 2 \<Longrightarrow> mo_mtx m1 = None"
  using assms by (auto simp: SendLog_def Let_def two_frames_def mon_Now_def split: option.splits if_splits)

text \<open>The times of an event list, and that each log asks for the delay \<open>d\<close>.\<close>

definition log_delay :: "int \<Rightarrow> mon_event \<Rightarrow> bool" where
  "log_delay d e = (case e of MLog _ delay _ \<Rightarrow> delay = d | _ \<Rightarrow> True)"

definition clock_in_range :: "int \<Rightarrow> int \<Rightarrow> bool" where
  "clock_in_range d t \<longleftrightarrow> in_i64 t \<and> in_i64 (t + d)"

lemma mon_run_spaced:
  assumes "0 < d" and "sorted (map fst evs)" and "\<forall>(t, e)\<in>set evs. clock_in_range d t \<and> log_delay d e"
    and "mon_run js jl evs m = (m', ts)"
  shows "sorted_wrt (\<lambda>a b. a + d \<le> b) ts \<and> set ts \<subseteq> fst ` set evs \<and>
    (\<forall>u. mo_mtx m = Some u \<longrightarrow> (\<forall>t\<in>set ts. u \<le> t))"
  using assms(2-)
proof (induction evs arbitrary: m m' ts)
  case (Cons ev evs)
  obtain now e where ev: "ev = (now, e)" by (cases ev)
  from Cons.prems(1) ev have later: "\<forall>t\<in>fst ` set evs. now \<le> t" and srt: "sorted (map fst evs)" by auto
  from Cons.prems(2) have ok: "\<forall>(t, e)\<in>set evs. clock_in_range d t \<and> log_delay d e" by simp
  note IH = Cons.IH [OF srt ok]
  show ?case
  proof (cases e)
    case (MStatus tx)
    with Cons.prems(3) ev have "mon_run js jl evs (fst (SendStatus js tx now m)) = (m', ts)" by simp
    from IH [OF this] ev show ?thesis by auto
  next
    case MWake
    with Cons.prems(3) ev have r: "mon_run js jl evs (log_wake now m) = (m', ts)" by simp
    from IH [OF r] later have i: "sorted_wrt (\<lambda>a b. a + d \<le> b) ts" "set ts \<subseteq> fst ` set evs"
      "\<forall>u. mo_mtx (log_wake now m) = Some u \<longrightarrow> (\<forall>t\<in>set ts. u \<le> t)" by auto
    have "\<forall>t\<in>set ts. u \<le> t" if "mo_mtx m = Some u" for u
      using i later that by (cases "u \<le> now") (fastforce simp: log_wake_def)+
    with i ev show ?thesis by auto
  next
    case (MLog entry delay tx)
    obtain m1 out where s: "SendLog jl tx now entry delay m = (m1, out)" by fastforce
    obtain m2 ts1 where r: "mon_run js jl evs m1 = (m2, ts1)" by fastforce
    have ts: "ts = (if length out = 2 then now # ts1 else ts1)"
      using Cons.prems(3) by (simp add: ev MLog s r)
    from IH [OF r] have i: "sorted_wrt (\<lambda>a b. a + d \<le> b) ts1" "set ts1 \<subseteq> fst ` set evs"
      "\<forall>u. mo_mtx m1 = Some u \<longrightarrow> (\<forall>t\<in>set ts1. u \<le> t)" by auto
    show ?thesis
    proof (cases "mo_mtx m")
      case (Some u)
      with s have "m1 = m" "out = []" by (simp_all add: SendLog_held)
      with i ts ev show ?thesis by auto
    next
      case None
      have "delay = d" "i64 (now + d) = now + d"
        using Cons.prems(2) ev MLog by (auto simp: log_delay_def clock_in_range_def i64_id)
      with SendLog_free [OF None s] assms(1) i ts ev None show ?thesis by auto
    qed
  qed
qed simp

section \<open>Properties\<close>


definition demo_entry :: ServiceMonLogEntry where
  "demo_entry = \<lparr>le_Level = ''WARN'', le_Category = ''PeriodCollect'', le_Action = ''EmptyQuote'', le_Detail = ''EmptyQuote''\<rparr>"

definition demo_monitor :: ServiceMonManager where
  "demo_monitor = NewServiceMonManager \<lparr>mc_Enable = True, mc_ReportDest = [], mc_ReportInterval = 5, mc_AuthKey = []\<rparr>"

definition demo_calls :: "(int \<times> mon_event) list" where
  "demo_calls = map (\<lambda>t. (t, MLog demo_entry 5 (True, True))) [10, 11] @ [(15, MWake), (16, MLog demo_entry 5 (True, True))]"


section \<open>What the monitor reads\<close>

text \<open>The parts of the messages on a socket: a frame that announces more is followed by the next one of the same message.\<close>

fun messages :: "frame list \<Rightarrow> bytes list list" where
  "messages [] = []"
| "messages ((data, cont) # fs) =
     (if cont then (case messages fs of [] \<Rightarrow> [[data]] | msg # msgs \<Rightarrow> (data # msg) # msgs)
      else [data] # messages fs)"

definition whole :: "frame list \<Rightarrow> bool" where
  "whole fs \<longleftrightarrow> fs = [] \<or> \<not> snd (last fs)"

lemma messages_append: "whole fs \<Longrightarrow> messages (fs @ gs) = messages fs @ messages gs"
proof (induction fs rule: messages.induct)
  case (2 data cont fs)
  show ?case
  proof (cases "fs = []")
    case True
    with 2 show ?thesis by (simp add: whole_def)
  next
    case False
    with 2 have "messages (fs @ gs) = messages fs @ messages gs" by (auto simp: whole_def)
    moreover have "messages fs \<noteq> []" using False by (cases fs) (auto split: list.splits if_splits)
    ultimately show ?thesis by (cases "messages fs") simp_all
  qed
qed simp

text \<open>A monitor that is alone on its socket and whose socket takes everything: one message of two parts per report, the first at once
  and one per expiry of the timer.\<close>

lemma status_messages:
  assumes "\<And>st. json st = Some (enc st)"
  shows "\<exists>m' out. mon_Open json (True, True) now (map (\<lambda>t. TimerFires t (True, True)) ts) m = (m', out) \<and>
    map hd (messages out) = replicate (Suc (length ts)) (bytes_of ''cc_status'') \<and> list_all (\<lambda>msg. length msg = 2) (messages out)"
proof -
  let ?s = "\<lambda>t m. SendStatus json (True, True) t m"
  have one: "\<exists>d m1. ?s t m = (m1, [(bytes_of ''cc_status'', True), (d, False)])" for t m
    by (simp add: SendStatus_def Let_def assms two_frames_def)
  have add: "messages ((a, True) # (d, False) # fs) = [a, d] # messages fs" for a d fs by simp
  have "\<exists>m' out. status_loop json (map (\<lambda>t. TimerFires t (True, True)) ts) m = (m', out) \<and>
      map hd (messages out) = replicate (length ts) (bytes_of ''cc_status'') \<and> list_all (\<lambda>msg. length msg = 2) (messages out)" for m
  proof (induction ts arbitrary: m)
    case (Cons t ts)
    from one [of t m] obtain d m1 where s: "?s t m = (m1, [(bytes_of ''cc_status'', True), (d, False)])" by blast
    from Cons.IH [of m1] s show ?case by auto
  qed simp
  note loop = this
  from one [of now m] obtain d m1 where s: "?s now m = (m1, [(bytes_of ''cc_status'', True), (d, False)])" by blast
  with loop [of m1] show ?thesis by (auto simp: mon_Open_def)
qed

text \<open>\<open>SendStatus\<close> takes no lock: where a log is sent between its two frames, the monitor reads one message of three parts and a lone
  part.\<close>

lemma status_and_log_mix:
  assumes "SendStatus js (True, True) now m = (m1, [a, b])" and "SendLog jl (True, True) now entry delay m = (m2, [c, d])"
  shows "map length (messages [a, c, d, b]) = [3, 1]"
  using assms by (auto simp: SendStatus_def SendLog_def two_frames_def Let_def split: option.splits if_splits)

end
