(* ===== verification/Recv_Controller.thy ===== *)
theory Recv_Controller
  imports Recv_Services Recv_Fanout Trading_Symbols Snapshot_Manager Service_Monitor
    "HOL-Library.List_Lexorder" "HOL-Library.Char_ord"
begin

text \<open>
  The start of the receiving service (\<open>init\<close>, \<open>initBinance\<close> and \<open>run\<close> in
  \<open>cmd/QuoteRecvSerivce/controller.go\<close>): the managers of the feeds are made, those that are enabled are given
  their configuration, the sockets of the fan-out and the client of the request API are made, and the enabled
  feeds are opened on the trading symbols once the channel of messages exists. The exchange, the decimal library
  and the order in which Go visits a map are arguments, as in \<open>Trading_Symbols\<close>; the sockets, the
  clock and the process number are the fields of \<open>recv_world\<close>.
\<close>

section \<open>State\<close>

datatype feed = FTrade | FDepth | FOrbInc | FKline | FAggTrade

text \<open>The settings the start looks at: \<open>Recv...Enable\<close>, \<open>MaxSymbolNumPerConn\<close> of each feed, the snapshots, the
  account and the symbols.\<close>

record recv_setup =
  su_enable :: "feed \<Rightarrow> bool"
  su_max :: "feed \<Rightarrow> int"
  su_snapshot :: bool
  su_snapcfg :: SnapShotManagerConfigVars
  su_account :: string
  su_accounts :: "AccountConfig list"
  su_configured :: "string list"
  su_servers :: "string list"
  su_mon :: ServiceMonConfigVars
  su_serviceType :: string
  su_thunderId :: string
  su_ip :: string

record recv_world =
  rw_new_sock :: "string \<Rightarrow> bool"
  rw_dial :: api_dial
  rw_now :: int
  rw_pid :: int

definition recv_VERSION :: string where
  "recv_VERSION = ''0.5.1 - $Revision: 3403 $ ''"

text \<open>A manager with its configuration, which is nil until \<open>Init\<close>; the channel of messages is nil until \<open>open\<close> of
  the fan-out manager.\<close>

record ('d, 'f) recv_controller =
  rc_exchange :: "'f exchange"
  rc_trading :: "string \<rightharpoonup> ('d, 'f) TradingSymbol"
  rc_account :: "AccountConfig option"
  rc_mgr :: "feed \<Rightarrow> int option \<times> ws_manager"
  rc_snapshot :: "SnapShotManager option"
  rc_producers :: "string list"
  rc_msgCh :: "msg_chan option"
  rc_wsapi :: "api_client option"
  rc_qmon :: "ServiceMonManager option"

fun feed_Init :: "feed \<Rightarrow> ws_manager" where
  "feed_Init FTrade = WsTradeClientManager_Init"
| "feed_Init FDepth = WsDepthClientManager_Init"
| "feed_Init FOrbInc = WsOrbIncClientManager_Init"
| "feed_Init FKline = WsKLineManager_Init"
| "feed_Init FAggTrade = WsAggTradeManager_Init"

fun feed_Open :: "feed \<Rightarrow> int \<Rightarrow> string list \<Rightarrow> ws_manager \<Rightarrow> ws_manager go option" where
  "feed_Open FTrade = WsTradeClientManager_Open"
| "feed_Open FDepth = WsDepthClientManager_Open"
| "feed_Open FOrbInc = WsOrbIncClientManager_Open"
| "feed_Open FKline = WsKLineManager_Open"
| "feed_Open FAggTrade = WsAggTradeManager_Open"

section \<open>Start\<close>

definition recv_init_state :: "recv_setup \<Rightarrow> ('d, 'f) recv_controller go" where
  "recv_init_state su =
     go_bind (if su_snapshot su then go_bind (NewSnapShotManager (su_snapcfg su)) (\<lambda>s. Inr (Some s)) else Inr None)
       (\<lambda>snap. Inr \<lparr>rc_exchange = Map.empty, rc_trading = Map.empty, rc_account = None,
                   rc_mgr = (\<lambda>_. (None, \<lparr>mg_services = [], mg_index = Map.empty\<rparr>)), rc_snapshot = snap,
                   rc_producers = [], rc_msgCh = None, rc_wsapi = None, rc_qmon = None\<rparr>)"

text \<open>The second half of \<open>initBinance\<close>: the sockets of the fan-out, then the client of the request API.\<close>

definition recv_connect ::
  "recv_setup \<Rightarrow> recv_world \<Rightarrow> AccountConfig \<Rightarrow> ('d, 'f) recv_controller \<Rightarrow> ('d, 'f) recv_controller go option" where
  "recv_connect su w acc c =
     (case recv_fanout_init (rw_new_sock w) (su_servers su) (rc_producers c) of
        Inl p \<Rightarrow> Some (Inl p)
      | Inr ps \<Rightarrow>
          map_option (\<lambda>client. Inr (c\<lparr>rc_producers := ps, rc_wsapi := Some client\<rparr>))
            (GetOrNewWsClient (rw_dial w) acc (rc_wsapi c)))"

text \<open>\<open>None\<close> where the exchange never answers or never takes the connection of the request API.\<close>

definition recv_initBinance ::
  "(string \<Rightarrow> 'd option) \<Rightarrow> (int \<Rightarrow> 'd::zero) \<Rightarrow> recv_setup \<Rightarrow> recv_world \<Rightarrow>
     (nat \<Rightarrow> 'f ExchangeSymbol list option) \<Rightarrow>
     ('f exchange \<Rightarrow> string list) \<Rightarrow> ('d, 'f) recv_controller \<Rightarrow> ('d, 'f) recv_controller go option" where
  "recv_initBinance dec newint su w fetch order c =
     (case select_account (su_account su) (su_accounts su) of
        None \<Rightarrow> Some (Inl (Panicked ''Please Corrrect Account!''))
      | Some acc \<Rightarrow>
          (case recv_updateExchangeInfo fetch (rc_exchange c) of
             None \<Rightarrow> None
           | Some exch \<Rightarrow>
               (case recv_loadTradingSymbol dec newint (su_configured su) (order exch) exch (rc_trading c) of
                  Inl p \<Rightarrow> Some (Inl p)
                | Inr m \<Rightarrow>
                    recv_connect su w acc
                      (c\<lparr>rc_account := Some acc, rc_exchange := exch, rc_trading := m,
                         rc_mgr := (\<lambda>f. if su_enable su f then (Some (su_max su f), feed_Init f)
                                        else rc_mgr c f)\<rparr>))))"

text \<open>\<open>Open\<close> of a manager reads its configuration; \<open>keys f\<close> is what \<open>GetTradeSymbols\<close> returns to it.\<close>

fun open_feeds ::
  "recv_setup \<Rightarrow> (feed \<Rightarrow> string list) \<Rightarrow> feed list \<Rightarrow> ('d, 'f) recv_controller \<Rightarrow> ('d, 'f) recv_controller go option" where
  "open_feeds su keys [] c = Some (Inr c)"
| "open_feeds su keys (f # fs) c =
     (if su_enable su f then
        (case fst (rc_mgr c f) of
           None \<Rightarrow> Some (Inl NilDereference)
         | Some k \<Rightarrow>
             (case feed_Open f k (keys f) (snd (rc_mgr c f)) of
                None \<Rightarrow> None
              | Some (Inl p) \<Rightarrow> Some (Inl p)
              | Some (Inr mgr) \<Rightarrow> open_feeds su keys fs (c\<lparr>rc_mgr := (rc_mgr c)(f := (Some k, mgr))\<rparr>)))
      else open_feeds su keys fs c)"

definition recv_run ::
  "recv_setup \<Rightarrow> (feed \<Rightarrow> string list) \<Rightarrow> ('d, 'f) recv_controller \<Rightarrow> ('d, 'f) recv_controller go option" where
  "recv_run su keys c =
     open_feeds su keys [FTrade, FDepth, FOrbInc, FKline, FAggTrade] (c\<lparr>rc_msgCh := Some []\<rparr>)"

definition recv_start ::
  "(string \<Rightarrow> 'd option) \<Rightarrow> (int \<Rightarrow> 'd::zero) \<Rightarrow> recv_setup \<Rightarrow> recv_world \<Rightarrow>
     (nat \<Rightarrow> 'f ExchangeSymbol list option) \<Rightarrow>
     ('f exchange \<Rightarrow> string list) \<Rightarrow> ((string \<rightharpoonup> ('d, 'f) TradingSymbol) \<Rightarrow> feed \<Rightarrow> string list) \<Rightarrow>
     ('d, 'f) recv_controller go option" where
  "recv_start dec newint su w fetch order keys =
     (case recv_init_state su of
        Inl p \<Rightarrow> Some (Inl p)
      | Inr c0 \<Rightarrow>
          (case recv_initBinance dec newint su w fetch order c0 of
             None \<Rightarrow> None
           | Some (Inl p) \<Rightarrow> Some (Inl p)
           | Some (Inr c) \<Rightarrow>
               recv_run su (keys (rc_trading c))
                 (c\<lparr>rc_qmon := init_monitor (su_mon su) (su_serviceType su) (su_thunderId su) recv_VERSION
                                 (su_ip su) (rw_now w) (rw_pid w)\<rparr>)))"

section \<open>Lemmas\<close>

text \<open>The managers of the five feeds open alike.\<close>

lemma feed_Init_empty: "feed_Init f = \<lparr>mg_services = [], mg_index = Map.empty\<rparr>"
  by (cases f) (simp_all add: WsDepthClientManager_Init_def WsTradeClientManager_Init_def WsKLineManager_Init_def
      WsAggTradeManager_Init_def WsOrbIncClientManager_Init_def)

lemma feed_Open_manager: "feed_Open f = open_manager"
  by (cases f) (simp_all add: fun_eq_iff WsDepthClientManager_Open_def WsTradeClientManager_Open_def
      WsKLineManager_Open_def WsAggTradeManager_Open_def WsOrbIncClientManager_Open_def)

text \<open>A manager that carries exactly the given symbols.\<close>

definition carries :: "int \<Rightarrow> string list \<Rightarrow> ws_manager \<Rightarrow> bool" where
  "carries k symbols mgr \<longleftrightarrow>
     concat (map sv_symbols (mg_services mgr)) = symbols \<and>
     (\<forall>s\<in>set (mg_services mgr). int (length (sv_symbols s)) \<le> k) \<and>
     dom (mg_index mgr) = set symbols \<and> index_ok mgr"

lemma feed_Open_carries:
  assumes "0 < k" and "int (length symbols) + k < 2 ^ 63"
  shows "\<exists>mgr. feed_Open f k symbols (feed_Init f) = Some (Inr mgr) \<and> carries k symbols mgr"
  using open_manager_ok [OF assms] by (simp add: feed_Open_manager feed_Init_empty carries_def)

definition setup_ok :: "recv_setup \<Rightarrow> (feed \<Rightarrow> string list) \<Rightarrow> bool" where
  "setup_ok su keys \<longleftrightarrow> (\<forall>f. su_enable su f \<longrightarrow> 0 < su_max su f \<and> int (length (keys f)) + su_max su f < 2 ^ 63)"

text \<open>Opening the feeds changes the managers only.\<close>

definition same_but_mgr :: "('d, 'f) recv_controller \<Rightarrow> ('d, 'f) recv_controller \<Rightarrow> bool" where
  "same_but_mgr c c' \<longleftrightarrow> c'\<lparr>rc_mgr := rc_mgr c\<rparr> = c"

lemma same_but_mgr_update: "same_but_mgr (c\<lparr>rc_mgr := m\<rparr>) c' \<Longrightarrow> same_but_mgr c c'"
  by (cases c; cases c') (simp add: same_but_mgr_def)

lemma open_feeds_ok:
  assumes "setup_ok su keys" and "distinct fs"
    and "\<forall>f\<in>set fs. su_enable su f \<longrightarrow> rc_mgr c f = (Some (su_max su f), feed_Init f)"
  shows "\<exists>c'. open_feeds su keys fs c = Some (Inr c') \<and> same_but_mgr c c' \<and>
    (\<forall>f\<in>set fs. su_enable su f \<longrightarrow> carries (su_max su f) (keys f) (snd (rc_mgr c' f))) \<and>
    (\<forall>f. f \<notin> set fs \<or> \<not> su_enable su f \<longrightarrow> rc_mgr c' f = rc_mgr c f)"
  using assms(2,3)
proof (induction fs arbitrary: c)
  case (Cons f fs)
  show ?case
  proof (cases "su_enable su f")
    case False
    with Cons.IH [of c] Cons.prems show ?thesis by auto
  next
    case True
    from assms(1) True feed_Open_carries [of "su_max su f" "keys f" f] obtain mgr where
      mgr: "feed_Open f (su_max su f) (keys f) (feed_Init f) = Some (Inr mgr)" "carries (su_max su f) (keys f) mgr"
      by (auto simp: setup_ok_def)
    let ?c1 = "c\<lparr>rc_mgr := (rc_mgr c)(f := (Some (su_max su f), mgr))\<rparr>"
    have step: "open_feeds su keys (f # fs) c = open_feeds su keys fs ?c1" using True Cons.prems mgr by simp
    have "\<forall>f'\<in>set fs. su_enable su f' \<longrightarrow> rc_mgr ?c1 f' = (Some (su_max su f'), feed_Init f')"
      using Cons.prems by auto
    from Cons.IH [OF _ this] Cons.prems obtain c' where c': "open_feeds su keys fs ?c1 = Some (Inr c')"
      "same_but_mgr c c'"
      "\<forall>f'\<in>set fs. su_enable su f' \<longrightarrow> carries (su_max su f') (keys f') (snd (rc_mgr c' f'))"
      "\<forall>f'. f' \<notin> set fs \<or> \<not> su_enable su f' \<longrightarrow> rc_mgr c' f' = rc_mgr ?c1 f'"
      by (auto dest: same_but_mgr_update)
    have "f \<notin> set fs" using Cons.prems by simp
    with c'(4) mgr(2) have "carries (su_max su f) (keys f) (snd (rc_mgr c' f))" by simp
    with c' step True show ?thesis by (intro exI [of _ c']) (auto split: if_splits)
  qed
qed (simp add: same_but_mgr_def)

lemma recv_init_state_ok:
  assumes "su_snapshot su \<longrightarrow> 0 \<le> sn_TaskQueueSize (su_snapcfg su)"
  shows "\<exists>c0. recv_init_state su = Inr c0 \<and> rc_exchange c0 = Map.empty \<and> rc_trading c0 = Map.empty \<and>
    rc_mgr c0 = (\<lambda>_. (None, \<lparr>mg_services = [], mg_index = Map.empty\<rparr>)) \<and>
    (rc_snapshot c0 \<noteq> None \<longleftrightarrow> su_snapshot su) \<and> rc_producers c0 = [] \<and> rc_wsapi c0 = None"
  using assms by (cases "su_snapshot su") (simp_all add: recv_init_state_def NewSnapShotManager_def)

lemma all_feeds: "f \<in> set [FTrade, FDepth, FOrbInc, FKline, FAggTrade]"
  by (cases f) simp_all

lemma recv_run_ok:
  assumes "setup_ok su keys" and "\<forall>f. su_enable su f \<longrightarrow> rc_mgr c f = (Some (su_max su f), feed_Init f)"
  shows "\<exists>c'. recv_run su keys c = Some (Inr c') \<and> same_but_mgr (c\<lparr>rc_msgCh := Some []\<rparr>) c' \<and>
    (\<forall>f. su_enable su f \<longrightarrow> carries (su_max su f) (keys f) (snd (rc_mgr c' f))) \<and>
    (\<forall>f. \<not> su_enable su f \<longrightarrow> rc_mgr c' f = rc_mgr c f)"
proof -
  define fs where "fs = [FTrade, FDepth, FOrbInc, FKline, FAggTrade]"
  have "distinct fs" by (simp add: fs_def)
  moreover have "\<And>f. f \<in> set fs" unfolding fs_def by (rule all_feeds)
  ultimately show ?thesis using open_feeds_ok [OF assms(1), of fs "c\<lparr>rc_msgCh := Some []\<rparr>"] assms(2)
    unfolding recv_run_def fs_def [symmetric] by auto
qed

text \<open>The symbols that \<open>initBinance\<close> loads.\<close>

lemma recv_symbols_ok:
  assumes "fetch n = Some syms" and "\<forall>i<n. fetch i = None"
    and "exch = exchange_map syms Map.empty" and "range_order (order exch) exch"
    and "S = wanted_names configured exch" and "\<forall>x\<in>S. readable dec newint exch x"
  shows "recv_updateExchangeInfo fetch Map.empty = Some exch"
    and "recv_loadTradingSymbol dec newint configured (order exch) exch Map.empty = Inr (loaded dec newint exch S Map.empty)"
    and "dom (loaded dec newint exch S Map.empty) = S" and "finite S"
proof -
  have "retry fetch 0 = Some syms" using retry_first [of fetch 0 n syms] assms(1,2) by simp
  then show "recv_updateExchangeInfo fetch Map.empty = Some exch"
    by (simp add: recv_updateExchangeInfo_def assms(3))
  show "recv_loadTradingSymbol dec newint configured (order exch) exch Map.empty = Inr (loaded dec newint exch S Map.empty)"
    using loadTradingSymbol_result [OF assms(4), of dec newint configured] assms(5,6)
    by (simp add: recv_loadTradingSymbol_def loadTradingSymbol_def split: if_splits)
  show "dom (loaded dec newint exch S Map.empty) = S"
    by (rule loaded_entry(2)) (use assms(5,6) in \<open>simp_all add: wanted_names_def\<close>)
  have "S \<subseteq> dom exch" by (auto simp: assms(5) wanted_names_def tradable_def split: option.splits)
  moreover have "finite (dom exch)" unfolding assms(3) by (rule exchange_map_finite) simp
  ultimately show "finite S" by (rule finite_subset)
qed

section \<open>Properties\<close>

text \<open>C27. The receiver starts the feeds it is configured for: where the account exists, the exchange answers and the
  filters of the trading symbols can be read, the start returns without touching a manager that has no
  configuration; every enabled feed carries exactly the trading symbols, spread over connections of at most
  \<open>MaxSymbolNumPerConn\<close> symbols, a disabled feed has no service, and there is a snapshot manager exactly
  where snapshots are enabled, so that the requests of the feed of increments never meet a nil
  manager. The fan-out has one socket per configured address and an empty channel of messages, and the client of the
  request API is the first connection that the exchange took.\<close>

theorem receiver_starts_enabled_feeds:
  fixes fetch :: "nat \<Rightarrow> 'f ExchangeSymbol list option" and dec :: "string \<Rightarrow> 'd::zero option"
  assumes "fetch n = Some syms" and "\<forall>i<n. fetch i = None"
    and "select_account (su_account su) (su_accounts su) = Some acc"
    and "exch = exchange_map syms Map.empty" and "range_order (order exch) exch"
    and "\<forall>x\<in>wanted_names (su_configured su) exch. readable dec newint exch x"
    and "su_snapshot su \<longrightarrow> 0 \<le> sn_TaskQueueSize (su_snapcfg su)"
    and "\<And>m f. finite (dom m) \<Longrightarrow> range_order (keys m f) m"
    and "\<And>f. su_enable su f \<Longrightarrow>
      0 < su_max su f \<and> int (card (wanted_names (su_configured su) exch)) + su_max su f < 2 ^ 63"
    and "\<forall>addr\<in>set (su_servers su). rw_new_sock w addr"
    and "rw_dial w (ac_ApiKey acc) (ac_SecretKey acc) (GetFutureNetUrl (ac_TestNet acc)) j = Some conn"
    and "\<forall>i<j. rw_dial w (ac_ApiKey acc) (ac_SecretKey acc) (GetFutureNetUrl (ac_TestNet acc)) i = None"
  shows "\<exists>c. recv_start dec newint su w fetch order keys = Some (Inr c) \<and>
    dom (rc_trading c) = wanted_names (su_configured su) exch \<and>
    (\<forall>f. if su_enable su f
         then carries (su_max su f) (keys (rc_trading c) f) (snd (rc_mgr c f)) \<and>
              set (keys (rc_trading c) f) = wanted_names (su_configured su) exch
         else mg_services (snd (rc_mgr c f)) = []) \<and>
    (rc_snapshot c \<noteq> None \<longleftrightarrow> su_snapshot su) \<and>
    rc_producers c = su_servers su \<and> rc_msgCh c = Some [] \<and> rc_wsapi c = Some (conn, True) \<and>
    (rc_qmon c \<noteq> None \<longleftrightarrow> mc_Enable (su_mon su))"
proof -
  let ?S = "wanted_names (su_configured su) exch"
  let ?m = "loaded dec newint exch ?S Map.empty"
  note syms = recv_symbols_ok [where fetch = fetch and order = order, OF assms(1,2,4,5) refl assms(6)]
  note upd = syms(1) and load = syms(2) and dom = syms(3)
  have fin: "finite (dom ?m)" using syms(4) unfolding dom .
  have ord: "set (keys ?m f) = ?S" "distinct (keys ?m f)" for f
    using assms(8) [OF fin, of f] dom by (auto simp: range_order_def)
  have sok: "setup_ok su (keys ?m)"
    unfolding setup_ok_def using assms(9) distinct_card [OF ord(2)] ord(1) by simp
  from recv_init_state_ok [OF assms(7)] obtain c0 :: "('d, 'f) recv_controller" where c0: "recv_init_state su = Inr c0"
    "rc_exchange c0 = Map.empty" "rc_trading c0 = Map.empty"
    "rc_mgr c0 = (\<lambda>_. (None, \<lparr>mg_services = [], mg_index = Map.empty\<rparr>))"
    "rc_snapshot c0 \<noteq> None \<longleftrightarrow> su_snapshot su" "rc_producers c0 = []" "rc_wsapi c0 = None" by blast
  let ?c1 = "c0\<lparr>rc_account := Some acc, rc_exchange := exch, rc_trading := ?m,
      rc_mgr := (\<lambda>f. if su_enable su f then (Some (su_max su f), feed_Init f) else rc_mgr c0 f),
      rc_producers := su_servers su, rc_wsapi := Some (conn, True)\<rparr>"
  have "GetOrNewWsClient (rw_dial w) acc None = Some (conn, True)"
    by (rule GetOrNewWsClient_connects [where dial = "rw_dial w" and acc = acc, OF assms(11,12)])
  then have init: "recv_initBinance dec newint su w fetch order c0 = Some (Inr ?c1)"
    using assms(3) c0 upd load recv_fanout_init_ok [OF assms(10)]
    by (simp add: recv_initBinance_def recv_connect_def)
  let ?mon = "init_monitor (su_mon su) (su_serviceType su) (su_thunderId su) recv_VERSION (su_ip su) (rw_now w) (rw_pid w)"
  let ?c2 = "?c1\<lparr>rc_qmon := ?mon\<rparr>"
  obtain c where c: "recv_run su (keys ?m) ?c2 = Some (Inr c)" "same_but_mgr (?c2\<lparr>rc_msgCh := Some []\<rparr>) c"
    "\<forall>f. su_enable su f \<longrightarrow> carries (su_max su f) (keys ?m f) (snd (rc_mgr c f))"
    "\<forall>f. \<not> su_enable su f \<longrightarrow> rc_mgr c f = rc_mgr ?c2 f"
    using recv_run_ok [OF sok, of ?c2] by auto
  have "recv_start dec newint su w fetch order keys = Some (Inr c)" using c0(1) init c(1) by (simp add: recv_start_def)
  moreover have "rc_snapshot c = rc_snapshot c0" "rc_trading c = ?m" "rc_producers c = su_servers su"
    "rc_msgCh c = Some []" "rc_wsapi c = Some (conn, True)" "rc_qmon c = ?mon"
    using c(2) by (cases c; cases c0; simp add: same_but_mgr_def)+
  moreover have "?mon \<noteq> None \<longleftrightarrow> mc_Enable (su_mon su)" by (simp add: init_monitor_def)
  ultimately show ?thesis using c(3,4) dom c0(4,5) ord(1) by (intro exI [of _ c]) auto
qed

definition demo_setup :: recv_setup where
  "demo_setup = \<lparr>su_enable = (\<lambda>f. f = FTrade \<or> f = FOrbInc), su_max = (\<lambda>_. 50), su_snapshot = True,
     su_snapcfg = demo_snap, su_account = ''a'', su_accounts = [demo_account], su_configured = [],
     su_servers = [''tcp://a'', ''tcp://b''],
     su_mon = \<lparr>mc_Enable = False, mc_ReportDest = [], mc_ReportInterval = 5, mc_AuthKey = []\<rparr>,
     su_serviceType = ''drs'', su_thunderId = ''t1'', su_ip = []\<rparr>"

definition demo_world :: recv_world where
  "demo_world = \<lparr>rw_new_sock = (\<lambda>_. True),
     rw_dial = (\<lambda>_ _ url k. if url = FutureLiveNet \<and> 3 \<le> k then Some k else None), rw_now = 0, rw_pid = 1\<rparr>"

lemma demo_dial:
  "rw_dial demo_world (ac_ApiKey demo_account) (ac_SecretKey demo_account) (GetFutureNetUrl (ac_TestNet demo_account)) =
     (\<lambda>k. if 3 \<le> k then Some k else None)"
  by (simp add: demo_world_def demo_account_def GetFutureNetUrl_def)

definition sorted_keys :: "(string \<rightharpoonup> (int, int) TradingSymbol) \<Rightarrow> feed \<Rightarrow> string list" where
  "sorted_keys m f = sorted_list_of_set (dom m)"

lemma sorted_keys_ok: "finite (dom m) \<Longrightarrow> range_order (sorted_keys m f) m"
  by (simp add: sorted_keys_def range_order_def)



theorem receiver_starts_enabled_feeds_witness:
  "\<exists>c. recv_start demo_dec id demo_setup demo_world (\<lambda>k. if k < 2 then None else Some demo_syms)
      (\<lambda>_. [''OLDUSDT'', ''BTCUSDT'']) sorted_keys = Some (Inr c) \<and>
    dom (rc_trading c) = {''BTCUSDT''} \<and> mg_services (snd (rc_mgr c FDepth)) = [] \<and> rc_snapshot c \<noteq> None \<and>
    rc_producers c = [''tcp://a'', ''tcp://b''] \<and> rc_wsapi c = Some (3, True)"
proof -
  let ?exch = "exchange_map demo_syms Map.empty"
  let ?fetch = "\<lambda>k. if k < (2 :: nat) then None else Some demo_syms"
  have sel: "select_account (su_account demo_setup) (su_accounts demo_setup) = Some demo_account"
    by (simp add: select_account_def demo_account_def demo_setup_def)
  have ord: "range_order [''OLDUSDT'', ''BTCUSDT''] ?exch" by (auto simp: range_order_def demo_exchange)
  have r: "\<forall>x\<in>wanted_names (su_configured demo_setup) ?exch. readable demo_dec id ?exch x"
    by (simp add: demo_setup_def demo_wanted) (simp add: readable_def demo_exchange demo_readable)
  have w: "wanted_names (su_configured demo_setup) ?exch = {''BTCUSDT''}" by (simp add: demo_setup_def demo_wanted)
  have snap: "su_snapshot demo_setup \<longrightarrow> 0 \<le> sn_TaskQueueSize (su_snapcfg demo_setup)"
    by (simp add: demo_setup_def demo_snap_def)
  have fetch: "?fetch 2 = Some demo_syms" "\<forall>i<2. ?fetch i = None" by simp_all
  have mx: "0 < su_max demo_setup f \<and> int (card (wanted_names (su_configured demo_setup) ?exch)) + su_max demo_setup f < 2 ^ 63" for f
    unfolding w by (simp add: demo_setup_def)
  have sock: "\<forall>addr\<in>set (su_servers demo_setup). rw_new_sock demo_world addr" by (simp add: demo_world_def)
  note start = receiver_starts_enabled_feeds [where order = "\<lambda>_. [''OLDUSDT'', ''BTCUSDT'']" and keys = sorted_keys
      and j = 3 and conn = 3,
      OF fetch sel refl ord r snap sorted_keys_ok mx sock, unfolded demo_dial w]
  then obtain c where c: "recv_start demo_dec id demo_setup demo_world ?fetch (\<lambda>_. [''OLDUSDT'', ''BTCUSDT'']) sorted_keys =
      Some (Inr c)" "dom (rc_trading c) = {''BTCUSDT''}" "rc_snapshot c \<noteq> None \<longleftrightarrow> su_snapshot demo_setup"
    "rc_producers c = su_servers demo_setup" "rc_wsapi c = Some (3, True)"
    and f: "\<forall>f. if su_enable demo_setup f
         then carries (su_max demo_setup f) (sorted_keys (rc_trading c) f) (snd (rc_mgr c f)) \<and>
              set (sorted_keys (rc_trading c) f) = {''BTCUSDT''}
         else mg_services (snd (rc_mgr c f)) = []" by auto
  have "\<not> su_enable demo_setup FDepth" "su_snapshot demo_setup" "su_servers demo_setup = [''tcp://a'', ''tcp://b'']"
    by (simp_all add: demo_setup_def)
  with f c show ?thesis by (intro exI [of _ c] conjI) (simp_all split: if_splits)
qed

end
