(* ===== verification/Aggr_Fanout.thy ===== *)
theory Aggr_Fanout
  imports Aggr_Controller Ws_Server
begin

text \<open>
  The two ends of the aggregating service: the quotes it receives (\<open>market_drain.go\<close>) and the periods
  it publishes to its destinations (\<open>market_spout.go\<close>, with the producers of \<open>transport/zmq.go\<close> and
  \<open>transport/kafka2.go\<close>) and to the clients of its WebSocket server. Sockets, brokers and the
  protobuf encoder are not part of the repository: whether a socket can be made and connected, and what
  \<open>proto.Marshal\<close> returns, are arguments; what is handed to a destination is a value of \<open>post\<close>.
\<close>

section \<open>Producers\<close>

record FanOutDestination =
  fd_Name :: string
  fd_Enable :: bool
  fd_Server :: string
  fd_Topic :: string

record ZmqProducer =
  zp_server :: string
  zp_topic :: string
  zp_Sock :: bool

record KafkaGoProducer =
  kp_server :: string
  kp_topic :: string
  kp_p :: bool

text \<open>A value of the interface \<open>transport.Producer\<close>. A flag of a producer says whether its pointer to the
  socket or to the writer is set.\<close>

datatype Producer = Zmq ZmqProducer | Kafka KafkaGoProducer | NilProducer

datatype post =
    ZmqFrames string "bytes list"
  | KafkaMessage string string bytes

definition NewZmqProducer :: "string \<Rightarrow> string \<Rightarrow> ZmqProducer" where
  "NewZmqProducer server topic = \<lparr>zp_server = server, zp_topic = topic, zp_Sock = False\<rparr>"

definition NewKafkaGoProducer :: "string \<Rightarrow> string \<Rightarrow> KafkaGoProducer" where
  "NewKafkaGoProducer server topic = \<lparr>kp_server = server, kp_topic = topic, kp_p = False\<rparr>"

definition ZmqProducer_Send :: "ZmqProducer \<Rightarrow> string \<Rightarrow> bytes \<Rightarrow> post list" where
  "ZmqProducer_Send p topic data =
     (if \<not> zp_Sock p then []
      else [ZmqFrames (zp_server p) (if topic \<noteq> [] then [bytes_of topic, data] else [data])])"

definition KafkaGoProducer_Open :: "KafkaGoProducer \<Rightarrow> KafkaGoProducer" where
  "KafkaGoProducer_Open p = p\<lparr>kp_p := True\<rparr>"

text \<open>\<open>WriteMessages\<close> on a nil writer panics; its error is assigned and dropped.\<close>

definition KafkaGoProducer_Send :: "KafkaGoProducer \<Rightarrow> string \<Rightarrow> bytes \<Rightarrow> post list go" where
  "KafkaGoProducer_Send p topic data =
     (if kp_p p then Inr [KafkaMessage (kp_server p) topic data] else Inl NilDereference)"

text \<open>The producer on librdkafka, which the fan-out manager does not make. \<open>new_producer\<close> says whether
  \<open>kafka.NewProducer\<close> succeeds; \<open>zlib\<close> is \<open>None\<close> where the compression fails, and the data is sent as it is.
  What \<open>Produce\<close> returns is printed and dropped.\<close>

record KafkaProducer =
  rk_server :: string
  rk_topic :: string
  rk_p :: bool

definition NewKafkaProducer :: "string \<Rightarrow> string \<Rightarrow> KafkaProducer" where
  "NewKafkaProducer server topic = \<lparr>rk_server = server, rk_topic = topic, rk_p = False\<rparr>"

definition KafkaProducer_Open :: "(string \<Rightarrow> bool) \<Rightarrow> KafkaProducer \<Rightarrow> KafkaProducer \<times> bool" where
  "KafkaProducer_Open new_producer kf =
     (kf\<lparr>rk_p := new_producer (rk_server kf)\<rparr>, new_producer (rk_server kf))"

definition KafkaProducer_Send :: "(bytes \<Rightarrow> bytes option) \<Rightarrow> KafkaProducer \<Rightarrow> string \<Rightarrow> bytes \<Rightarrow> post list go" where
  "KafkaProducer_Send zlib kf topic data =
     (let data' = (case zlib data of Some z \<Rightarrow> z | None \<Rightarrow> data)
      in if rk_p kf then Inr [KafkaMessage (rk_server kf) topic data'] else Inl NilDereference)"

text \<open>The calls through the interface.\<close>

fun Producer_Open :: "Producer \<Rightarrow> Producer go" where
  "Producer_Open (Zmq p) = Inr (Zmq p)"
| "Producer_Open (Kafka p) = Inr (Kafka (KafkaGoProducer_Open p))"
| "Producer_Open NilProducer = Inl NilDereference"

fun Producer_Send :: "Producer \<Rightarrow> bytes \<Rightarrow> post list go" where
  "Producer_Send (Zmq p) data = Inr (ZmqProducer_Send p (zp_topic p) data)"
| "Producer_Send (Kafka p) data = KafkaGoProducer_Send p (kp_topic p) data"
| "Producer_Send NilProducer data = Inl NilDereference"

section \<open>The fan-out manager\<close>

text \<open>One destination of \<open>init\<close>. \<open>new_sock\<close> says whether \<open>czmq.NewSock\<close> returns a socket, \<open>connect\<close> whether
  it can be connected to a server.\<close>

definition make_producer :: "bool \<Rightarrow> (string \<Rightarrow> bool) \<Rightarrow> FanOutDestination \<Rightarrow> Producer go" where
  "make_producer new_sock connect fs =
     (if fd_Name fs = ''zmq'' then
        (if \<not> new_sock then Inl (Panicked ''NewSock failed : Pub '')
         else if \<not> connect (fd_Server fs) then Inl (Panicked ''connect'')
         else Inr (Zmq ((NewZmqProducer (fd_Server fs) (fd_Topic fs))\<lparr>zp_Sock := True\<rparr>)))
      else if fd_Name fs = ''kafka'' then Inr (Kafka (NewKafkaGoProducer (fd_Server fs) (fd_Topic fs)))
      else Inr NilProducer)"

fun FanOutManager_init ::
  "bool \<Rightarrow> (string \<Rightarrow> bool) \<Rightarrow> FanOutDestination list \<Rightarrow> Producer list \<Rightarrow> Producer list go" where
  "FanOutManager_init new_sock connect [] producers = Inr producers"
| "FanOutManager_init new_sock connect (fs # servers) producers =
     (if \<not> fd_Enable fs then FanOutManager_init new_sock connect servers producers
      else (case make_producer new_sock connect fs of
              Inl e \<Rightarrow> Inl e
            | Inr pp \<Rightarrow> FanOutManager_init new_sock connect servers (producers @ [pp])))"

fun FanOutManager_open :: "Producer list \<Rightarrow> Producer list go" where
  "FanOutManager_open [] = Inr []"
| "FanOutManager_open (p # ps) =
     (case Producer_Open p of
        Inl e \<Rightarrow> Inl e
      | Inr p' \<Rightarrow> (case FanOutManager_open ps of Inl e \<Rightarrow> Inl e | Inr ps' \<Rightarrow> Inr (p' # ps')))"

fun send_all :: "Producer list \<Rightarrow> bytes \<Rightarrow> post list go" where
  "send_all [] data = Inr []"
| "send_all (p # ps) data =
     (case Producer_Send p data of
        Inl e \<Rightarrow> Inl e
      | Inr out \<Rightarrow> (case send_all ps data of Inl e \<Rightarrow> Inl e | Inr outs \<Rightarrow> Inr (out @ outs)))"

text \<open>The log line reads \<open>msg.SymbolInfos[0]\<close> first.\<close>

definition FanOutManager_send ::
  "('f PeriodMessage \<Rightarrow> bytes option) \<Rightarrow> Producer list \<Rightarrow> 'f PeriodMessage \<Rightarrow> post list go" where
  "FanOutManager_send marshal producers msg =
     (if pm_SymbolInfos msg = [] then Inl IndexOutOfRange
      else (case marshal msg of None \<Rightarrow> Inr [] | Some bs \<Rightarrow> send_all producers bs))"

section \<open>Receiving\<close>

text \<open>One turn of the loop of \<open>QuoteReceiver.Open\<close>, which hands the first frame to the goroutine of
  \<open>quoteDataRecvHandler\<close> over an unbuffered channel. A receive that fails is logged.\<close>

definition QuoteReceiver_turn ::
  "(bytes \<Rightarrow> Message option) \<Rightarrow> aggr_globals \<Rightarrow> bytes list option \<Rightarrow> controller \<Rightarrow> controller go" where
  "QuoteReceiver_turn gob_decode g received c =
     (case received of
        None \<Rightarrow> Inr c
      | Some [] \<Rightarrow> Inl IndexOutOfRange
      | Some (msg # _) \<Rightarrow> Inr (onQuoteDataRecv gob_decode g msg c))"

section \<open>Publishing\<close>

text \<open>A turn of \<open>timedPeriodCollect\<close> with its effects: a message that was collected goes to the fan-out
  manager and then to the WebSocket server, where one is configured. \<open>None\<close> where the delivery to a
  client blocks.\<close>

definition collect_turn ::
  "(string \<Rightarrow> 'f option) \<Rightarrow> ('f::zero PeriodMessage \<Rightarrow> bytes option) \<Rightarrow> (bytes \<Rightarrow> bytes option) \<Rightarrow> 'f aggr_config \<Rightarrow>
     aggr_globals \<Rightarrow> clocks \<Rightarrow> string list \<Rightarrow> string list \<Rightarrow> string list \<Rightarrow> Producer list \<Rightarrow> controller \<Rightarrow>
     WsServer option \<Rightarrow> (controller \<times> post list \<times> WsServer option) go option" where
  "collect_turn pf marshal zlib cfg g ck friends names receivers producers c ws =
     (case collect_round pf cfg g ck friends names c of
        Inl e \<Rightarrow> Some (Inl e)
      | Inr (c', Publish pm) \<Rightarrow>
          (case FanOutManager_send marshal producers pm of
             Inl e \<Rightarrow> Some (Inl e)
           | Inr posts \<Rightarrow>
               (case ws of
                  None \<Rightarrow> Some (Inr (c', posts, None))
                | Some s \<Rightarrow>
                    (case enqueue marshal zlib receivers pm s of
                       None \<Rightarrow> None
                     | Some s' \<Rightarrow> Some (Inr (c', posts, Some s')))))
      | Inr (c', _) \<Rightarrow> Some (Inr (c', [], ws)))"

section \<open>Lemmas\<close>

definition usable :: "bool \<Rightarrow> (string \<Rightarrow> bool) \<Rightarrow> FanOutDestination \<Rightarrow> bool" where
  "usable new_sock connect fs \<longleftrightarrow>
     fd_Name fs = ''kafka'' \<or> fd_Name fs = ''zmq'' \<and> new_sock \<and> connect (fd_Server fs)"

definition producer_of :: "FanOutDestination \<Rightarrow> Producer" where
  "producer_of fs =
     (if fd_Name fs = ''zmq'' then Zmq \<lparr>zp_server = fd_Server fs, zp_topic = fd_Topic fs, zp_Sock = True\<rparr>
      else if fd_Name fs = ''kafka'' then Kafka \<lparr>kp_server = fd_Server fs, kp_topic = fd_Topic fs, kp_p = True\<rparr>
      else NilProducer)"

text \<open>What a destination is handed for a payload.\<close>

definition post_of :: "bytes \<Rightarrow> FanOutDestination \<Rightarrow> post" where
  "post_of data fs =
     (if fd_Name fs = ''zmq''
      then ZmqFrames (fd_Server fs) (if fd_Topic fs = [] then [data] else [bytes_of (fd_Topic fs), data])
      else KafkaMessage (fd_Server fs) (fd_Topic fs) data)"

abbreviation enabled :: "FanOutDestination list \<Rightarrow> FanOutDestination list" where
  "enabled servers \<equiv> filter fd_Enable servers"

lemma make_producer_usable:
  "usable new_sock connect fs \<Longrightarrow>
   \<exists>p. make_producer new_sock connect fs = Inr p \<and> Producer_Open p = Inr (producer_of fs)"
  by (auto simp: usable_def make_producer_def producer_of_def NewZmqProducer_def NewKafkaGoProducer_def
      KafkaGoProducer_Open_def)

lemma init_acc:
  "FanOutManager_init new_sock connect servers (pre @ acc) =
     (case FanOutManager_init new_sock connect servers acc of Inl e \<Rightarrow> Inl e | Inr ps \<Rightarrow> Inr (pre @ ps))"
proof (induction servers arbitrary: acc)
  case (Cons fs servers)
  show ?case
    by (cases "make_producer new_sock connect fs") (simp_all add: Cons.IH)
qed simp

lemmas init_from_nil = init_acc [where acc = "[]", simplified]

lemma init_open_usable:
  assumes "\<forall>fs\<in>set (enabled servers). usable new_sock connect fs"
  shows "\<exists>ps. FanOutManager_init new_sock connect servers [] = Inr ps \<and>
    FanOutManager_open ps = Inr (map producer_of (enabled servers))"
  using assms
proof (induction servers)
  case (Cons fs servers)
  then obtain ps where ps: "FanOutManager_init new_sock connect servers [] = Inr ps"
    "FanOutManager_open ps = Inr (map producer_of (enabled servers))" by auto
  show ?case
  proof (cases "fd_Enable fs")
    case True
    with Cons.prems obtain p where p: "make_producer new_sock connect fs = Inr p"
      "Producer_Open p = Inr (producer_of fs)" using make_producer_usable by force
    then show ?thesis using True ps by (simp add: init_from_nil [of _ _ _ "[p]"])
  qed (use ps in simp)
qed simp

lemma send_all_usable:
  "\<forall>fs\<in>set fss. usable new_sock connect fs \<Longrightarrow> send_all (map producer_of fss) data = Inr (map (post_of data) fss)"
  by (induction fss) (auto simp: usable_def producer_of_def post_of_def ZmqProducer_Send_def KafkaGoProducer_Send_def)

text \<open>The two Kafka producers post the same message but for the compression.\<close>

lemma kafka_producers_agree:
  assumes "new_producer server" and "zlib data = Some z"
  shows "KafkaProducer_Send zlib (fst (KafkaProducer_Open new_producer (NewKafkaProducer server topic))) topic data =
    KafkaGoProducer_Send (KafkaGoProducer_Open (NewKafkaGoProducer server topic)) topic z"
  using assms
  by (simp add: KafkaProducer_Send_def KafkaProducer_Open_def NewKafkaProducer_def KafkaGoProducer_Send_def
      KafkaGoProducer_Open_def NewKafkaGoProducer_def)

lemma collect_round_publishes_some:
  "collect_round pf cfg g ck friends names c = Inr (c', Publish pm) \<Longrightarrow> pm_SymbolInfos pm \<noteq> []"
  by (auto simp: collect_round_def split: if_splits sum.splits)

section \<open>Properties\<close>

text \<open>An enabled destination whose name is neither \<open>zmq\<close> nor \<open>kafka\<close> becomes a nil producer:
  \<open>init\<close> accepts it, and \<open>open\<close> panics on it, whatever the other destinations are.\<close>

theorem unknown_destination_panics:
  assumes "fs \<in> set servers" and "fd_Enable fs" and "fd_Name fs \<noteq> ''zmq''" and "fd_Name fs \<noteq> ''kafka''"
    and "FanOutManager_init new_sock connect servers [] = Inr ps"
  shows "FanOutManager_open ps = Inl NilDereference"
proof -
  have "NilProducer \<in> set ps" using assms(1,5)
  proof (induction servers arbitrary: ps)
    case (Cons fs0 servers)
    then show ?case using assms(2-4)
      by (auto simp: init_from_nil [of _ _ _ "[_]"] make_producer_def split: sum.splits if_splits)
  qed simp
  then show ?thesis
  proof (induction ps)
    case (Cons p ps)
    then show ?case by (cases p) auto
  qed simp
qed

theorem unknown_destination_panics_witness:
  "\<exists>ps. FanOutManager_init True (\<lambda>_. True)
      [\<lparr>fd_Name = ''kafka'', fd_Enable = True, fd_Server = ''h'', fd_Topic = ''t''\<rparr>,
       \<lparr>fd_Name = ''redis'', fd_Enable = True, fd_Server = ''h'', fd_Topic = ''t''\<rparr>] [] = Inr ps \<and>
     FanOutManager_open ps = Inl NilDereference"
proof -
  let ?bad = "\<lparr>fd_Name = ''redis'', fd_Enable = True, fd_Server = ''h'', fd_Topic = ''t''\<rparr>"
  let ?servers = "[\<lparr>fd_Name = ''kafka'', fd_Enable = True, fd_Server = ''h'', fd_Topic = ''t''\<rparr>, ?bad]"
  obtain ps where ps: "FanOutManager_init True (\<lambda>_. True) ?servers [] = Inr ps" by (simp add: make_producer_def)
  with unknown_destination_panics [of ?bad ?servers True "\<lambda>_. True" ps] show ?thesis by auto
qed

end
