(* ===== verification/Pipeline.thy ===== *)
theory Pipeline
  imports Recv_Fanout Aggr_Fanout Aggr_Collect_Props
begin

text \<open>
  The two services together: what the handlers of the receiving service put into the channel of its
  fan-out manager, the frames that leave it, and what the aggregating service does with them. ZeroMQ
  carries the frames of a message as they were sent, in order (the sockets have no high-water mark).
  \<open>gob_encode\<close> and \<open>gob_decode\<close> are the two directions of \<open>encoding/gob\<close>; what the services rely on is
  that a value that was encoded decodes to itself where the type of its quote is registered, and does
  not decode otherwise (\<open>gob_ok\<close>).
\<close>

section \<open>The receiving end\<close>

datatype recv_event =
    EvTrade WsTradeEvent
  | EvOrbInc WsDepthEvent
  | EvSnapShot string "DepthResponse option"
  | EvDepth WsDepthEvent
  | EvKline WsKlineEvent
  | EvAggTrade WsAggTradeEvent

fun recv_handle :: "recv_event \<Rightarrow> msg_chan \<Rightarrow> msg_chan option" where
  "recv_handle (EvTrade e) ch = OnWsTradeEvent e ch"
| "recv_handle (EvOrbInc e) ch = OnWsOrbIncDepthEvent e ch"
| "recv_handle (EvSnapShot symbol res) ch = snapshot symbol res ch"
| "recv_handle (EvDepth e) ch = OnWsDepthEvent e ch"
| "recv_handle (EvKline e) ch = OnWsKLineEvent e ch"
| "recv_handle (EvAggTrade e) ch = OnWsAggTradeEvent e ch"

text \<open>A schedule of the two sides: an event arrives, or the fan-out manager takes a message from its
  channel, sends it, and the aggregator that is connected to \<open>addr\<close> takes what it is sent.\<close>

datatype schedule = Arrive recv_event | Pump

fun take_frames ::
  "(bytes \<Rightarrow> Message option) \<Rightarrow> aggr_globals \<Rightarrow> 's \<Rightarrow> ('s \<times> bytes list) list \<Rightarrow> controller \<Rightarrow> controller go" where
  "take_frames gob_decode g addr [] c = Inr c"
| "take_frames gob_decode g addr ((dest, frames) # out) c =
     (if dest = addr
      then (case QuoteReceiver_turn gob_decode g (Some frames) c of
              Inl e \<Rightarrow> Inl e | Inr c' \<Rightarrow> take_frames gob_decode g addr out c')
      else take_frames gob_decode g addr out c)"

text \<open>The encoder settings of a run: the conversion of decimals, the two encoders, the compression and the
  two configuration entries.\<close>

record 'f encoders =
  en_float :: "string \<Rightarrow> 'f option"
  en_marshal :: "'f pb_info \<Rightarrow> bytes option"
  en_gob :: "Message \<Rightarrow> bytes \<times> bool"
  en_flate :: "bytes \<Rightarrow> bytes option"
  en_compressed :: bool
  en_type :: string

definition pump ::
  "'f::zero encoders \<Rightarrow> (bytes \<Rightarrow> Message option) \<Rightarrow> aggr_globals \<Rightarrow> 's list \<Rightarrow> 's \<Rightarrow> msg_chan \<times> controller \<Rightarrow>
     (msg_chan \<times> controller) option" where
  "pump en gob_decode g producers addr sc =
     (case fanout_step (en_float en) (en_marshal en) (en_gob en) (en_flate en) (en_compressed en) (en_type en)
             producers (fst sc) of
        None \<Rightarrow> None
      | Some (ch, out) \<Rightarrow>
          (case take_frames gob_decode g addr out (snd sc) of Inl e \<Rightarrow> None | Inr c \<Rightarrow> Some (ch, c)))"

fun pipe_step ::
  "'f::zero encoders \<Rightarrow> (bytes \<Rightarrow> Message option) \<Rightarrow> aggr_globals \<Rightarrow> 's list \<Rightarrow> 's \<Rightarrow> schedule \<Rightarrow> msg_chan \<times> controller \<Rightarrow>
     (msg_chan \<times> controller) option" where
  "pipe_step en gob_decode g producers addr (Arrive ev) sc =
     map_option (\<lambda>ch. (ch, snd sc)) (recv_handle ev (fst sc))"
| "pipe_step en gob_decode g producers addr Pump sc = pump en gob_decode g producers addr sc"

fun pipe_run ::
  "'f::zero encoders \<Rightarrow> (bytes \<Rightarrow> Message option) \<Rightarrow> aggr_globals \<Rightarrow> 's list \<Rightarrow> 's \<Rightarrow> schedule list \<Rightarrow> msg_chan \<times> controller \<Rightarrow>
     (msg_chan \<times> controller) option" where
  "pipe_run en gob_decode g producers addr [] sc = Some sc"
| "pipe_run en gob_decode g producers addr (e # es) sc =
     (case pipe_step en gob_decode g producers addr e sc of
        None \<Rightarrow> None | Some sc' \<Rightarrow> pipe_run en gob_decode g producers addr es sc')"

text \<open>The types that \<open>init\<close> of the aggregator registers with \<open>gob\<close>: a message whose quote has another type
  does not decode there.\<close>

definition registered :: "Message \<Rightarrow> bool" where
  "registered m =
     (case msg_Payload m of
        Payload_Quote q \<Rightarrow>
          (case qm_Data q of
             Data_Depth _ \<Rightarrow> True | Data_Trade _ \<Rightarrow> True | Data_OrbIncr _ \<Rightarrow> True | Data_SnapShot _ \<Rightarrow> True
           | _ \<Rightarrow> False)
      | Payload_Other \<Rightarrow> False)"

section \<open>What the aggregator should see\<close>

text \<open>The effect of an event on the aggregator: trades, increments and snapshots reach the symbol they
  name, with the values of the event; the other feeds do not concern it.\<close>

definition trade_of :: "WsTradeEvent \<Rightarrow> QuoteTrade" where
  "trade_of e =
     \<lparr>qt_Event = te_Event e, qt_Time = te_Time e, qt_Symbol = te_Symbol e, qt_TradeID = te_TradeID e,
      qt_Price = te_Price e, qt_Quantity = te_Quantity e, qt_BuyerOrderID = te_BuyerOrderID e,
      qt_SellerOrderID = te_SellerOrderID e, qt_TradeTime = te_TradeTime e,
      qt_IsBuyerMaker = te_IsBuyerMaker e, qt_Placeholder = te_Placeholder e\<rparr>"

definition inc_of :: "WsDepthEvent \<Rightarrow> QuoteOrbIncr" where
  "inc_of e =
     \<lparr>qi_Time = de_Time e, qi_TransactionTime = de_TransactionTime e, qi_Symbol = de_Symbol e,
      qi_FirstUpdateID = de_FirstUpdateID e, qi_LastUpdateID = de_LastUpdateID e,
      qi_PrevLastUpdateID = de_PrevLastUpdateID e, qi_Bids = map price_of (de_Bids e),
      qi_Asks = map price_of (de_Asks e)\<rparr>"

definition snapshot_of :: "string \<Rightarrow> DepthResponse \<Rightarrow> QuoteSnapShot" where
  "snapshot_of symbol r =
     \<lparr>qs_Symbol = symbol, qs_LastUpdateID = dr_LastUpdateID r, qs_Time = dr_Time r,
      qs_TradeTime = dr_TradeTime r, qs_Bids = map price_of (dr_Bids r), qs_Asks = map price_of (dr_Asks r)\<rparr>"

fun observe :: "aggr_globals \<Rightarrow> recv_event \<Rightarrow> controller \<Rightarrow> controller" where
  "observe g (EvTrade e) c = onQuoteTrade g (trade_of e) c"
| "observe g (EvOrbInc e) c = onQuoteOrderbookInc g (inc_of e) c"
| "observe g (EvSnapShot symbol (Some r)) c = onQuoteSnapShot g (snapshot_of symbol r) c"
| "observe g _ c = c"

fun arrivals :: "schedule list \<Rightarrow> recv_event list" where
  "arrivals [] = []"
| "arrivals (Arrive ev # es) = ev # arrivals es"
| "arrivals (Pump # es) = arrivals es"

section \<open>Lemmas\<close>

text \<open>The messages an event puts into an empty channel: one, or none for a snapshot that failed.\<close>

definition messages_of :: "recv_event \<Rightarrow> Message set" where
  "messages_of ev = (case recv_handle ev [] of None \<Rightarrow> {} | Some ch \<Rightarrow> set ch)"

definition gob_ok :: "Message set \<Rightarrow> (Message \<Rightarrow> bytes \<times> bool) \<Rightarrow> (bytes \<Rightarrow> Message option) \<Rightarrow> bool" where
  "gob_ok M gob_encode gob_decode \<longleftrightarrow>
     (\<forall>m\<in>M. snd (gob_encode m) \<and> fst (gob_encode m) \<noteq> [] \<and>
        gob_decode (fst (gob_encode m)) = (if registered m then Some m else None))"

lemma gob_okD: "gob_ok M gob_encode gob_decode \<Longrightarrow> m \<in> M \<Longrightarrow>
   \<exists>bs. gob_encode m = (bs, True) \<and> bs \<noteq> [] \<and> gob_decode bs = (if registered m then Some m else None)"
  by (cases "gob_encode m") (auto simp: gob_ok_def)

text \<open>The quotes whose types are unknown to the aggregator are those it would not act on.\<close>

lemma unregistered_ignored: "\<not> registered m \<Longrightarrow> onQuoteDataRecv Some g m c = c"
  by (auto simp: registered_def onQuoteDataRecv_def split: Payload.splits QuoteData.splits)

text \<open>A message of the channel as the aggregator takes it.\<close>

abbreviation deliver :: "aggr_globals \<Rightarrow> Message \<Rightarrow> controller \<Rightarrow> controller" where
  "deliver g m c \<equiv> onQuoteDataRecv Some g m c"

lemma recv_handle_applies:
  "recv_handle ev ch = Some ch' \<Longrightarrow> fold (deliver g) ch' c = observe g ev (fold (deliver g) ch c)"
  by (cases ev; cases "case ev of EvSnapShot _ r \<Rightarrow> r | _ \<Rightarrow> None")
    (auto simp: handler_defs snapshot_def Let_def chan_send_Some onQuoteDataRecv_def quote_message_of_def
      trade_of_def inc_of_def snapshot_of_def onQuoteDepth_def)

lemma chan_send_empty: "chan_send msgCh_cap x [] = Some [x]"
  by (simp add: chan_send_def msgCh_cap_def)

lemma recv_handle_messages: "recv_handle ev ch = Some ch' \<Longrightarrow> set ch' \<subseteq> set ch \<union> messages_of ev"
  by (cases ev; cases "case ev of EvSnapShot _ r \<Rightarrow> r | _ \<Rightarrow> None")
    (auto simp: handler_defs snapshot_def Let_def chan_send_Some messages_of_def chan_send_empty)

lemma take_frames_one:
  assumes "addr \<in> set producers" and "distinct producers"
  shows "take_frames gob_decode g addr (map (\<lambda>dest. (dest, data # rest)) producers) c =
    Inr (onQuoteDataRecv gob_decode g data c)"
proof -
  have none: "addr \<notin> set ps \<Longrightarrow> take_frames gob_decode g addr (map (\<lambda>dest. (dest, data # rest)) ps) c = Inr c"
    for ps c by (induction ps) auto
  from assms show ?thesis by (induction producers) (auto simp: none QuoteReceiver_turn_def)
qed

lemma pump_gob:
  assumes "ToUpper (en_type en) = ''GOB''" and "\<not> en_compressed en"
    and "addr \<in> set producers" and "distinct producers"
    and "gob_ok M (en_gob en) gob_decode" and "m \<in> M"
  shows "pump en gob_decode g producers addr (m # ch, c) = Some (ch, deliver g m c)"
proof -
  from gob_okD [OF assms(5,6)] obtain bs where
    bs: "en_gob en m = (bs, True)" "bs \<noteq> []" "gob_decode bs = (if registered m then Some m else None)" by blast
  then have "fanout_step (en_float en) (en_marshal en) (en_gob en) (en_flate en) (en_compressed en)
      (en_type en) producers (m # ch) = Some (ch, map (\<lambda>dest. (dest, [bs])) producers)"
    using assms(1,2) by (simp add: fanout_step_def fanout_def encodeGob_def frames_of_def)
  moreover have "onQuoteDataRecv gob_decode g bs c = deliver g m c"
    using bs(3) unregistered_ignored [of m g c] by (cases "registered m") (simp_all add: onQuoteDataRecv_def)
  ultimately show ?thesis by (simp add: pump_def take_frames_one [OF assms(3,4)])
qed

text \<open>The invariant of a run: what is in flight, applied to the aggregator, gives the events that arrived.\<close>

lemma pipe_run_conserves:
  assumes "ToUpper (en_type en) = ''GOB''" and "\<not> en_compressed en"
    and "addr \<in> set producers" and "distinct producers" and "gob_ok M (en_gob en) gob_decode"
    and "pipe_run en gob_decode g producers addr es (ch, c) = Some (ch', c')"
    and "set ch \<subseteq> M" and "\<Union> (set (map messages_of (arrivals es))) \<subseteq> M"
  shows "fold (deliver g) ch' c' = fold (observe g) (arrivals es) (fold (deliver g) ch c) \<and> set ch' \<subseteq> M"
  using assms(6-8)
proof (induction es arbitrary: ch c)
  case (Cons e es)
  show ?case
  proof (cases e)
    case (Arrive ev)
    with Cons.prems obtain ch1 where ch1: "recv_handle ev ch = Some ch1"
      "pipe_run en gob_decode g producers addr es (ch1, c) = Some (ch', c')" by (auto split: option.splits)
    moreover have "set ch1 \<subseteq> M" using recv_handle_messages [OF ch1(1)] Cons.prems(2,3) Arrive by auto
    ultimately show ?thesis using Cons.IH [of ch1 c] recv_handle_applies [OF ch1(1)] Cons.prems(3) Arrive by simp
  next
    case Pump
    with Cons.prems obtain m ch1 where ch: "ch = m # ch1"
      by (cases ch) (auto simp: pump_def fanout_step_def split: option.splits)
    then have "pipe_run en gob_decode g producers addr es (ch1, deliver g m c) = Some (ch', c')"
      using Cons.prems Pump by (simp add: pump_gob [OF assms(1-5)])
    from Cons.IH [OF this] show ?thesis using Cons.prems Pump ch by simp
  qed
qed simp

section \<open>Properties\<close>


definition demo_trade_event :: WsTradeEvent where
  "demo_trade_event =
     \<lparr>te_Event = ''trade'', te_Time = 1704067200100, te_Symbol = ''BTCUSDT'', te_TradeID = 7,
      te_Price = ''1.5'', te_Quantity = ''2'', te_BuyerOrderID = 0, te_SellerOrderID = 0,
      te_TradeTime = 1704067200100, te_IsBuyerMaker = False, te_Placeholder = False\<rparr>"

definition demo_message :: Message where
  "demo_message = quote_message_of QuoteDataType_Trade (Data_Trade (trade_of demo_trade_event))"

definition demo_en :: "string \<Rightarrow> int encoders" where
  "demo_en ty =
     \<lparr>en_float = (\<lambda>s. if s = [] then None else Some 1), en_marshal = (\<lambda>_. Some [7]),
      en_gob = (\<lambda>m. ([1], m = demo_message)), en_flate = (\<lambda>_. None), en_compressed = False, en_type = ty\<rparr>"

definition demo_gob_decode :: "bytes \<Rightarrow> Message option" where
  "demo_gob_decode bs = (if bs = [1] then Some demo_message else None)"

lemma demo_messages: "messages_of (EvTrade demo_trade_event) = {demo_message}"
  by (simp add: messages_of_def OnWsTradeEvent_def chan_send_empty demo_message_def trade_of_def)

lemma demo_gob: "gob_ok {demo_message} (en_gob (demo_en ty)) demo_gob_decode"
  by (simp add: gob_ok_def demo_en_def demo_gob_decode_def registered_def demo_message_def quote_message_of_def)

lemma demo_type: "ToUpper (en_type (demo_en ''gob'')) = ''GOB''" "\<not> en_compressed (demo_en ''gob'')"
  by (simp_all add: demo_en_def) code_simp




text \<open>A collected period reaches every destination: where each enabled destination is a \<open>kafka\<close> one,
  or a \<open>zmq\<close> one whose socket connects, \<open>init\<close> and \<open>open\<close> return, and every round that
  publishes a message hands its encoding once to each enabled destination, in the order of the
  configuration, with the destination's topic; the send never panics.\<close>

theorem period_reaches_destinations:
  assumes "\<forall>fs\<in>set (enabled servers). usable new_sock connect fs"
    and "collect_round pf cfg g ck friends names c = Inr (c', Publish pm)" and "marshal pm = Some bs"
  shows "\<exists>ps0 ps. FanOutManager_init new_sock connect servers [] = Inr ps0 \<and> FanOutManager_open ps0 = Inr ps \<and>
    collect_turn pf marshal zlib cfg g ck friends names receivers ps c None =
      Some (Inr (c', map (post_of bs) (enabled servers), None))"
proof -
  obtain ps0 where ps0: "FanOutManager_init new_sock connect servers [] = Inr ps0"
    "FanOutManager_open ps0 = Inr (map producer_of (enabled servers))" using init_open_usable [OF assms(1)] by auto
  moreover have "FanOutManager_send marshal (map producer_of (enabled servers)) pm =
      Inr (map (post_of bs) (enabled servers))"
    using send_all_usable [OF assms(1)] collect_round_publishes_some [OF assms(2)] assms(3)
    by (simp add: FanOutManager_send_def)
  ultimately show ?thesis using assms(2) by (auto simp: collect_turn_def)
qed

definition demo_servers :: "FanOutDestination list" where
  "demo_servers =
     [\<lparr>fd_Name = ''zmq'', fd_Enable = True, fd_Server = ''tcp'', fd_Topic = ''p''\<rparr>,
      \<lparr>fd_Name = ''other'', fd_Enable = False, fd_Server = [], fd_Topic = []\<rparr>,
      \<lparr>fd_Name = ''kafka'', fd_Enable = True, fd_Server = ''k'', fd_Topic = ''q''\<rparr>]"

theorem period_reaches_destinations_witness:
  "\<exists>w c c1 p ps. demo_state w c \<and> demo_round 4801 demo_names demo_names c = Inr (c1, Publish p) \<and>
     collect_turn (\<lambda>s. if s = [] then None else Some 1) (\<lambda>_. Some [7]) Some (demo_cfg True) demo_g
       (demo_clocks 4801) demo_names demo_names [] ps c None =
       Some (Inr (c1, [ZmqFrames ''tcp'' [bytes_of ''p'', [7]], KafkaMessage ''k'' ''q'' [7]], None))"
proof -
  from demo_state_ex obtain w c c1 p where
    r: "demo_state w c" "demo_round 4801 demo_names demo_names c = Inr (c1, Publish p)" by blast
  have "\<forall>fs\<in>set (enabled demo_servers). usable True (\<lambda>_. True) fs" by (simp add: demo_servers_def usable_def)
  from period_reaches_destinations [OF this r(2), of "\<lambda>_. Some [7]" "[7]" Some "[]"] r show ?thesis
    by (fastforce simp: demo_servers_def post_of_def)
qed

end
