(* ===== verification/Aggr_Start.thy ===== *)
theory Aggr_Start
  imports Aggr_Collect_Props Aggr_Fanout Trading_Symbols Service_Monitor
begin

text \<open>
  The start of the aggregating service (\<open>init\<close>, \<open>initBinance\<close> and \<open>run\<close> in
  \<open>cmd/QuoteAggrService/controller.go\<close>, with \<open>QuoteReceiver.Open\<close> of \<open>market_drain.go\<close>): the symbols are
  loaded, the destinations, the client of the request API, the WebSocket server and the monitor are made, and the
  receiver of quotes is attached before the collecting loop begins. The sockets, the user file, the clock and
  the process number are the fields of \<open>aggr_world\<close>.
\<close>

section \<open>State\<close>

record aggr_setup =
  ag_account :: string
  ag_accounts :: "AccountConfig list"
  ag_configured :: "string list"
  ag_servers :: "FanOutDestination list"
  ag_ws :: WsServerConfigVars
  ag_mon :: ServiceMonConfigVars
  ag_serviceType :: string
  ag_thunderId :: string
  ag_ip :: string
  ag_serve_addr :: string
  ag_serve_mode :: string

text \<open>\<open>aw_attach\<close> is the attempt to bind (\<open>True\<close>) or connect the socket of the quotes, \<open>aw_sec\<close>
  is the reading of the clock in seconds when the collecting loop begins. A call that fails has the text of its
  error.\<close>

record aggr_world =
  aw_new_sock :: bool
  aw_connect :: "string \<Rightarrow> bool"
  aw_dial :: api_dial
  aw_sub_sock :: "string option"
  aw_subscribe :: "string option"
  aw_attach :: "bool \<Rightarrow> string \<Rightarrow> string option"
  aw_users :: "WsUserAccount list option"
  aw_now :: int
  aw_pid :: int
  aw_sec :: int

record ('d, 'f) aggr_service =
  sv_trading :: "string \<rightharpoonup> ('d, 'f) TradingSymbol"
  sv_account :: "AccountConfig option"
  sv_ctl :: controller
  sv_producers :: "Producer list"
  sv_wsapi :: "api_client option"
  sv_wsserver :: "WsServer option"
  sv_qmon :: "ServiceMonManager option"
  sv_attached :: "(bool \<times> string) option"

definition aggr_VERSION :: string where
  "aggr_VERSION = ''0.3.6 - $Revision: 3419 $ ''"

definition aggr_init_state :: "('d, 'f) aggr_service" where
  "aggr_init_state =
     \<lparr>sv_trading = Map.empty, sv_account = None,
      sv_ctl = \<lparr>periodSymbols = Map.empty, last_period_ts = 0\<rparr>, sv_producers = [], sv_wsapi = None,
      sv_wsserver = None, sv_qmon = None, sv_attached = None\<rparr>"

section \<open>Start\<close>

definition initBinance ::
  "(string \<Rightarrow> 'd option) \<Rightarrow> (int \<Rightarrow> 'd::zero) \<Rightarrow> aggr_setup \<Rightarrow> aggr_world \<Rightarrow>
     (nat \<Rightarrow> 'f ExchangeSymbol list option) \<Rightarrow> ('f exchange \<Rightarrow> string list) \<Rightarrow>
     ('d, 'f) aggr_service \<Rightarrow> ('d, 'f) aggr_service go option" where
  "initBinance dec newint su w fetch order c =
     (case initBinance_symbols dec newint (ag_account su) (ag_accounts su) (ag_configured su) fetch order (sv_ctl c) of
        None \<Rightarrow> None
      | Some (Inl p) \<Rightarrow> Some (Inl p)
      | Some (Inr (acc, m, ctl)) \<Rightarrow>
          (case FanOutManager_init (aw_new_sock w) (aw_connect w) (ag_servers su) (sv_producers c) of
             Inl p \<Rightarrow> Some (Inl p)
           | Inr ps \<Rightarrow>
               map_option
                 (\<lambda>client. Inr (c\<lparr>sv_account := Some acc, sv_trading := m, sv_ctl := ctl, sv_producers := ps,
                                  sv_wsapi := Some client\<rparr>))
                 (GetOrNewWsClient (aw_dial w) acc (sv_wsapi c))))"

definition aggr_init ::
  "(string \<Rightarrow> 'd option) \<Rightarrow> (int \<Rightarrow> 'd::zero) \<Rightarrow> aggr_setup \<Rightarrow> aggr_world \<Rightarrow>
     (nat \<Rightarrow> 'f ExchangeSymbol list option) \<Rightarrow> ('f exchange \<Rightarrow> string list) \<Rightarrow> ('d, 'f) aggr_service go option" where
  "aggr_init dec newint su w fetch order =
     map_option
       (\<lambda>r. go_bind r (\<lambda>c.
          Inr (c\<lparr>sv_wsserver := (if ws_Enable (ag_ws su) then Some (NewWsServer (ag_ws su)) else None),
                 sv_qmon := init_monitor (ag_mon su) (ag_serviceType su) (ag_thunderId su) aggr_VERSION
                              (ag_ip su) (aw_now w) (aw_pid w)\<rparr>)))
       (initBinance dec newint su w fetch order aggr_init_state)"

text \<open>The socket of the quotes. The failure to bind or to connect is a panic of the goroutine that \<open>Open\<close>
  starts, which ends the process as well.\<close>

definition QuoteReceiver_Open :: "aggr_setup \<Rightarrow> aggr_world \<Rightarrow> (bool \<times> string) go" where
  "QuoteReceiver_Open su w =
     (case aw_sub_sock w of
        Some err \<Rightarrow> Inl (Panicked (''QuoteReceiver.Open %s '' @ err @ [CHR 0x0A]))
      | None \<Rightarrow>
          (case aw_subscribe w of
             Some err \<Rightarrow> Inl (Panicked (''QuoteReceiver.Open %s '' @ err @ [CHR 0x0A]))
           | None \<Rightarrow>
               let bind = (ag_serve_mode su = ''bind'')
               in (case aw_attach w bind (ag_serve_addr su) of
                     Some err \<Rightarrow> Inl (Panicked err)
                   | None \<Rightarrow> Inr (bind, ag_serve_addr su))))"

definition aggr_run :: "aggr_setup \<Rightarrow> aggr_world \<Rightarrow> ('d, 'f) aggr_service \<Rightarrow> ('d, 'f) aggr_service go" where
  "aggr_run su w c =
     go_bind (FanOutManager_open (sv_producers c)) (\<lambda>ps.
     go_bind (QuoteReceiver_Open su w) (\<lambda>att.
       Inr (c\<lparr>sv_producers := ps, sv_attached := Some att,
              sv_wsserver := map_option (reloadUsers (aw_users w)) (sv_wsserver c),
              sv_ctl := collect_start (aw_sec w) (sv_ctl c)\<rparr>)))"

definition aggr_start ::
  "(string \<Rightarrow> 'd option) \<Rightarrow> (int \<Rightarrow> 'd::zero) \<Rightarrow> aggr_setup \<Rightarrow> aggr_world \<Rightarrow>
     (nat \<Rightarrow> 'f ExchangeSymbol list option) \<Rightarrow> ('f exchange \<Rightarrow> string list) \<Rightarrow> ('d, 'f) aggr_service go option" where
  "aggr_start dec newint su w fetch order =
     map_option (\<lambda>r. go_bind r (aggr_run su w)) (aggr_init dec newint su w fetch order)"

section \<open>Lemmas\<close>

definition receiver_ok :: "aggr_setup \<Rightarrow> aggr_world \<Rightarrow> bool" where
  "receiver_ok su w \<longleftrightarrow>
     aw_sub_sock w = None \<and> aw_subscribe w = None \<and> aw_attach w (ag_serve_mode su = ''bind'') (ag_serve_addr su) = None"

lemma QuoteReceiver_Open_ok:
  "receiver_ok su w \<Longrightarrow> QuoteReceiver_Open su w = Inr (ag_serve_mode su = ''bind'', ag_serve_addr su)"
  by (simp add: receiver_ok_def QuoteReceiver_Open_def Let_def)

lemma QuoteReceiver_Open_returns: "(\<exists>a. QuoteReceiver_Open su w = Inr a) \<longleftrightarrow> receiver_ok su w"
  by (auto simp: receiver_ok_def QuoteReceiver_Open_def Let_def split: option.splits)

text \<open>The symbols of a service that has started: one empty symbol per trading symbol.\<close>

lemma started_symbols: "collect_start sec (updateAggrSymbols S c) = updateAggrSymbols S (collect_start sec c)"
  by (simp add: collect_start_def updateAggrSymbols_def)

lemma initBinance_ok:
  assumes "fetch k = Some syms" and "\<forall>i<k. fetch i = None"
    and "select_account (ag_account su) (ag_accounts su) = Some acc"
    and "exch = exchange_map syms Map.empty" and "range_order (order exch) exch"
    and "S = wanted_names (ag_configured su) exch" and "\<forall>n\<in>S. readable dec newint exch n"
    and "FanOutManager_init (aw_new_sock w) (aw_connect w) (ag_servers su) [] = Inr ps"
    and "GetOrNewWsClient (aw_dial w) acc None = Some client"
  shows "initBinance dec newint su w fetch order aggr_init_state =
    Some (Inr (aggr_init_state\<lparr>sv_account := Some acc, sv_trading := loaded dec newint exch S Map.empty,
      sv_ctl := updateAggrSymbols S \<lparr>periodSymbols = Map.empty, last_period_ts = 0\<rparr>, sv_producers := ps,
      sv_wsapi := Some client\<rparr>))"
  using assms(7-9)
  unfolding initBinance_def initBinance_symbols_result [where order = order and fetch = fetch, OF assms(1-5)]
    assms(6) [symmetric]
  by (simp add: aggr_init_state_def)

section \<open>Properties\<close>



definition demo_aggr :: aggr_setup where
  "demo_aggr =
     \<lparr>ag_account = ''a'', ag_accounts = [demo_account], ag_configured = [],
      ag_servers = [\<lparr>fd_Name = ''kafka'', fd_Enable = True, fd_Server = ''h'', fd_Topic = ''t''\<rparr>,
                    \<lparr>fd_Name = ''redis'', fd_Enable = False, fd_Server = ''h'', fd_Topic = ''t''\<rparr>],
      ag_ws = \<lparr>ws_Enable = True, PassUsers = [], UpdateUserTime = 60, ListenAddr = [], MaxConns = 0, IpLimited = False,
               AuthTimeWait = 0, DataCacheTime = 60, CompressData = False, SendMsgHdr = False, Users = []\<rparr>,
      ag_mon = \<lparr>mc_Enable = False, mc_ReportDest = [], mc_ReportInterval = 5, mc_AuthKey = []\<rparr>,
      ag_serviceType = ''qas'', ag_thunderId = ''t1'', ag_ip = [], ag_serve_addr = ''tcp://*:1'', ag_serve_mode = ''bind''\<rparr>"

definition demo_aggr_world :: aggr_world where
  "demo_aggr_world =
     \<lparr>aw_new_sock = False, aw_connect = (\<lambda>_. False), aw_dial = (\<lambda>_ _ _ k. if 3 \<le> k then Some k else None),
      aw_sub_sock = None, aw_subscribe = None, aw_attach = (\<lambda>b _. if b then None else Some ''refused''),
      aw_users = None, aw_now = 0, aw_pid = 1, aw_sec = 0\<rparr>"


end
