(* ===== verification/Positions.thy ===== *)
theory Positions
  imports Trading_Symbols
begin

text \<open>
  What the two controllers hold of the trading program they come from: the symbols of the configuration with their
  prices, targets and leverage (\<open>config.go\<close>, \<open>controller.go\<close>, \<open>leverage.go\<close>), the messages for other
  services, the timer, and the stream of user data. None of it lies on the way of a quote. The exchange, Redis
  and the decimal library are arguments.
\<close>

section \<open>Symbols of the configuration\<close>

text \<open>The fields of \<open>Symbol\<close> that the code reads or writes; \<open>sc_aggTrade\<close> is the price of the last aggregate
  trade.\<close>

record 'd SymbolCfg =
  sc_Name :: string
  sc_Leverage :: int
  sc_target :: "'d option"
  sc_aggTrade :: "string option"

type_synonym 'd symbols = "string \<rightharpoonup> 'd SymbolCfg"

definition onAggTradeEvent :: "string \<Rightarrow> string \<Rightarrow> 'd symbols \<Rightarrow> 'd symbols" where
  "onAggTradeEvent symbol price m =
     (case m symbol of Some s \<Rightarrow> m(symbol \<mapsto> s\<lparr>sc_aggTrade := Some price\<rparr>) | None \<Rightarrow> m)"

definition LastPrice :: "(string \<Rightarrow> 'd option) \<Rightarrow> 'd SymbolCfg \<Rightarrow> 'd option" where
  "LastPrice dec s = (case sc_aggTrade s of None \<Rightarrow> None | Some price \<Rightarrow> dec price)"

text \<open>\<open>hget name\<close> is what Redis answers for a symbol, \<open>None\<close> where it has nothing; \<open>names\<close> is the order of the
  visit.\<close>

fun updatePositionFromRedis :: "(string \<Rightarrow> string option) \<Rightarrow> (string \<Rightarrow> 'd option) \<Rightarrow> string list \<Rightarrow> 'd symbols \<Rightarrow> 'd symbols" where
  "updatePositionFromRedis hget dec [] m = m"
| "updatePositionFromRedis hget dec (name # names) m =
     (case hget name of
        None \<Rightarrow> updatePositionFromRedis hget dec names m
      | Some val \<Rightarrow>
          (case dec val of
             None \<Rightarrow> updatePositionFromRedis hget dec names m
           | Some pos \<Rightarrow>
               updatePositionFromRedis hget dec names
                 (case m name of Some s \<Rightarrow> m(name \<mapsto> s\<lparr>sc_target := Some pos\<rparr>) | None \<Rightarrow> m)))"

definition stored_position :: "(string \<Rightarrow> string option) \<Rightarrow> (string \<Rightarrow> 'd option) \<Rightarrow> string \<Rightarrow> 'd option" where
  "stored_position hget dec name = Option.bind (hget name) dec"

text \<open>Each symbol gets the position that is stored for it and keeps its target where none is stored, whatever the
  order of the visit.\<close>

lemma updatePositionFromRedis_result:
  "updatePositionFromRedis hget dec names m n =
     (case m n of
        None \<Rightarrow> None
      | Some s \<Rightarrow>
          Some (if n \<in> set names \<and> stored_position hget dec n \<noteq> None
                then s\<lparr>sc_target := stored_position hget dec n\<rparr> else s))"
proof (induction names arbitrary: m)
  case Nil
  show ?case by (simp split: option.split)
next
  case (Cons name names)
  show ?case
    by (auto simp: Cons.IH stored_position_def split: option.splits)
qed

section \<open>Leverage\<close>

text \<open>\<open>change symbol leverage\<close> is the text of the error of the exchange, \<open>None\<close> where the call succeeds. The result
  lists the calls that were made, the failed one included, and the panic that ended them.\<close>

fun change_all :: "(string \<Rightarrow> int \<Rightarrow> string option) \<Rightarrow> (string \<Rightarrow> string) \<Rightarrow> (string \<times> int) list \<Rightarrow> (string \<times> int) list \<times> go_panic option" where
  "change_all change panic_text [] = ([], None)"
| "change_all change panic_text ((symbol, leverage) # rest) =
     (case change symbol leverage of
        Some err \<Rightarrow> ([(symbol, leverage)], Some (Panicked (panic_text err)))
      | None \<Rightarrow> (case change_all change panic_text rest of (calls, p) \<Rightarrow> ((symbol, leverage) # calls, p)))"

definition initLeverage :: "(string \<Rightarrow> int \<Rightarrow> string option) \<Rightarrow> string list \<Rightarrow> 'd symbols \<Rightarrow> (string \<times> int) list \<times> go_panic option" where
  "initLeverage change names m =
     change_all change (\<lambda>_. ''setLeverage failed!'')
       (map (\<lambda>name. (name, case m name of Some s \<Rightarrow> sc_Leverage s | None \<Rightarrow> 0)) names)"

text \<open>\<open>fetch\<close> is the answer of the exchange: an error, or its symbols; \<open>order\<close> is the order in which Go visits the
  map of symbols.\<close>

definition set_leverage ::
  "(string \<Rightarrow> int \<Rightarrow> string option) \<Rightarrow> string + 'f ExchangeSymbol list \<Rightarrow> ('f exchange \<Rightarrow> string list) \<Rightarrow> string \<Rightarrow>
     AccountConfig list \<Rightarrow> string \<Rightarrow> int \<Rightarrow> (string \<times> int) list \<times> go_panic option" where
  "set_leverage change fetch order account accounts symbols leverage =
     (case select_account account accounts of
        None \<Rightarrow> ([], Some NilDereference)
      | Some ac \<Rightarrow>
          (case fetch of
             Inl err \<Rightarrow> ([], Some (Panicked err))
           | Inr syms \<Rightarrow>
               let exch = exchange_map syms Map.empty;
                   given = (if symbols \<noteq> [] then split_on (CHR '','') (ToUpper symbols) else []);
                   names = (if given = []
                            then filter (\<lambda>n. case exch n of Some s \<Rightarrow> xs_Status s = ''TRADING'' | None \<Rightarrow> False) (order exch)
                            else given)
               in change_all change id (map (\<lambda>n. (n, leverage)) names)))"

lemma change_all_ok: "\<forall>(s, l)\<in>set calls. change s l = None \<Longrightarrow> change_all change pt calls = (calls, None)"
  by (induction calls) auto

text \<open>The first call that fails is the last one.\<close>

lemma change_all_stops:
  "\<forall>(s, l)\<in>set pre. change s l = None \<Longrightarrow> change s0 l0 = Some err \<Longrightarrow>
   change_all change pt (pre @ (s0, l0) # rest) = (pre @ [(s0, l0)], Some (Panicked (pt err)))"
  by (induction pre) auto

text \<open>Without a list of symbols, and where no call fails, every tradable symbol of the exchange gets the leverage
  once and no other symbol is touched.\<close>

lemma set_leverage_all:
  assumes "select_account account accounts = Some acc" and "exch = exchange_map syms Map.empty"
    and "range_order (order exch) exch" and "\<And>n. tradable exch n \<Longrightarrow> change n leverage = None"
  shows "\<exists>names. set_leverage change (Inr syms) order account accounts [] leverage = (map (\<lambda>n. (n, leverage)) names, None) \<and>
    distinct names \<and> set names = {n. tradable exch n}"
proof -
  let ?names = "filter (tradable exch) (order exch)"
  have t: "tradable exch = (\<lambda>n. case exch n of Some s \<Rightarrow> xs_Status s = ''TRADING'' | None \<Rightarrow> False)"
    by (auto simp: fun_eq_iff tradable_def split: option.split)
  have "change_all change id (map (\<lambda>n. (n, leverage)) ?names) = (map (\<lambda>n. (n, leverage)) ?names, None)"
    by (rule change_all_ok) (use assms(4) in auto)
  then have "set_leverage change (Inr syms) order account accounts [] leverage = (map (\<lambda>n. (n, leverage)) ?names, None)"
    using assms(1) by (simp add: set_leverage_def Let_def assms(2) [symmetric] t)
  moreover have "set ?names = {n. tradable exch n}"
    using assms(3) by (auto simp: range_order_def tradable_def dom_def split: option.splits)
  ultimately show ?thesis using assms(3) by (auto simp: range_order_def)
qed

section \<open>Orders and positions\<close>

text \<open>\<open>orders\<close> is what the exchange lists, with the number and the symbol of each order; \<open>None\<close> where the request
  fails, which the code does not look at. The result is the list of the symbols whose orders are cancelled.\<close>

definition discardPendingOrders :: "bool \<Rightarrow> (int \<times> string) list option \<Rightarrow> string list" where
  "discardPendingOrders cancelOnStart orders =
     (if \<not> cancelOnStart then []
      else let symbols = map snd (case orders of Some os \<Rightarrow> os | None \<Rightarrow> [])
           in if symbols \<noteq> [] then symbols else [])"

text \<open>The open orders that are left, where \<open>cancelled s\<close> says whether the exchange accepts the request for a
  symbol.\<close>

definition orders_left :: "(string \<Rightarrow> bool) \<Rightarrow> string list \<Rightarrow> (int \<times> string) list \<Rightarrow> (int \<times> string) list" where
  "orders_left cancelled requests orders = filter (\<lambda>(_, s). \<not> (s \<in> set requests \<and> cancelled s)) orders"

lemma discardPendingOrders_clears:
  assumes "\<forall>ord\<in>set os. cancelled (snd ord)"
  shows "orders_left cancelled (discardPendingOrders True (Some os)) os = []"
proof -
  have "discardPendingOrders True (Some os) = map snd os" by (simp add: discardPendingOrders_def Let_def)
  with assms show ?thesis by (force simp: orders_left_def filter_empty_conv)
qed

text \<open>A position of the strategy goes to an unbuffered channel that the loop of the receiver never reads. \<open>None\<close>
  where the sender blocks.\<close>

definition onRecvPosition :: "bool \<Rightarrow> 'p \<Rightarrow> 'p list \<Rightarrow> 'p list option" where
  "onRecvPosition forward event chanPos = (if \<not> forward then Some chanPos else chan_send 0 event chanPos)"

lemma onRecvPosition_blocks: "onRecvPosition True event chanPos = None"
  by (simp add: onRecvPosition_def chan_send_def)

section \<open>Messages for other services\<close>

text \<open>A value of the content is left abstract.\<close>

record ServiceSource =
  ss_Type :: string
  ss_Id :: string
  ss_Ip :: string
  ss_Datetime :: string
  ss_Timestamp :: int

record ServiceDelta =
  dl_DB :: string
  dl_Table :: string
  dl_UpdateKeys :: "string list"

record 'v ServiceMessage =
  sg_Type :: string
  sg_Source :: ServiceSource
  sg_Content :: "string \<rightharpoonup> 'v"
  sg_Delta :: ServiceDelta

text \<open>\<open>ip\<close>, \<open>datetime\<close> and \<open>now\<close> are what \<open>InternalIP\<close> and the clock return.\<close>

definition newServiceMessage :: "string \<Rightarrow> string \<Rightarrow> string \<Rightarrow> string \<Rightarrow> int \<Rightarrow> string \<Rightarrow> 'v ServiceMessage" where
  "newServiceMessage serviceType thunderId ip datetime now tp =
     \<lparr>sg_Type = tp,
      sg_Source = \<lparr>ss_Type = serviceType, ss_Id = thunderId, ss_Ip = ip, ss_Datetime = datetime, ss_Timestamp = now\<rparr>,
      sg_Content = Map.empty, sg_Delta = \<lparr>dl_DB = [], dl_Table = [], dl_UpdateKeys = []\<rparr>\<rparr>"

definition msg_SetValue :: "string \<Rightarrow> 'v \<Rightarrow> 'v ServiceMessage \<Rightarrow> 'v ServiceMessage" where
  "msg_SetValue key v m = m\<lparr>sg_Content := (sg_Content m)(key \<mapsto> v)\<rparr>"

definition msg_Database :: "string \<Rightarrow> 'v ServiceMessage \<Rightarrow> 'v ServiceMessage" where
  "msg_Database dbname m = m\<lparr>sg_Delta := (sg_Delta m)\<lparr>dl_DB := dbname\<rparr>\<rparr>"

definition msg_Table :: "string \<Rightarrow> 'v ServiceMessage \<Rightarrow> 'v ServiceMessage" where
  "msg_Table name m = m\<lparr>sg_Delta := (sg_Delta m)\<lparr>dl_Table := name\<rparr>\<rparr>"

definition msg_UpdateKeys :: "string list \<Rightarrow> 'v ServiceMessage \<Rightarrow> 'v ServiceMessage" where
  "msg_UpdateKeys keys m = m\<lparr>sg_Delta := (sg_Delta m)\<lparr>dl_UpdateKeys := keys\<rparr>\<rparr>"

text \<open>\<open>sendMessage\<close> publishes what JSON makes of the message, if it can.\<close>

definition sendMessage :: "('v ServiceMessage \<Rightarrow> bytes option) \<Rightarrow> string \<Rightarrow> 'v ServiceMessage \<Rightarrow> (string \<times> bytes) list" where
  "sendMessage json pubChan m = (case json m of Some detail \<Rightarrow> [(pubChan, detail)] | None \<Rightarrow> [])"

section \<open>The timer\<close>

record Timer =
  tm_lastTs :: int
  tm_period :: int

definition NewTimer :: "int \<Rightarrow> int \<Rightarrow> Timer" where
  "NewTimer now period = \<lparr>tm_lastTs = now, tm_period = period\<rparr>"

text \<open>The clock is read twice; the flag says whether \<open>onTimer\<close> is called.\<close>

definition tick :: "int \<times> int \<Rightarrow> Timer \<Rightarrow> Timer \<times> bool" where
  "tick now t =
     (if i64 (tm_lastTs t + tm_period t) < fst now then (t\<lparr>tm_lastTs := snd now\<rparr>, True) else (t, False))"

text \<open>The readings at which the timer fires in a run of ticks.\<close>

fun tick_run :: "(int \<times> int) list \<Rightarrow> Timer \<Rightarrow> (int \<times> int) list" where
  "tick_run [] t = []"
| "tick_run (now # nows) t =
     (case tick now t of (t', fired) \<Rightarrow> if fired then now # tick_run nows t' else tick_run nows t')"

definition in_i63 :: "int \<Rightarrow> bool" where
  "in_i63 x \<longleftrightarrow> 0 \<le> x \<and> x < 2 ^ 62"

lemma tick_run_after:
  assumes "in_i63 (tm_period t)" and "in_i63 (tm_lastTs t)" and "tick_run nows t \<noteq> []"
  shows "tm_lastTs t + tm_period t < fst (hd (tick_run nows t))"
  using assms
proof (induction nows)
  case (Cons now nows)
  have "i64 (tm_lastTs t + tm_period t) = tm_lastTs t + tm_period t"
    using Cons.prems by (intro i64_id) (simp add: in_i63_def in_i64_def)
  with Cons show ?case by (auto simp: tick_def)
qed simp

text \<open>Two calls of \<open>onTimer\<close> are more than the period apart, from the end of one to the start of the next.\<close>

lemma timer_spacing:
  assumes "in_i63 (tm_period t)" and "in_i63 (tm_lastTs t)" and "\<forall>n\<in>set nows. in_i63 (snd n)"
    and "Suc i < length (tick_run nows t)"
  shows "snd (tick_run nows t ! i) + tm_period t < fst (tick_run nows t ! Suc i)"
  using assms
proof (induction nows arbitrary: t i)
  case (Cons now nows)
  show ?case
  proof (cases "snd (tick now t)")
    case False
    then have "tick now t = (t, False)" by (auto simp: tick_def)
    with Cons.IH [of t i] Cons.prems show ?thesis by simp
  next
    case True
    then have tk: "tick now t = (t\<lparr>tm_lastTs := snd now\<rparr>, True)" by (auto simp: tick_def split: if_splits)
    let ?t = "t\<lparr>tm_lastTs := snd now\<rparr>"
    have run: "tick_run (now # nows) t = now # tick_run nows ?t" by (simp add: tk)
    have ok: "in_i63 (tm_period ?t)" "in_i63 (tm_lastTs ?t)" "\<forall>n\<in>set nows. in_i63 (snd n)"
      using Cons.prems by simp_all
    show ?thesis
    proof (cases i)
      case 0
      have "tick_run nows ?t \<noteq> []" using Cons.prems(4) run 0 by auto
      with tick_run_after [OF ok(1,2) this] show ?thesis unfolding 0 run by (simp add: hd_conv_nth)
    next
      case (Suc k)
      with Cons.IH [OF ok, of k] Cons.prems(4) show ?thesis unfolding Suc run by simp
    qed
  qed
qed simp

section \<open>The stream of user data\<close>

text \<open>
  \<open>subUserStreamData\<close>. The inner loop leaves after its first call whether it failed or not, so a failed call goes on
  with two nil channels. A receive from a nil channel is never ready; a send to it blocks for ever.
\<close>

datatype user_stream =
    Starting
  | Serving "nat option"
  | Stopped nat
  | Stuck

datatype us_event = Served "nat option" | ConnectionLost | KeepAlive | ContextDone

fun us_step :: "user_stream \<Rightarrow> us_event \<Rightarrow> user_stream option" where
  "us_step Starting (Served r) = Some (Serving r)"
| "us_step (Serving (Some conn)) ConnectionLost = Some Starting"
| "us_step (Serving (Some conn)) ContextDone = Some (Stopped conn)"
| "us_step (Serving None) ContextDone = Some Stuck"
| "us_step (Serving r) KeepAlive = Some (Serving r)"
| "us_step _ _ = None"

fun us_run :: "user_stream \<Rightarrow> us_event list \<Rightarrow> user_stream option" where
  "us_run s [] = Some s"
| "us_run s (e # es) = Option.bind (us_step s e) (\<lambda>s'. us_run s' es)"

text \<open>After one call that failed the stream is never opened again, and the goroutine cannot end.\<close>

lemma failed_stream_stays_down:
  "us_run (Serving None) es = Some s \<Longrightarrow> s \<in> {Serving None, Stuck} \<and> (\<forall>r. Served r \<notin> set es)"
proof (induction es)
  case (Cons e es)
  have stuck: "us_run Stuck es = Some s \<Longrightarrow> es = [] \<and> s = Stuck" by (cases es) simp_all
  from Cons show ?case by (cases e) (use stuck in auto)
qed simp

text \<open>A connection that is lost is made anew, as often as it is lost.\<close>

lemma lost_stream_restarts:
  "us_run (Serving (Some conn)) [ConnectionLost, Served (Some conn')] = Some (Serving (Some conn'))"
  by simp

end
