(* ===== verification/Ws_Api_Client.thy ===== *)
theory Ws_Api_Client
  imports Go_Prelude "HOL-Library.List_Lexorder" "HOL-Library.Char_ord"
begin

text \<open>
  The client of the exchange's WebSocket API (\<open>core/wsclient.go\<close>): the table of pending requests, the
  delivery of a response to the request it answers, and the signature of a request. The connection, the
  JSON decoder and the keyed hash are arguments: \<open>dial\<close> says whether the connection is made,
  \<open>response_id\<close> is the \<open>id\<close> of a message that decodes, and \<open>hmac\<close> is \<open>hmacHashing\<close>.
\<close>

section \<open>Pending requests\<close>

text \<open>A channel is an address in \<open>wa_chans\<close>, which holds its capacity and its contents. The table is nil
  until \<open>Connect\<close> makes it.\<close>

record 'm WebsocketAPIClient =
  wa_APIKey :: string
  wa_APISecret :: string
  wa_Endpoint :: string
  wa_Conn :: bool
  wa_ReqResponseMap :: "(string \<rightharpoonup> nat) option"
  wa_chans :: "nat \<Rightarrow> nat \<times> 'm list"

definition NewWebsocketAPIClient :: "string \<Rightarrow> string \<Rightarrow> string list \<Rightarrow> (nat \<Rightarrow> nat \<times> 'm list) \<Rightarrow> 'm WebsocketAPIClient" where
  "NewWebsocketAPIClient apiKey apiSecret baseURL chans =
     \<lparr>wa_APIKey = apiKey, wa_APISecret = apiSecret,
      wa_Endpoint = (case baseURL of [] \<Rightarrow> ''wss://ws-api.binance.com:443/ws-api/v3'' | url # _ \<Rightarrow> url),
      wa_Conn = False, wa_ReqResponseMap = None, wa_chans = chans\<rparr>"

text \<open>Storing into a nil map panics; deleting from one does nothing.\<close>

definition AddReqRespChan :: "string \<Rightarrow> nat \<Rightarrow> 'm WebsocketAPIClient \<Rightarrow> 'm WebsocketAPIClient go" where
  "AddReqRespChan rid ch c =
     (case wa_ReqResponseMap c of
        None \<Rightarrow> Inl (Panicked ''assignment to entry in nil map'')
      | Some m \<Rightarrow> Inr (c\<lparr>wa_ReqResponseMap := Some (m(rid \<mapsto> ch))\<rparr>))"

definition RemoveReqRespChan :: "string \<Rightarrow> 'm WebsocketAPIClient \<Rightarrow> 'm WebsocketAPIClient" where
  "RemoveReqRespChan rid c =
     (case wa_ReqResponseMap c of
        None \<Rightarrow> c
      | Some m \<Rightarrow> if m rid \<noteq> None then c\<lparr>wa_ReqResponseMap := Some (m(rid := None))\<rparr> else c)"

definition Connect :: "(string \<Rightarrow> bool) \<Rightarrow> 'm WebsocketAPIClient \<Rightarrow> bool \<times> 'm WebsocketAPIClient" where
  "Connect dial c =
     (if dial (wa_Endpoint c) then (True, c\<lparr>wa_Conn := True, wa_ReqResponseMap := Some Map.empty\<rparr>) else (False, c))"

text \<open>\<open>None\<close> where the send on a full channel blocks the reader.\<close>

definition Handler :: "('m \<Rightarrow> string option) \<Rightarrow> 'm \<Rightarrow> 'm WebsocketAPIClient \<Rightarrow> 'm WebsocketAPIClient option" where
  "Handler response_id message c =
     (case response_id message of
        None \<Rightarrow> Some c
      | Some rid \<Rightarrow>
          (case Option.bind (wa_ReqResponseMap c) (\<lambda>m. m rid) of
             None \<Rightarrow> Some c
           | Some ch \<Rightarrow>
               (case wa_chans c ch of
                  (cap, buf) \<Rightarrow>
                    map_option (\<lambda>buf'. c\<lparr>wa_chans := (wa_chans c)(ch := (cap, buf'))\<rparr>) (chan_send cap message buf))))"

section \<open>Signatures\<close>



type_synonym params = "string \<rightharpoonup> string"

definition query_string :: "string list \<Rightarrow> params \<Rightarrow> string" where
  "query_string keys m = join ''&'' (map (\<lambda>key. key @ ''='' @ (case m key of Some v \<Rightarrow> v | None \<Rightarrow> [])) keys)"

text \<open>\<open>now\<close> is the reading of the clock in seconds; \<open>order\<close> gives the order in which Go visits the map. The
  map of the caller is changed, and it is what the function returns.\<close>

definition websocketAPISignature ::
  "(string \<Rightarrow> string \<Rightarrow> string) \<Rightarrow> (params \<Rightarrow> string list) \<Rightarrow> int \<Rightarrow> string \<Rightarrow> string \<Rightarrow> params \<Rightarrow> string + params" where
  "websocketAPISignature hmac order now apiKey apiSecret parameters =
     (if apiKey = [] \<or> apiSecret = []
      then Inl ''api_key and api_secret are required for websocket API signature''
      else let p1 = parameters(''timestamp'' \<mapsto> FormatInt (i64 (now * 1000)));
               p2 = p1(''apiKey'' \<mapsto> apiKey);
               keys = sort (order p2)
           in Inr (p2(''signature'' \<mapsto> hmac apiSecret (query_string keys p2))))"

section \<open>Lemmas\<close>

lemma sort_distinct_set: "distinct xs \<Longrightarrow> sort xs = sorted_list_of_set (set xs)" for xs :: "'a::linorder list"
  by (simp add: sorted_list_of_set_sort_remdups distinct_remdups_id)

lemma range_order_sort: "range_order ks m \<Longrightarrow> sort ks = sorted_list_of_set (dom m)" for ks :: "string list"
  by (simp add: range_order_def sort_distinct_set)

section \<open>Properties\<close>

text \<open>C33. The signature is canonical: whatever order Go visits the map in, a request with both keys is signed
  over \<open>key=value\<close> of all its parameters, the time and the key included, in ascending order of the names
  and joined by \<open>&\<close>; the parameters of the caller that are not one of the three names the function sets
  are kept.\<close>

theorem signature_canonical:
  assumes "apiKey \<noteq> []" and "apiSecret \<noteq> []" and "\<And>m. finite (dom m) \<Longrightarrow> range_order (order m) m"
    and "finite (dom parameters)"
    and "stamped = parameters(''timestamp'' \<mapsto> FormatInt (i64 (now * 1000)), ''apiKey'' \<mapsto> apiKey)"
  shows "\<exists>out. websocketAPISignature hmac order now apiKey apiSecret parameters = Inr out \<and>
    out ''signature'' = Some (hmac apiSecret (query_string (sorted_list_of_set (dom stamped)) stamped)) \<and>
    (\<forall>k. k \<noteq> ''signature'' \<longrightarrow> out k = stamped k) \<and>
    dom out = dom parameters \<union> {''timestamp'', ''apiKey'', ''signature''}"
proof -
  have "range_order (order stamped) stamped" by (rule assms(3)) (simp add: assms(4,5))
  from range_order_sort [OF this] have
    "websocketAPISignature hmac order now apiKey apiSecret parameters =
      Inr (stamped(''signature'' \<mapsto> hmac apiSecret (query_string (sorted_list_of_set (dom stamped)) stamped)))"
    using assms(1,2) by (simp add: websocketAPISignature_def Let_def assms(5))
  then show ?thesis by (auto simp: assms(5))
qed

text \<open>A range order of every finite map: the keys in ascending order.\<close>

definition key_order :: "params \<Rightarrow> string list" where
  "key_order m = sorted_list_of_set (dom m)"

lemma key_order_ok: "finite (dom m) \<Longrightarrow> range_order (key_order m) m"
  by (simp add: range_order_def key_order_def)

theorem signature_canonical_witness:
  "\<exists>out. websocketAPISignature (\<lambda>s q. s @ q) key_order 7 ''k'' ''s'' [''symbol'' \<mapsto> ''BTC''] = Inr out \<and>
     out ''signature'' = Some ''sapiKey=k&symbol=BTC&timestamp=7000'' \<and> out ''symbol'' = Some ''BTC''"
proof -
  let ?stamped = "[''symbol'' \<mapsto> ''BTC''](''timestamp'' \<mapsto> FormatInt (i64 (7 * 1000)), ''apiKey'' \<mapsto> ''k'')"
  have dom: "dom ?stamped = set [''apiKey'', ''symbol'', ''timestamp'']" by auto
  have "sorted [''apiKey'', ''symbol'', ''timestamp'']" by (simp add: less_char_def)
  then have "sorted_list_of_set (dom ?stamped) = [''apiKey'', ''symbol'', ''timestamp'']"
    unfolding dom by (intro sorted_list_of_set.idem_if_sorted_distinct) simp_all
  moreover have "FormatInt (i64 (7 * 1000)) = ''7000''"
    by (simp add: FormatInt_def i64_id in_i64_def digit_char_def nat_digits.simps [of 7000] nat_digits.simps [of 700]
        nat_digits.simps [of 70] nat_digits.simps [of 7])
  ultimately have "query_string (sorted_list_of_set (dom ?stamped)) ?stamped = ''apiKey=k&symbol=BTC&timestamp=7000''"
    by (simp add: query_string_def)
  with signature_canonical [of "''k''" "''s''" key_order "[''symbol'' \<mapsto> ''BTC'']" ?stamped 7 "\<lambda>s q. s @ q",
      OF _ _ key_order_ok] show ?thesis by auto
qed

text \<open>Signing a request twice signs the first signature: the function leaves its signature in the map of the
  caller, and a second call on that map hashes a query that holds it, so the two signatures are those of
  different queries.\<close>

theorem resigned_query_holds_signature:
  assumes "apiKey \<noteq> []" and "apiSecret \<noteq> []" and "\<And>m. finite (dom m) \<Longrightarrow> range_order (order m) m"
    and "finite (dom parameters)"
    and "websocketAPISignature hmac order now apiKey apiSecret parameters = Inr out1"
    and "websocketAPISignature hmac order now' apiKey apiSecret out1 = Inr out2"
  shows "\<exists>stamped. out2 ''signature'' = Some (hmac apiSecret (query_string (sorted_list_of_set (dom stamped)) stamped)) \<and>
    ''signature'' \<in> dom stamped \<and> stamped ''signature'' = out1 ''signature''"
proof -
  from signature_canonical [OF assms(1-4) refl, of hmac now] assms(5)
  have d: "dom out1 = dom parameters \<union> {''timestamp'', ''apiKey'', ''signature''}" by auto
  then have f: "finite (dom out1)" using assms(4) by simp
  let ?stamped = "out1(''timestamp'' \<mapsto> FormatInt (i64 (now' * 1000)), ''apiKey'' \<mapsto> apiKey)"
  from signature_canonical [OF assms(1-3) f refl, of hmac now'] assms(6)
  have "out2 ''signature'' = Some (hmac apiSecret (query_string (sorted_list_of_set (dom ?stamped)) ?stamped))" by auto
  moreover have "''signature'' \<in> dom ?stamped" "?stamped ''signature'' = out1 ''signature''" using d by auto
  ultimately show ?thesis by blast
qed

theorem resigned_query_holds_signature_witness:
  "\<exists>out1 out2 stamped. websocketAPISignature (\<lambda>s q. q) key_order 7 ''k'' ''s'' Map.empty = Inr out1 \<and>
     websocketAPISignature (\<lambda>s q. q) key_order 7 ''k'' ''s'' out1 = Inr out2 \<and>
     ''signature'' \<in> dom stamped \<and> stamped ''signature'' = out1 ''signature''"
proof -
  obtain out1 where o1: "websocketAPISignature (\<lambda>s q. q) key_order 7 ''k'' ''s'' Map.empty = Inr out1"
    by (simp add: websocketAPISignature_def Let_def)
  obtain out2 where o2: "websocketAPISignature (\<lambda>s q. q) key_order 7 ''k'' ''s'' out1 = Inr out2"
    by (simp add: websocketAPISignature_def Let_def)
  from resigned_query_holds_signature [OF _ _ key_order_ok _ o1 o2] o1 o2 show ?thesis by auto
qed

text \<open>C34. A response goes to the request that waits for it and to no other: it is appended to the channel
  registered under its id, every other channel is as it was, and a response whose id was removed, or
  was registered before the last \<open>Connect\<close>, is dropped. A client that has never connected panics when a
  request is registered.\<close>

theorem responses_routed:
  assumes "response_id message = Some rid" and "wa_ReqResponseMap c = Some m"
    and "wa_chans c ch = (cap, buf)" and "length buf < cap"
  shows "(\<exists>c1 c2. AddReqRespChan rid ch c = Inr c1 \<and> Handler response_id message c1 = Some c2 \<and>
      wa_chans c2 ch = (cap, buf @ [message]) \<and> (\<forall>ch'. ch' \<noteq> ch \<longrightarrow> wa_chans c2 ch' = wa_chans c ch')) \<and>
    Handler response_id message (RemoveReqRespChan rid c) = Some (RemoveReqRespChan rid c) \<and>
    (dial (wa_Endpoint c) \<longrightarrow>
      Handler response_id message (snd (Connect dial c)) = Some (snd (Connect dial c))) \<and>
    AddReqRespChan rid ch (NewWebsocketAPIClient k sec urls chans) =
      Inl (Panicked ''assignment to entry in nil map'')"
  using assms
  by (auto simp: AddReqRespChan_def Handler_def RemoveReqRespChan_def Connect_def NewWebsocketAPIClient_def chan_send_def)

theorem responses_routed_witness:
  "\<exists>c1 c2. AddReqRespChan ''7'' 0 (snd (Connect (\<lambda>_. True) (NewWebsocketAPIClient ''k'' ''s'' [] (\<lambda>_. (1, []))))) = Inr c1 \<and>
     Handler (\<lambda>m. Some ''7'') ''answer'' c1 = Some c2 \<and> wa_chans c2 0 = (1, [''answer''])"
  using responses_routed [of "\<lambda>m. Some ''7''" "''answer''" "''7''"
      "snd (Connect (\<lambda>_. True) (NewWebsocketAPIClient ''k'' ''s'' [] (\<lambda>_. (1, []))))" Map.empty 0 1 "[]"
      "\<lambda>_. True" "[]" "[]" "[]" "\<lambda>_. (1, [])"]
  by (auto simp: Connect_def NewWebsocketAPIClient_def)

end
