(* ===== verification/Ws_Api_Conn.thy ===== *)
theory Ws_Api_Conn
  imports Ws_Api_Client
begin

text \<open>
  The connection of the WebSocket API client (\<open>core/wsclient.go\<close>): the reader that \<open>Connect\<close> starts, the loop of
  \<open>wsApiServe\<close> that \<open>RequestHandler\<close> starts on the same connection, \<open>keepAlive\<close>, and the identifiers and keyed hashes of
  requests. What a read, a write or a ping returns is an argument, and so are the random numbers that follow a seed and the hash.
\<close>

section \<open>Readers\<close>

datatype 'm read = Msg 'm | Err string

text \<open>\<open>startReader\<close> over the reads it makes: whether it still runs, and the client. \<open>None\<close> where the delivery of a response blocks it.\<close>

fun startReader :: "('m \<Rightarrow> string option) \<Rightarrow> 'm read list \<Rightarrow> 'm WebsocketAPIClient \<Rightarrow> (bool \<times> 'm WebsocketAPIClient) option" where
  "startReader response_id [] c = Some (True, c)"
| "startReader response_id (Err e # rs) c = Some (False, c)"
| "startReader response_id (Msg m # rs) c =
     (case Handler response_id m c of None \<Rightarrow> None | Some c' \<Rightarrow> startReader response_id rs c')"

text \<open>The loop of \<open>wsApiServe\<close>: each turn finds the stop channel closed, or reads. \<open>silent\<close> is never set, so every error is reported, and
  none ends the loop.\<close>

datatype 'm turn = StopSeen | Reads "'m read"

datatype 'm call = CallHandler 'm | CallErr string

fun call_of :: "'m read \<Rightarrow> 'm call" where
  "call_of (Err e) = CallErr e"
| "call_of (Msg m) = CallHandler m"

fun wsApiServe :: "'m turn list \<Rightarrow> bool \<times> 'm call list" where
  "wsApiServe [] = (True, [])"
| "wsApiServe (StopSeen # ts) = (False, [])"
| "wsApiServe (Reads r # ts) = (case wsApiServe ts of (run, cs) \<Rightarrow> (run, call_of r # cs))"

text \<open>\<open>SendMessage\<close> gives the error of the write. \<open>RequestHandler\<close> starts the loop only where the request was sent.\<close>

definition SendMessage :: "('q \<Rightarrow> string option) \<Rightarrow> 'q \<Rightarrow> string option" where
  "SendMessage write_json msg = write_json msg"

definition RequestHandler :: "('q \<Rightarrow> string option) \<Rightarrow> 'q \<Rightarrow> 'm turn list \<Rightarrow> string + (bool \<times> 'm call list)" where
  "RequestHandler write_json req ts =
     (case SendMessage write_json req of Some err \<Rightarrow> Inl err | None \<Rightarrow> Inr (wsApiServe ts))"

definition conn_Close :: "string option \<Rightarrow> 'm WebsocketAPIClient \<Rightarrow> string option go" where
  "conn_Close closed c = (if wa_Conn c then Inr closed else Inl NilDereference)"

text \<open>Both loops read the one connection. A read goes to the reader of the table (\<open>True\<close>) or to the loop of the request.\<close>

fun two_readers ::
  "('m \<Rightarrow> string option) \<Rightarrow> (bool \<times> 'm read) list \<Rightarrow> 'm WebsocketAPIClient \<Rightarrow> (bool \<times> 'm WebsocketAPIClient \<times> 'm call list) option" where
  "two_readers response_id [] c = Some (True, c, [])"
| "two_readers response_id ((table, r) # rs) c =
     (if table then
        (case r of
           Err e \<Rightarrow> Some (False, c, map (call_of \<circ> snd) (filter (Not \<circ> fst) rs))
         | Msg m \<Rightarrow> (case Handler response_id m c of None \<Rightarrow> None | Some c' \<Rightarrow> two_readers response_id rs c'))
      else
        map_option (\<lambda>(run, c', cs). (run, c', call_of r # cs)) (two_readers response_id rs c))"

section \<open>Keeping the connection alive\<close>

text \<open>A turn of \<open>keepAlive\<close>: whether the ping is written, the time of the last pong before the next tick, and the time of that
  tick. The result is the number of pings and whether the loop still runs; the connection is left as it is in any case.\<close>

fun keepAlive :: "int \<Rightarrow> int \<Rightarrow> (bool \<times> int option \<times> int) list \<Rightarrow> nat \<times> bool" where
  "keepAlive timeout lastResponse [] = (0, True)"
| "keepAlive timeout lastResponse ((sent, pong, now) # ts) =
     (if \<not> sent then (0, False)
      else let last' = (case pong of None \<Rightarrow> lastResponse | Some t \<Rightarrow> t)
           in if timeout < now - last' then (1, False)
              else (case keepAlive timeout last' ts of (n, run) \<Rightarrow> (Suc n, run)))"

section \<open>Identifiers and hashes\<close>

definition hexChars :: string where
  "hexChars = ''0123456789abcdef''"

text \<open>\<open>rnd seed i\<close> is the \<open>i\<close>-th value of \<open>rand.Intn(16)\<close> after \<open>rand.Seed(seed)\<close>; each call seeds with its reading of the
  clock.\<close>

definition randomHex :: "(int \<Rightarrow> nat \<Rightarrow> nat) \<Rightarrow> int \<Rightarrow> nat \<Rightarrow> string" where
  "randomHex rnd now n = map (\<lambda>i. hexChars ! rnd now i) [0..<n]"

definition getUUID :: "(int \<Rightarrow> nat \<Rightarrow> nat) \<Rightarrow> (nat \<Rightarrow> int) \<Rightarrow> string" where
  "getUUID rnd clock =
     randomHex rnd (clock 0) 8 @ ''-'' @ randomHex rnd (clock 1) 4 @ ''-'' @ randomHex rnd (clock 2) 4 @ ''-'' @
     randomHex rnd (clock 3) 4 @ ''-'' @ randomHex rnd (clock 4) 12"

definition hex_byte :: "8 word \<Rightarrow> string" where
  "hex_byte b = [hexChars ! (unat b div 16), hexChars ! (unat b mod 16)]"

definition hmacHashing :: "(bytes \<Rightarrow> bytes \<Rightarrow> bytes) \<Rightarrow> string \<Rightarrow> string \<Rightarrow> string" where
  "hmacHashing mac apiSecret data = concat (map hex_byte (mac (bytes_of apiSecret) (bytes_of data)))"

record WebsocketClientError =
  we_Message :: string

section \<open>Lemmas\<close>

text \<open>The reader of the table ends at the first error, and what it has read before is handled in order.\<close>

lemma startReader_error:
  "startReader response_id (map Msg ms @ Err e # rs) c = map_option (\<lambda>r. (False, snd r)) (startReader response_id (map Msg ms) c)"
proof (induction ms arbitrary: c)
  case (Cons m ms)
  then show ?case by (cases "Handler response_id m c") simp_all
qed simp

text \<open>The loop of a request never ends by itself: it reports each error and reads again.\<close>

lemma wsApiServe_reads: "wsApiServe (map Reads rs) = (True, map call_of rs)"
  by (induction rs) simp_all

text \<open>The two readers of a connection share the messages out: each works as if what it has read were all there is.\<close>

lemma two_readers_split:
  "two_readers response_id rs c =
     map_option (\<lambda>(run, c'). (run, c', map (call_of \<circ> snd) (filter (Not \<circ> fst) rs)))
       (startReader response_id (map snd (filter fst rs)) c)"
proof (induction rs arbitrary: c)
  case (Cons x rs)
  obtain table r where x: "x = (table, r)" by force
  show ?case
  proof (cases table)
    case True
    then show ?thesis
    proof (cases r)
      case (Msg m)
      with True x Cons.IH show ?thesis by (cases "Handler response_id m c") simp_all
    qed (simp add: x comp_def)
  next
    case False
    with x Cons.IH [of c] show ?thesis
      by (cases "startReader response_id (map snd (filter fst rs)) c") (simp_all add: case_prod_unfold)
  qed
qed simp

lemma Handler_other:
  assumes "Handler response_id m c = Some c'" and "wa_ReqResponseMap c = Some t"
    and "response_id m \<noteq> Some rid" and "\<And>r. r \<noteq> rid \<Longrightarrow> t r \<noteq> Some ch"
  shows "wa_chans c' ch = wa_chans c ch \<and> wa_ReqResponseMap c' = Some t"
  using assms by (auto simp: Handler_def Option.bind_eq_Some_conv split: option.splits prod.splits bind_splits)

text \<open>So a request that waits in the table is never answered where the loop of another request reads its response.\<close>

lemma response_taken_away:
  assumes "two_readers response_id rs c = Some (run, c', calls)" and "wa_ReqResponseMap c = Some t"
    and "\<And>r. r \<noteq> rid \<Longrightarrow> t r \<noteq> Some ch"
    and "\<And>m. (True, Msg m) \<in> set rs \<Longrightarrow> response_id m \<noteq> Some rid"
  shows "wa_chans c' ch = wa_chans c ch"
  using assms
proof (induction rs arbitrary: c calls)
  case (Cons x rs)
  obtain table r where x: "x = (table, r)" by force
  show ?case
  proof (cases "table \<and> (\<exists>m. r = Msg m)")
    case True
    then obtain m c1 where m: "r = Msg m" "table" "Handler response_id m c = Some c1"
      "two_readers response_id rs c1 = Some (run, c', calls)" using Cons.prems(1) x by (auto split: option.splits)
    have "wa_chans c1 ch = wa_chans c ch \<and> wa_ReqResponseMap c1 = Some t"
      by (rule Handler_other [OF m(3) Cons.prems(2) _ Cons.prems(3)]) (use Cons.prems(4) x m in auto)
    with Cons.IH [OF m(4) _ Cons.prems(3)] Cons.prems(4) show ?thesis by auto
  next
    case False
    then consider "table" "\<exists>e. r = Err e" | "\<not> table" by (cases r) auto
    then show ?thesis
    proof cases
      case 1
      with Cons.prems(1) x show ?thesis by auto
    next
      case 2
      with Cons.prems(1) x obtain cs where "two_readers response_id rs c = Some (run, c', cs)" by auto
      with Cons.IH [OF this Cons.prems(2,3)] Cons.prems(4) show ?thesis by auto
    qed
  qed
qed simp

text \<open>A silent peer is noticed one tick after the timeout, and nothing happens then but the end of the loop.\<close>

lemma keepAlive_silent:
  assumes "\<forall>k<n. 0 < timeout \<and> tick k - start \<le> timeout" and "timeout < tick n - start"
  shows "keepAlive timeout start (map (\<lambda>k. (True, None, tick k)) [0..<Suc n]) = (Suc n, False)"
proof -
  have "keepAlive timeout start (map (\<lambda>k. (True, None, tick k)) [j..<Suc n]) = (Suc n - j, False)" if "j \<le> n" for j
    using that
  proof (induction "n - j" arbitrary: j)
    case 0
    with assms(2) show ?case by simp
  next
    case (Suc i)
    then have j: "j < n" by simp
    then have "[j..<Suc n] = j # [Suc j..<Suc n]" by (simp add: upt_conv_Cons)
    moreover have "i = n - Suc j" "Suc j \<le> n" using Suc.hyps(2) j by simp_all
    ultimately show ?case using Suc.hyps(1) [of "Suc j"] assms(1) j by (auto simp: Suc_diff_le)
  qed
  from this [of 0] show ?thesis by simp
qed

lemma hexChars_nth: "k < 16 \<Longrightarrow> hexChars ! k \<in> set hexChars"
  by (rule nth_mem) (simp add: hexChars_def)

lemma length_randomHex [simp]: "length (randomHex rnd now n) = n"
  by (simp add: randomHex_def)

lemma randomHex_set: "(\<And>i. rnd now i < 16) \<Longrightarrow> set (randomHex rnd now n) \<subseteq> set hexChars"
  by (auto simp: randomHex_def hexChars_nth)

text \<open>An identifier has the usual form: 36 characters, four dashes, digits of base sixteen otherwise.\<close>

lemma uuid_shape:
  assumes "\<And>s i. rnd s i < 16"
  shows "length (getUUID rnd clock) = 36" and "set (getUUID rnd clock) \<subseteq> insert CHR ''-'' (set hexChars)"
    and "\<forall>k\<in>{8, 13, 18, 23}. getUUID rnd clock ! k = CHR ''-''"
  using randomHex_set [where rnd = rnd, OF assms] by (auto simp: getUUID_def nth_append)

text \<open>Where the clock does not move between the five calls, they give the same digits: the five groups are prefixes of one
  string, and two identifiers made at the same reading are equal.\<close>

lemma uuid_repeats:
  assumes "\<And>k. clock k = t"
  shows "getUUID rnd clock = (let x = randomHex rnd t 12 in take 8 x @ ''-'' @ take 4 x @ ''-'' @ take 4 x @ ''-'' @ take 4 x @ ''-'' @ x)"
proof -
  have "randomHex rnd t n = take n (randomHex rnd t 12)" if "n \<le> 12" for n
    using that by (simp add: randomHex_def take_map)
  from this [of 8] this [of 4] show ?thesis using assms by (simp add: getUUID_def Let_def)
qed

lemma hexChars_inject: "i < 16 \<Longrightarrow> j < 16 \<Longrightarrow> hexChars ! i = hexChars ! j \<Longrightarrow> i = j"
  by (rule nth_eq_iff_index_eq [THEN iffD1, of hexChars]) (simp_all add: hexChars_def)

lemma hex_byte_inject: "hex_byte a = hex_byte b \<Longrightarrow> a = b"
proof -
  have lt: "unat b div 16 < 16" "unat b mod 16 < 16" for b :: "8 word" using unsigned_less [of b, where 'a = nat] by auto
  assume "hex_byte a = hex_byte b"
  then have "unat a div 16 = unat b div 16" "unat a mod 16 = unat b mod 16"
    using hexChars_inject lt by (auto simp: hex_byte_def)
  then have "unat a = unat b" by (metis div_mult_mod_eq)
  then show ?thesis by (simp add: unsigned_word_eqI)
qed

text \<open>The printed hash determines the hash.\<close>

lemma hmacHashing_faithful:
  assumes "hmacHashing mac s d = hmacHashing mac s' d'"
  shows "mac (bytes_of s) (bytes_of d) = mac (bytes_of s') (bytes_of d')"
proof -
  have "concat (map hex_byte xs) = concat (map hex_byte ys) \<Longrightarrow> xs = ys" for xs ys
  proof (induction xs arbitrary: ys)
    case Nil
    then show ?case by (cases ys) (auto simp: hex_byte_def)
  next
    case (Cons x xs)
    then obtain y ys' where ys: "ys = y # ys'" by (cases ys) (auto simp: hex_byte_def)
    with Cons.prems have "hex_byte x @ concat (map hex_byte xs) = hex_byte y @ concat (map hex_byte ys')" by simp
    moreover have "length (hex_byte x) = length (hex_byte y)" by (simp add: hex_byte_def)
    ultimately have "hex_byte x = hex_byte y" "concat (map hex_byte xs) = concat (map hex_byte ys')"
      using append_eq_append_conv by blast+
    with Cons.IH ys hex_byte_inject show ?case by auto
  qed
  with assms show ?thesis by (simp add: hmacHashing_def)
qed

end
