(* ===== verification/Quote_Broadcast.thy ===== *)
theory Quote_Broadcast
  imports Go_Prelude
begin

text \<open>
  The plain broadcast server of \<open>core/wsserver.go\<close>: a set of connections, the goroutine that registers and
  removes them and the goroutine that writes each message to all of them. A connection is an address;
  \<open>ok\<close> says which connections take what is written to them. The order in which Go visits the set is an
  argument. The goroutines share the map without a lock, so each of their turns is taken as one step.
\<close>

section \<open>State and steps\<close>

text \<open>\<open>qb_running\<close> is false once \<open>broadcastMessages\<close> has returned; \<open>qb_got\<close> is what a connection was sent.\<close>

record 'm WsQuoteServer =
  qb_clients :: "nat \<rightharpoonup> bool"
  qb_running :: bool
  qb_got :: "nat \<Rightarrow> 'm list"

definition NewWsQuoteServer :: "'m WsQuoteServer" where
  "NewWsQuoteServer = \<lparr>qb_clients = Map.empty, qb_running = True, qb_got = (\<lambda>_. [])\<rparr>"

text \<open>The two branches of \<open>listenClients\<close>.\<close>

definition qb_register :: "nat \<Rightarrow> 'm WsQuoteServer \<Rightarrow> 'm WsQuoteServer" where
  "qb_register conn s = s\<lparr>qb_clients := (qb_clients s)(conn \<mapsto> True)\<rparr>"

definition qb_unregister :: "nat \<Rightarrow> 'm WsQuoteServer \<Rightarrow> 'm WsQuoteServer" where
  "qb_unregister conn s =
     (if qb_clients s conn \<noteq> None then s\<lparr>qb_clients := (qb_clients s)(conn := None)\<rparr> else s)"

text \<open>The loop over the connections: the first write that fails makes the goroutine return.\<close>

fun write_all :: "(nat \<Rightarrow> bool) \<Rightarrow> 'm \<Rightarrow> nat list \<Rightarrow> 'm WsQuoteServer \<Rightarrow> 'm WsQuoteServer" where
  "write_all ok msg [] s = s"
| "write_all ok msg (conn # conns) s =
     (if ok conn then write_all ok msg conns (s\<lparr>qb_got := (qb_got s)(conn := qb_got s conn @ [msg])\<rparr>)
      else s\<lparr>qb_running := False\<rparr>)"

text \<open>A message on the unbuffered channel \<open>broadcast\<close>: \<open>None\<close> where nobody receives from it any more.\<close>

definition broadcastMessages :: "(nat \<Rightarrow> bool) \<Rightarrow> nat list \<Rightarrow> 'm \<Rightarrow> 'm WsQuoteServer \<Rightarrow> 'm WsQuoteServer option" where
  "broadcastMessages ok order msg s = (if qb_running s then Some (write_all ok msg order s) else None)"

text \<open>One round of \<open>checkHeartbeat\<close>: a connection that does not take a ping is removed.\<close>

definition checkHeartbeat :: "(nat \<Rightarrow> bool) \<Rightarrow> nat list \<Rightarrow> 'm WsQuoteServer \<Rightarrow> 'm WsQuoteServer" where
  "checkHeartbeat ok order s = fold (\<lambda>conn s. if ok conn then s else qb_unregister conn s) order s"

section \<open>Lemmas\<close>

lemma write_all_ok:
  "distinct order \<Longrightarrow> \<forall>c\<in>set order. ok c \<Longrightarrow>
   write_all ok msg order s = s\<lparr>qb_got := (\<lambda>c. if c \<in> set order then qb_got s c @ [msg] else qb_got s c)\<rparr>"
proof (induction order arbitrary: s)
  case (Cons conn order)
  then show ?case by (auto intro!: WsQuoteServer.equality simp: fun_eq_iff)
qed simp

lemma write_all_fails: "c \<in> set order \<Longrightarrow> \<not> ok c \<Longrightarrow> \<not> qb_running (write_all ok msg order s)"
  by (induction order arbitrary: s) auto

lemma heartbeat_clients:
  "qb_clients (checkHeartbeat ok order s) c = (if c \<in> set order \<and> \<not> ok c then None else qb_clients s c)"
  unfolding checkHeartbeat_def
  by (induction order arbitrary: s) (auto simp: qb_unregister_def)

section \<open>Properties\<close>

text \<open>A broadcast reaches every connection once as long as all of them take it; but one connection that fails
  ends the broadcasting for good: the goroutine returns, and from then on no message is taken from the
  channel, although the heartbeat removes the connection that failed.\<close>

theorem broadcast_stops_at_first_error:
  assumes "range_order order (qb_clients s)" and "qb_running s"
  shows "((\<forall>c\<in>dom (qb_clients s). ok c) \<longrightarrow>
      (\<exists>s'. broadcastMessages ok order msg s = Some s' \<and> qb_running s' \<and>
        (\<forall>c. qb_got s' c = (if c \<in> dom (qb_clients s) then qb_got s c @ [msg] else qb_got s c)))) \<and>
    (\<forall>c\<in>dom (qb_clients s). \<not> ok c \<longrightarrow>
      (\<exists>s'. broadcastMessages ok order msg s = Some s' \<and> c \<notin> dom (qb_clients (checkHeartbeat ok order s')) \<and>
        (\<forall>ok' order' msg' order''. broadcastMessages ok' order' msg' (checkHeartbeat ok order'' s') = None)))"
proof -
  have o: "set order = dom (qb_clients s)" "distinct order" using assms(1) by (auto simp: range_order_def)
  have run: "qb_running (checkHeartbeat ok ord s') = qb_running s'" for ord and s' :: "'a WsQuoteServer"
    unfolding checkHeartbeat_def by (induction ord arbitrary: s') (simp_all add: qb_unregister_def)
  show ?thesis
  proof (intro conjI impI ballI)
    assume "\<forall>c\<in>dom (qb_clients s). ok c"
    with o have "write_all ok msg order s =
        s\<lparr>qb_got := (\<lambda>c. if c \<in> dom (qb_clients s) then qb_got s c @ [msg] else qb_got s c)\<rparr>"
      using write_all_ok [of order ok msg s] by simp
    with assms(2) show "\<exists>s'. broadcastMessages ok order msg s = Some s' \<and> qb_running s' \<and>
        (\<forall>c. qb_got s' c = (if c \<in> dom (qb_clients s) then qb_got s c @ [msg] else qb_got s c))"
      by (simp add: broadcastMessages_def)
  next
    fix c assume c: "c \<in> dom (qb_clients s)" "\<not> ok c"
    from write_all_fails [of c order ok msg s] c o
    have "\<not> qb_running (write_all ok msg order s)" by simp
    moreover have "c \<notin> dom (qb_clients (checkHeartbeat ok order (write_all ok msg order s)))"
      using c o by (simp add: domIff heartbeat_clients)
    ultimately show "\<exists>s'. broadcastMessages ok order msg s = Some s' \<and>
        c \<notin> dom (qb_clients (checkHeartbeat ok order s')) \<and>
        (\<forall>ok' order' msg' order''. broadcastMessages ok' order' msg' (checkHeartbeat ok order'' s') = None)"
      using assms(2) by (simp add: broadcastMessages_def run)
  qed
qed

theorem broadcast_stops_at_first_error_witness:
  "\<exists>s'. broadcastMessages (\<lambda>c. c \<noteq> 2) [1, 2] ''a'' (qb_register 2 (qb_register 1 NewWsQuoteServer)) = Some s' \<and>
     broadcastMessages (\<lambda>_. True) [1] ''b'' (checkHeartbeat (\<lambda>c. c \<noteq> 2) [1, 2] s') = None"
proof -
  let ?s = "qb_register 2 (qb_register 1 (NewWsQuoteServer :: string WsQuoteServer))"
  have r: "range_order [1, 2] (qb_clients ?s)" by (auto simp: range_order_def qb_register_def NewWsQuoteServer_def)
  have q: "qb_running ?s" and d: "2 \<in> dom (qb_clients ?s)" by (simp_all add: qb_register_def NewWsQuoteServer_def)
  have "\<exists>s'. broadcastMessages (\<lambda>c. c \<noteq> 2) [1, 2] ''a'' ?s = Some s' \<and>
      2 \<notin> dom (qb_clients (checkHeartbeat (\<lambda>c. c \<noteq> 2) [1, 2] s')) \<and>
      (\<forall>ok' order' msg' order''. broadcastMessages ok' order' msg' (checkHeartbeat (\<lambda>c. c \<noteq> 2) order'' s') = None)"
    using bspec [OF conjunct2 [OF broadcast_stops_at_first_error [OF r q, of "\<lambda>c. c \<noteq> 2" "''a''"]] d] by simp
  then show ?thesis by (elim exE conjE) (intro exI conjI, assumption, simp)
qed

section \<open>The life of a connection\<close>

text \<open>The goroutines of \<open>Start\<close> and \<open>handleMessages\<close>. A connection that was upgraded waits for \<open>listenClients\<close> to take it from
  the unbuffered channel \<open>register\<close>; then it is read until a read fails, and its reader waits for \<open>unregister\<close> to be taken, after
  which the connection is closed. An upgrade that fails leaves nothing behind.\<close>

datatype conn_phase = Fresh | Upgraded | Reading | Leaving | Gone

record 'm qb_system =
  qs_server :: "'m WsQuoteServer"
  qs_phase :: "nat \<Rightarrow> conn_phase"

definition qb_start :: "'m qb_system" where
  "qb_start = \<lparr>qs_server = NewWsQuoteServer, qs_phase = (\<lambda>_. Fresh)\<rparr>"

definition at_phase :: "nat \<Rightarrow> conn_phase \<Rightarrow> 'm WsQuoteServer \<Rightarrow> 'm qb_system \<Rightarrow> 'm qb_system" where
  "at_phase conn x server s = \<lparr>qs_server = server, qs_phase = (qs_phase s)(conn := x)\<rparr>"

inductive qb_step :: "'m qb_system \<Rightarrow> 'm qb_system \<Rightarrow> bool" where
  Upgrade: "qs_phase s conn = Fresh \<Longrightarrow> qb_step s (at_phase conn Upgraded (qs_server s) s)"
| Register: "qs_phase s conn = Upgraded \<Longrightarrow> qb_step s (at_phase conn Reading (qb_register conn (qs_server s)) s)"
| ReadFails: "qs_phase s conn = Reading \<Longrightarrow> qb_step s (at_phase conn Leaving (qs_server s) s)"
| Unregister: "qs_phase s conn = Leaving \<Longrightarrow> qb_step s (at_phase conn Gone (qb_unregister conn (qs_server s)) s)"
| Heartbeat: "range_order order (qb_clients (qs_server s)) \<Longrightarrow>
    qb_step s (s\<lparr>qs_server := checkHeartbeat ok order (qs_server s)\<rparr>)"
| Broadcast: "range_order order (qb_clients (qs_server s)) \<Longrightarrow> broadcastMessages ok order msg (qs_server s) = Some server \<Longrightarrow>
    qb_step s (s\<lparr>qs_server := server\<rparr>)"

lemma write_all_clients [simp]: "qb_clients (write_all ok msg order s) = qb_clients s"
  by (induction order arbitrary: s) simp_all

lemma write_all_got: "c \<notin> set order \<Longrightarrow> qb_got (write_all ok msg order s) c = qb_got s c"
  by (induction order arbitrary: s) simp_all

lemma checkHeartbeat_got [simp]: "qb_got (checkHeartbeat ok order s) = qb_got s"
  unfolding checkHeartbeat_def by (induction order arbitrary: s) (simp_all add: qb_unregister_def)

text \<open>The registry holds connections that are being read or are about to leave, and no other; in particular a connection that has gone
  is never written to again, and one that was not registered was sent nothing.\<close>

lemma qb_registry:
  assumes "qb_step\<^sup>*\<^sup>* qb_start s"
  shows "(\<forall>c. qb_clients (qs_server s) c \<noteq> None \<longrightarrow> qs_phase s c = Reading \<or> qs_phase s c = Leaving) \<and>
    (\<forall>c. qs_phase s c = Fresh \<or> qs_phase s c = Upgraded \<longrightarrow> qb_got (qs_server s) c = [])"
  using assms
proof (induction rule: rtranclp_induct)
  case base
  then show ?case by (simp add: qb_start_def NewWsQuoteServer_def)
next
  case (step s t)
  from step.hyps(2) step.IH show ?case
  proof (cases rule: qb_step.cases)
    case (Unregister conn)
    with step.IH show ?thesis by (auto simp: at_phase_def qb_unregister_def split: if_splits)
  next
    case (Heartbeat order ok)
    with step.IH show ?thesis by (auto simp: heartbeat_clients split: if_splits)
  next
    case (Broadcast order ok msg server)
    then have sv: "server = write_all ok msg order (qs_server s)" by (simp add: broadcastMessages_def split: if_splits)
    have "c \<notin> set order" if "qs_phase s c = Fresh \<or> qs_phase s c = Upgraded" for c
      using that spec [OF conjunct1 [OF step.IH], of c] Broadcast(2) by (auto simp: range_order_def)
    with step.IH Broadcast sv show ?thesis by (auto simp: write_all_got)
  qed (auto simp: at_phase_def qb_register_def)
qed

text \<open>A reader whose connection failed can always be taken out.\<close>

lemma leaving_can_go: "qs_phase s c = Leaving \<Longrightarrow> \<exists>t. qb_step s t \<and> qs_phase t c = Gone \<and> c \<notin> dom (qb_clients (qs_server t))"
  by (rule exI [of _ "at_phase c Gone (qb_unregister c (qs_server s)) s"], intro conjI, erule qb_step.Unregister)
    (simp_all add: at_phase_def qb_unregister_def domIff)

end
