(* ===== verification/Utils.thy ===== *)
theory Utils
  imports Go_Prelude
begin

text \<open>
  The helpers of \<open>utils\<close>: the printing of a dynamic value (\<open>string.go\<close>), the levels of the logger
  (\<open>logger.go\<close>) and the file that keeps a second instance of a service from starting (\<open>env.go\<close>). The
  formatting of floating-point numbers and the JSON encoder are arguments.
\<close>

section \<open>Values as strings\<close>

text \<open>The dynamic types that \<open>StrVal\<close> distinguishes; integers have their widths.\<close>

datatype ('f, 'j) any_value =
    ANil
  | AFloat64 'f
  | AFloat32 'f
  | AInt "64 word"
  | AUint "64 word"
  | AInt8 "8 word"
  | AUint8 "8 word"
  | AInt16 "16 word"
  | AUint16 "16 word"
  | AInt32 "32 word"
  | AUint32 "32 word"
  | AInt64 "64 word"
  | AUint64 "64 word"
  | AString string
  | ABytes string
  | AOther 'j

text \<open>\<open>strconv.Itoa(int(x))\<close>: the conversion to \<open>int\<close> keeps the value of a narrower integer and the bits of a
  \<open>uint\<close>.\<close>

fun StrVal :: "('f \<Rightarrow> string) \<Rightarrow> ('j \<Rightarrow> string) \<Rightarrow> ('f, 'j) any_value \<Rightarrow> string" where
  "StrVal FormatFloat json ANil = []"
| "StrVal FormatFloat json (AFloat64 ft) = FormatFloat ft"
| "StrVal FormatFloat json (AFloat32 ft) = FormatFloat ft"
| "StrVal FormatFloat json (AInt it) = FormatInt (sint it)"
| "StrVal FormatFloat json (AUint it) = FormatInt (sint it)"
| "StrVal FormatFloat json (AInt8 it) = FormatInt (sint it)"
| "StrVal FormatFloat json (AUint8 it) = FormatInt (uint it)"
| "StrVal FormatFloat json (AInt16 it) = FormatInt (sint it)"
| "StrVal FormatFloat json (AUint16 it) = FormatInt (uint it)"
| "StrVal FormatFloat json (AInt32 it) = FormatInt (sint it)"
| "StrVal FormatFloat json (AUint32 it) = FormatInt (uint it)"
| "StrVal FormatFloat json (AInt64 it) = FormatInt (sint it)"
| "StrVal FormatFloat json (AUint64 it) = FormatInt (uint it)"
| "StrVal FormatFloat json (AString s) = s"
| "StrVal FormatFloat json (ABytes s) = s"
| "StrVal FormatFloat json (AOther v) = json v"

text \<open>The integer a value stands for.\<close>

fun int_value :: "('f, 'j) any_value \<Rightarrow> int option" where
  "int_value (AInt it) = Some (sint it)"
| "int_value (AUint it) = Some (uint it)"
| "int_value (AInt8 it) = Some (sint it)"
| "int_value (AUint8 it) = Some (uint it)"
| "int_value (AInt16 it) = Some (sint it)"
| "int_value (AUint16 it) = Some (uint it)"
| "int_value (AInt32 it) = Some (sint it)"
| "int_value (AUint32 it) = Some (uint it)"
| "int_value (AInt64 it) = Some (sint it)"
| "int_value (AUint64 it) = Some (uint it)"
| "int_value _ = None"

section \<open>The logger\<close>

definition LogLevelNames :: "(int \<times> string) list" where
  "LogLevelNames = [(0, ''DEBUG''), (1, ''INFO''), (2, ''WARN''), (3, ''ERROR''), (4, ''FATAL'')]"

record Logger =
  lg_name :: string
  lg_prefix :: string
  lg_level :: int

definition NewLogger :: "string \<Rightarrow> int \<Rightarrow> Logger" where
  "NewLogger name level = \<lparr>lg_name = name, lg_prefix = name, lg_level = level\<rparr>"

definition SetLevel :: "int \<Rightarrow> Logger \<Rightarrow> Logger" where
  "SetLevel level lg = lg\<lparr>lg_level := level\<rparr>"

definition upper :: "string \<Rightarrow> string" where
  "upper = map (\<lambda>c. let k = of_char c :: nat in if 97 \<le> k \<and> k \<le> 122 then char_of (k - 32) else c)"

text \<open>\<open>order\<close> is the order in which Go visits the map of the names.\<close>

definition SetLevelName :: "(int \<times> string) list \<Rightarrow> string \<Rightarrow> Logger \<Rightarrow> Logger" where
  "SetLevelName order level lg = fold (\<lambda>(k, v) lg. if v = upper level then SetLevel k lg else lg) order lg"

text \<open>\<open>write\<close>: what is printed, with the prefix in front and the place of the call first; the prefix is set back
  at the end. \<open>caller\<close> is what \<open>runtime.Caller\<close> gives.\<close>

definition log_write :: "string option \<Rightarrow> int \<Rightarrow> string list \<Rightarrow> Logger \<Rightarrow> Logger \<times> (string \<times> string list) option" where
  "log_write caller level vars lg =
     (if level < lg_level lg then (lg, None)
      else let prefix = lg_prefix lg;
               lg1 = lg\<lparr>lg_prefix := (case map_of LogLevelNames level of Some nm \<Rightarrow> nm | None \<Rightarrow> []) @ '' ''\<rparr>;
               vars1 = (case caller of Some fl \<Rightarrow> fl # vars | None \<Rightarrow> vars)
           in (lg1\<lparr>lg_prefix := prefix\<rparr>, Some (lg_prefix lg1, vars1)))"

text \<open>The methods of the five levels.\<close>

definition log_Debug :: "string option \<Rightarrow> string list \<Rightarrow> Logger \<Rightarrow> Logger \<times> (string \<times> string list) option" where
  "log_Debug caller vars = log_write caller 0 vars"

definition log_Info :: "string option \<Rightarrow> string list \<Rightarrow> Logger \<Rightarrow> Logger \<times> (string \<times> string list) option" where
  "log_Info caller vars = log_write caller 1 vars"

definition log_Warn :: "string option \<Rightarrow> string list \<Rightarrow> Logger \<Rightarrow> Logger \<times> (string \<times> string list) option" where
  "log_Warn caller vars = log_write caller 2 vars"

definition log_Error :: "string option \<Rightarrow> string list \<Rightarrow> Logger \<Rightarrow> Logger \<times> (string \<times> string list) option" where
  "log_Error caller vars = log_write caller 3 vars"

text \<open>Unlike \<open>Fatal\<close> of the library, this one only prints.\<close>

definition log_Fatal :: "string option \<Rightarrow> string list \<Rightarrow> Logger \<Rightarrow> Logger \<times> (string \<times> string list) option" where
  "log_Fatal caller vars = log_write caller 4 vars"

text \<open>The sink of \<open>logging/zmq.go\<close>. The error of \<open>NewSocket\<close> is dropped, so that a socket that cannot be made is a nil pointer, which
  \<open>Connect\<close> dereferences; an address that cannot be connected gives a nil handler.\<close>

record ZmqHandler =
  zh_mxAddr :: string
  zh_topic :: string

definition NewZmqHandler :: "bool \<Rightarrow> (string \<Rightarrow> bool) \<Rightarrow> string \<Rightarrow> string \<Rightarrow> ZmqHandler option go" where
  "NewZmqHandler new_sock connect mxAddr topic =
     (if \<not> new_sock then Inl NilDereference
      else Inr (if connect mxAddr then Some \<lparr>zh_mxAddr = mxAddr, zh_topic = topic\<rparr> else None))"

text \<open>\<open>Emit\<close> and \<open>Write\<close> send without waiting; \<open>Write\<close> returns what the socket returns. The topic is not sent.\<close>

definition zmq_Emit :: "(string \<Rightarrow> int \<times> string option) \<Rightarrow> string \<Rightarrow> ZmqHandler option \<Rightarrow> unit go" where
  "zmq_Emit sock_send message z = (case z of None \<Rightarrow> Inl NilDereference | Some h \<Rightarrow> (case sock_send message of (n, err) \<Rightarrow> Inr ()))"

definition zmq_Write :: "(string \<Rightarrow> int \<times> string option) \<Rightarrow> string \<Rightarrow> ZmqHandler option \<Rightarrow> (int \<times> string option) go" where
  "zmq_Write sock_send p z = (case z of None \<Rightarrow> Inl NilDereference | Some h \<Rightarrow> Inr (sock_send p))"

text \<open>\<open>ExecPath\<close>: the working directory, or the directory of the program where there is none.\<close>

definition ExecPath :: "string option \<Rightarrow> string + string \<Rightarrow> (string \<Rightarrow> string) \<Rightarrow> string go" where
  "ExecPath getwd executable dir =
     (case getwd of
        Some path \<Rightarrow> Inr path
      | None \<Rightarrow> (case executable of Inl err \<Rightarrow> Inl (Panicked err) | Inr ex \<Rightarrow> Inr (dir ex)))"

section \<open>One instance\<close>

text \<open>The file of the lock, as the processes that use it see it: the inode its name stands for, the contents
  and the holder of the lock of each inode, and where each process is in \<open>Lock\<close> and \<open>Unlock\<close>.\<close>

datatype po_pc = PIdle | POpened nat | PLocked nat | PClosed

record po_state =
  po_name :: "nat option"
  po_next :: nat
  po_data :: "nat \<Rightarrow> string"
  po_lock :: "nat \<rightharpoonup> nat"
  po_at :: "nat \<Rightarrow> po_pc"

definition po_init :: po_state where
  "po_init = \<lparr>po_name = None, po_next = 0, po_data = (\<lambda>_. []), po_lock = Map.empty, po_at = (\<lambda>_. PIdle)\<rparr>"

text \<open>\<open>os.OpenFile\<close> with \<open>O_CREATE\<close>\<close>

definition po_open :: "nat \<Rightarrow> po_state \<Rightarrow> po_state" where
  "po_open p s =
     (case po_name s of
        Some i \<Rightarrow> s\<lparr>po_at := (po_at s)(p := POpened i)\<rparr>
      | None \<Rightarrow> s\<lparr>po_name := Some (po_next s), po_next := Suc (po_next s), po_data := (po_data s)(po_next s := []),
                  po_at := (po_at s)(p := POpened (po_next s))\<rparr>)"

text \<open>\<open>Flock\<close> succeeds, and the process number is written at the start of the file, which is not truncated.\<close>

definition po_acquire :: "nat \<Rightarrow> nat \<Rightarrow> po_state \<Rightarrow> po_state" where
  "po_acquire p i s =
     (let pid = FormatInt (int p)
      in s\<lparr>po_lock := (po_lock s)(i \<mapsto> p), po_data := (po_data s)(i := pid @ drop (length pid) (po_data s i)),
           po_at := (po_at s)(p := PLocked i)\<rparr>)"

definition po_close :: "nat \<Rightarrow> nat \<Rightarrow> po_pc \<Rightarrow> po_state \<Rightarrow> po_state" where
  "po_close p i pc s = s\<lparr>po_lock := (po_lock s)(i := None), po_at := (po_at s)(p := pc)\<rparr>"

definition po_remove :: "nat \<Rightarrow> po_state \<Rightarrow> po_state" where
  "po_remove p s = s\<lparr>po_name := None, po_at := (po_at s)(p := PIdle)\<rparr>"

text \<open>The processes: \<open>unlocks\<close> says whether they call \<open>Unlock\<close>; a process that ends without it loses its lock.\<close>

inductive po_step :: "bool \<Rightarrow> po_state \<Rightarrow> po_state \<Rightarrow> bool" for unlocks where
  OpenFile: "po_at s p = PIdle \<Longrightarrow> po_step unlocks s (po_open p s)"
| Flock: "po_at s p = POpened i \<Longrightarrow> po_lock s i = None \<Longrightarrow> po_step unlocks s (po_acquire p i s)"
| Refused: "po_at s p = POpened i \<Longrightarrow> po_step unlocks s (s\<lparr>po_at := (po_at s)(p := PIdle)\<rparr>)"
| Exit: "po_at s p = PLocked i \<Longrightarrow> po_step unlocks s (po_close p i PIdle s)"
| Close: "unlocks \<Longrightarrow> po_at s p = PLocked i \<Longrightarrow> po_step unlocks s (po_close p i PClosed s)"
| Remove: "unlocks \<Longrightarrow> po_at s p = PClosed \<Longrightarrow> po_step unlocks s (po_remove p s)"

section \<open>Lemmas\<close>

text \<open>A process is at \<open>PLocked\<close> exactly where it holds the lock; without \<open>Unlock\<close> there is only one inode.\<close>

definition po_inv :: "po_state \<Rightarrow> bool" where
  "po_inv s \<longleftrightarrow> (\<forall>p i. po_at s p = PLocked i \<longrightarrow> po_lock s i = Some p) \<and>
     (\<forall>p i. po_at s p = PLocked i \<or> po_at s p = POpened i \<longrightarrow> po_name s = Some i)"

lemma po_inv_name: "po_inv s \<Longrightarrow> po_at s p = PLocked i \<or> po_at s p = POpened i \<Longrightarrow> po_name s = Some i"
  by (auto simp: po_inv_def)

lemma po_inv_one:
  "po_inv s \<Longrightarrow> po_at s p = PLocked i \<or> po_at s p = POpened i \<Longrightarrow>
   po_at s q = PLocked j \<or> po_at s q = POpened j \<Longrightarrow> j = i"
  using po_inv_name [of s p i] po_inv_name [of s q j] by simp

lemma po_inv_holder: "po_at s p = PLocked i \<Longrightarrow> po_at s q = PLocked j \<Longrightarrow> po_inv s \<Longrightarrow> p = q"
  using po_inv_one [of s p i q j] unfolding po_inv_def by (metis option.inject)

lemma po_step_inv: "po_step False s s' \<Longrightarrow> po_inv s \<Longrightarrow> po_inv s'"
proof (induction rule: po_step.induct)
  case (OpenFile s p)
  then show ?case by (auto simp: po_inv_def po_open_def split: option.splits if_splits)
next
  case (Flock s p i)
  then have n: "po_name s = Some i" by (auto intro: po_inv_name)
  have one: "j = i" if "po_at s q = PLocked j \<or> po_at s q = POpened j" for q j
    using po_inv_one [OF Flock.prems _ that] Flock.hyps(1) by blast
  have "po_at s q \<noteq> PLocked j" for q j
    using Flock one [of q j] by (auto simp: po_inv_def)
  with n one show ?case by (auto simp: po_inv_def po_acquire_def Let_def split: if_splits)
next
  case (Refused s p i)
  then have n: "po_name s = Some i" by (auto intro: po_inv_name)
  have "j = i" if "po_at s q = PLocked j \<or> po_at s q = POpened j" for q j
    using po_inv_one [OF Refused.prems _ that] Refused.hyps by blast
  with n Refused.prems show ?case by (auto simp: po_inv_def split: if_splits)
next
  case (Exit s p i)
  then have n: "po_name s = Some i" by (auto intro: po_inv_name)
  have one: "j = i" if "po_at s q = PLocked j \<or> po_at s q = POpened j" for q j
    using po_inv_one [OF Exit.prems _ that] Exit.hyps by blast
  have "q = p" if "po_at s q = PLocked j" for q j
  proof -
    from that one have "po_lock s i = Some q" using Exit.prems by (auto simp: po_inv_def)
    moreover have "po_lock s i = Some p" using Exit by (auto simp: po_inv_def)
    ultimately show ?thesis by simp
  qed
  with n one show ?case by (auto simp: po_inv_def po_close_def split: if_splits)
qed auto

lemma po_steps_inv: "(po_step False)\<^sup>*\<^sup>* s s' \<Longrightarrow> po_inv s \<Longrightarrow> po_inv s'"
  by (induction rule: rtranclp_induct) (auto intro: po_step_inv)

lemma log_level_filter:
  "snd (log_write caller level vars lg) = None \<longleftrightarrow> level < lg_level lg"
  "fst (log_write caller level vars lg) = lg"
  by (simp_all add: log_write_def Let_def)

text \<open>A level is heard exactly from the level the logger is set to upwards.\<close>

lemma levels_heard:
  "(snd (log_Debug caller vars lg) \<noteq> None) = (lg_level lg \<le> 0)" "(snd (log_Info caller vars lg) \<noteq> None) = (lg_level lg \<le> 1)"
  "(snd (log_Warn caller vars lg) \<noteq> None) = (lg_level lg \<le> 2)" "(snd (log_Error caller vars lg) \<noteq> None) = (lg_level lg \<le> 3)"
  "(snd (log_Fatal caller vars lg) \<noteq> None) = (lg_level lg \<le> 4)"
  by (auto simp: log_Debug_def log_Info_def log_Warn_def log_Error_def log_Fatal_def log_write_def Let_def)

text \<open>The sink that a failed connection leaves panics at its first message.\<close>

lemma unconnected_sink_panics:
  "NewZmqHandler True connect mxAddr topic = Inr z \<Longrightarrow> \<not> connect mxAddr \<Longrightarrow> zmq_Write sock_send p z = Inl NilDereference"
  by (simp add: NewZmqHandler_def zmq_Write_def)

text \<open>The names are distinct, so the order in which the map is visited does not matter.\<close>

lemma SetLevelName_known:
  assumes "set order = set LogLevelNames" and "(k, upper level) \<in> set LogLevelNames"
  shows "SetLevelName order level lg = SetLevel k lg"
proof -
  have "inj_on snd (set LogLevelNames)" by (simp add: LogLevelNames_def inj_on_def)
  then have uniq: "k' = k" if "(k', upper level) \<in> set order" for k'
    using that assms inj_onD [of snd "set LogLevelNames" "(k', upper level)" "(k, upper level)"] by simp
  have "fold (\<lambda>(k, v) lg. if v = upper level then SetLevel k lg else lg) xs lg =
      (if \<exists>k'. (k', upper level) \<in> set xs then SetLevel k lg else lg)" if "set xs \<subseteq> set order" for xs
    using that
  proof (induction xs arbitrary: lg)
    case (Cons x xs)
    then show ?case using uniq by (cases x) (auto simp: SetLevel_def)
  qed simp
  from this [of order] assms show ?thesis by (auto simp: SetLevelName_def)
qed

section \<open>Properties\<close>

text \<open>\<open>StrVal\<close> of an integer reads back as the integer, for every width and sign, where the value fits 64 signed
  bits. A \<open>uint\<close> of \<open>2^63\<close> or more is printed as a negative number, because it is converted to \<open>int\<close>
  first, while the same \<open>uint64\<close> is printed as it is.\<close>

theorem strval_reads_back:
  assumes "int_value v = Some x"
  shows "(in_i64 x \<longrightarrow> ParseInt (StrVal FormatFloat json v) = x) \<and>
    (\<not> in_i64 x \<longrightarrow> StrVal FormatFloat json v = (case v of AUint it \<Rightarrow> FormatInt (x - 2 ^ 64) | _ \<Rightarrow> FormatInt x))"
proof -
  have wide: "sint it = (if uint it < 2 ^ 63 then uint it else uint it - 2 ^ 64)" for it :: "64 word"
  proof -
    have s: "sint it = (uint it + 2 ^ 63) mod 2 ^ 64 - 2 ^ 63"
      by (simp add: sint_uint signed_take_bit_eq_take_bit_shift take_bit_eq_mod)
    show ?thesis
    proof (cases "uint it < 2 ^ 63")
      case True
      then show ?thesis using s mod_pos_pos_trivial [of "uint it + 2 ^ 63" "2 ^ 64"] by simp
    next
      case False
      have "uint it < 2 ^ 64" using uint_bounded [of it] by simp
      with False show ?thesis
        using s minus_mod_self2 [of "uint it + 2 ^ 63" "2 ^ 64 :: int"]
          mod_pos_pos_trivial [of "uint it + 2 ^ 63 - 2 ^ 64" "2 ^ 64"] by simp
    qed
  qed
  have narrow: "in_i64 (sint it)" for it :: "64 word"
    using sint_range_size [of it] by (simp add: in_i64_def size_word_def)
  have low: "- 9223372036854775808 \<le> uint it" for it :: "64 word" using uint_ge_0 [of it] by linarith
  show ?thesis using assms
    by (cases v) (auto simp: ParseInt_FormatInt wide narrow low in_i64_def)
qed

theorem strval_reads_back_witness:
  "ParseInt (StrVal (\<lambda>f :: unit. []) (\<lambda>j :: unit. []) (AInt8 (- 7))) = - 7 \<and>
   StrVal (\<lambda>f :: unit. []) (\<lambda>j :: unit. []) (AUint (2 ^ 63)) = FormatInt (- (2 ^ 63)) \<and>
   StrVal (\<lambda>f :: unit. []) (\<lambda>j :: unit. []) (AUint64 (2 ^ 63)) = FormatInt (2 ^ 63)"
  using strval_reads_back [of "AInt8 (- 7)" "- 7" "\<lambda>f :: unit. []" "\<lambda>j :: unit. []"]
    strval_reads_back [of "AUint (2 ^ 63)" "2 ^ 63" "\<lambda>f :: unit. []" "\<lambda>j :: unit. []"]
    strval_reads_back [of "AUint64 (2 ^ 63)" "2 ^ 63" "\<lambda>f :: unit. []" "\<lambda>j :: unit. []"]
  by (simp add: in_i64_def)

text \<open>The lock file admits one instance as long as no process calls \<open>Unlock\<close>: whatever processes start, are
  refused or end in whatever order, two processes never hold the lock at the same time. \<open>Unlock\<close>, which the services reach where
  their start panics, removes the file after giving up the lock: with it, a process that opened the file
  before it was removed and one that creates it anew both hold a lock.\<close>

theorem one_instance:
  "((po_step False)\<^sup>*\<^sup>* po_init s \<longrightarrow> po_at s p = PLocked i \<longrightarrow> po_at s q = PLocked j \<longrightarrow> p = q) \<and>
   (\<exists>s. (po_step True)\<^sup>*\<^sup>* po_init s \<and> po_at s 2 = PLocked 0 \<and> po_at s 3 = PLocked 1)"
proof (intro conjI impI)
  assume "(po_step False)\<^sup>*\<^sup>* po_init s" and p: "po_at s p = PLocked i" and q: "po_at s q = PLocked j"
  from po_steps_inv [OF this(1)] have inv: "po_inv s" by (simp add: po_inv_def po_init_def)
  with p q show "p = q" by (rule po_inv_holder)
next
  let ?s1 = "po_acquire 1 0 (po_open 1 po_init)"
  let ?s2 = "po_acquire 2 0 (po_close 1 0 PClosed (po_open 2 ?s1))"
  let ?s3 = "po_acquire 3 1 (po_open 3 (po_remove 1 ?s2))"
  have a: "po_step True po_init (po_open 1 po_init)" by (rule po_step.OpenFile) (simp add: po_init_def)
  have b: "po_step True (po_open 1 po_init) ?s1"
    by (rule po_step.Flock) (simp_all add: po_init_def po_open_def)
  have c: "po_step True ?s1 (po_open 2 ?s1)"
    by (rule po_step.OpenFile) (simp add: po_init_def po_open_def po_acquire_def Let_def)
  have d: "po_step True (po_open 2 ?s1) (po_close 1 0 PClosed (po_open 2 ?s1))"
    by (rule po_step.Close) (simp_all add: po_init_def po_open_def po_acquire_def Let_def)
  have e: "po_step True (po_close 1 0 PClosed (po_open 2 ?s1)) ?s2"
    by (rule po_step.Flock) (simp_all add: po_init_def po_open_def po_acquire_def po_close_def Let_def)
  have f: "po_step True ?s2 (po_remove 1 ?s2)"
    by (rule po_step.Remove) (simp_all add: po_init_def po_open_def po_acquire_def po_close_def Let_def)
  have g: "po_step True (po_remove 1 ?s2) (po_open 3 (po_remove 1 ?s2))"
    by (rule po_step.OpenFile) (simp add: po_init_def po_open_def po_acquire_def po_close_def po_remove_def Let_def)
  have h: "po_step True (po_open 3 (po_remove 1 ?s2)) ?s3"
    by (rule po_step.Flock) (simp_all add: po_init_def po_open_def po_acquire_def po_close_def po_remove_def Let_def)
  from a b c d e f g h have "(po_step True)\<^sup>*\<^sup>* po_init ?s3" by (meson converse_rtranclp_into_rtranclp rtranclp.rtrancl_refl)
  moreover have "po_at ?s3 2 = PLocked 0" "po_at ?s3 3 = PLocked 1"
    by (simp_all add: po_init_def po_open_def po_acquire_def po_close_def po_remove_def Let_def)
  ultimately show "\<exists>s. (po_step True)\<^sup>*\<^sup>* po_init s \<and> po_at s 2 = PLocked 0 \<and> po_at s 3 = PLocked 1" by blast
qed

theorem one_instance_witness:
  "\<exists>s. (po_step False)\<^sup>*\<^sup>* po_init s \<and> po_at s 5 = PLocked 0 \<and> (\<forall>q. po_at s q = PLocked 0 \<longrightarrow> 5 = q)"
proof -
  let ?s = "po_acquire 5 0 (po_open 5 po_init)"
  have "po_step False po_init (po_open 5 po_init)" by (rule po_step.OpenFile) (simp add: po_init_def)
  moreover have "po_step False (po_open 5 po_init) ?s"
    by (rule po_step.Flock) (simp_all add: po_init_def po_open_def)
  ultimately have r: "(po_step False)\<^sup>*\<^sup>* po_init ?s" by (meson converse_rtranclp_into_rtranclp rtranclp.rtrancl_refl)
  moreover have "po_at ?s 5 = PLocked 0" by (simp add: po_init_def po_open_def po_acquire_def Let_def)
  ultimately show ?thesis using one_instance [of ?s 5 0 _ 0] by blast
qed

text \<open>The file is not truncated: the digits of a longer process number that was there before stay behind the new
  one.\<close>

lemma stale_digits:
  "po_data (po_acquire 12 0 (po_init\<lparr>po_data := (\<lambda>_. ''34567'')\<rparr>)) 0 = ''12567''"
  by (simp add: po_acquire_def po_init_def Let_def FormatInt_def nat_digits.simps digit_char_def)

end
