(* ===== verification/End_To_End.thy ===== *)
theory End_To_End
  imports Pipeline Ws_Server_Props
begin

text \<open>
  The whole way of a quote: an event of the exchange reaches a handler of the receiving service, its message goes
  through the fan-out to the aggregating service, a collecting round publishes the period it belongs to, and the
  message of the period is handed to the destinations and to the clients of the WebSocket server. A step of the
  plant is a step of the pipeline or a turn of the collecting loop.
\<close>

section \<open>The plant\<close>

record plant =
  pl_ch :: msg_chan
  pl_ctl :: controller
  pl_ws :: "WsServer option"
  pl_posts :: "post list"

text \<open>What both services are configured with: the encoders of the receiver, its sockets, the address the aggregator listens
  on, and the decoder, encoders, settings and producers of the aggregator.\<close>

record 'f plant_env =
  pe_en :: "'f encoders"
  pe_socks :: "string list"
  pe_addr :: string
  pe_gob_decode :: "bytes \<Rightarrow> Message option"
  pe_float :: "string \<Rightarrow> 'f option"
  pe_marshal :: "'f PeriodMessage \<Rightarrow> bytes option"
  pe_zlib :: "bytes \<Rightarrow> bytes option"
  pe_cfg :: "'f aggr_config"
  pe_g :: aggr_globals
  pe_producers :: "Producer list"

datatype plant_event =
    PPipe schedule
  | PCollect clocks "string list" "string list" "string list"

text \<open>\<open>None\<close> where a channel blocks.\<close>

fun plant_step :: "'f::zero plant_env \<Rightarrow> plant \<Rightarrow> plant_event \<Rightarrow> plant go option" where
  "plant_step env s (PPipe e) =
     (case pipe_step (pe_en env) (pe_gob_decode env) (pe_g env) (pe_socks env) (pe_addr env) e (pl_ch s, pl_ctl s) of
        None \<Rightarrow> None
      | Some (ch, c) \<Rightarrow> Some (Inr (s\<lparr>pl_ch := ch, pl_ctl := c\<rparr>)))"
| "plant_step env s (PCollect ck friends names receivers) =
     (case collect_turn (pe_float env) (pe_marshal env) (pe_zlib env) (pe_cfg env) (pe_g env) ck friends names receivers
             (pe_producers env) (pl_ctl s) (pl_ws s) of
        None \<Rightarrow> None
      | Some (Inl p) \<Rightarrow> Some (Inl p)
      | Some (Inr (c, posts, ws)) \<Rightarrow> Some (Inr (s\<lparr>pl_ctl := c, pl_ws := ws, pl_posts := pl_posts s @ posts\<rparr>)))"

fun plant_run :: "'f::zero plant_env \<Rightarrow> plant \<Rightarrow> plant_event list \<Rightarrow> plant go option" where
  "plant_run env s [] = Some (Inr s)"
| "plant_run env s (e # es) =
     (case plant_step env s e of
        None \<Rightarrow> None
      | Some (Inl p) \<Rightarrow> Some (Inl p)
      | Some (Inr s') \<Rightarrow> plant_run env s' es)"

section \<open>Lemmas\<close>

text \<open>A run of the pipeline inside the plant.\<close>

lemma plant_run_pipe:
  "plant_run env s (map PPipe es) = Some (Inr s') \<Longrightarrow>
   pipe_run (pe_en env) (pe_gob_decode env) (pe_g env) (pe_socks env) (pe_addr env) es (pl_ch s, pl_ctl s) =
     Some (pl_ch s', pl_ctl s') \<and> pl_ws s' = pl_ws s \<and> pl_posts s' = pl_posts s"
proof (induction es arbitrary: s)
  case (Cons e es)
  from Cons.prems obtain ch c where step:
    "pipe_step (pe_en env) (pe_gob_decode env) (pe_g env) (pe_socks env) (pe_addr env) e (pl_ch s, pl_ctl s) = Some (ch, c)"
    "plant_run env (s\<lparr>pl_ch := ch, pl_ctl := c\<rparr>) (map PPipe es) = Some (Inr s')"
    by (auto split: option.splits)
  with Cons.IH [OF step(2)] show ?case by simp
qed simp

text \<open>The keys of the trades in the front slot of a symbol.\<close>

definition front_key :: "string \<Rightarrow> SymbolDef \<Rightarrow> bool" where
  "front_key k s \<longleftrightarrow>
     (case pb_slots (trade_view s) of [] \<Rightarrow> False | (a, b, xs) # _ \<Rightarrow> k \<in> QuoteTrade_GetId ` set xs)"

lemma front_key_put_trade: "sd_wf s \<Longrightarrow> front_key k s \<Longrightarrow> front_key k (put_trade g s t)"
  by (cases "trade_view s" rule: buf_cases)
    (auto simp: front_key_def put_trade_view abs_put_def)

lemma front_key_put_other:
  "sd_wf s \<Longrightarrow> front_key k (put_inc g s i) = front_key k s" "sd_wf s \<Longrightarrow> front_key k (put_snapshot g s q) = front_key k s"
  by (simp_all add: front_key_def put_other_views)

lemma front_key_new:
  assumes wf: "sd_wf s" and w: "windows s = [(a, b), (b', d)]"
    and t: "i64 (a - PERIOD g) \<le> qt_Time t" "qt_Time t < b" "qt_Time t < i64 (d + 10000)"
  shows "front_key (QuoteTrade_GetId t) (put_trade g s t)"
proof -
  from wf w obtain fn bn where c: "contents (linked s) = [fn, bn]" and nw: "node_wf fn"
    and ab: "pn_start fn = a" "pn_end fn = b" "pn_start bn = b'" "pn_end bn = d"
    by (cases rule: sd_wf_cases) (auto simp: windows_def)
  have "front_has trademap s (QuoteTrade_GetId t) \<longleftrightarrow> QuoteTrade_GetId t \<in> QuoteTrade_GetId ` set (tradeindex fn)"
    using node_wf_keys(1) [OF nw, of t] by (auto simp: front_has_def c)
  moreover have "trade_view s =
      \<lparr>pb_slots = [(a, b, tradeindex fn), (b', d, tradeindex bn)], pb_pending = contents (pending_trade s)\<rparr>"
    by (simp add: trade_view_def c trade_slot_def ab)
  ultimately show ?thesis using t by (auto simp: front_key_def put_trade_view [OF wf] abs_put_def)
qed

text \<open>A controller that holds a trade of the key \<open>k\<close> for the front period of \<open>name\<close>.\<close>

definition held :: "string \<Rightarrow> string \<Rightarrow> controller \<Rightarrow> bool" where
  "held k name c \<longleftrightarrow> (case periodSymbols c name of None \<Rightarrow> False | Some s \<Rightarrow> front_key k s)"

lemmas on_quote_defs = onQuoteTrade_def onQuoteOrderbookInc_def onQuoteSnapShot_def

lemma observe_all_in:
  assumes "all_in w (periodSymbols c)"
  shows "all_in w (periodSymbols (observe g ev c)) \<and> dom (periodSymbols (observe g ev c)) = dom (periodSymbols c)"
  using assms
  by (cases ev; cases "case ev of EvSnapShot _ r \<Rightarrow> r | _ \<Rightarrow> None")
    (auto simp: on_quote_defs all_in_def put_wf put_windows split: option.splits)

lemma observe_held:
  assumes "all_in w (periodSymbols c)" and "held k name c"
  shows "held k name (observe g ev c)"
  using assms
  by (cases ev; cases "case ev of EvSnapShot _ r \<Rightarrow> r | _ \<Rightarrow> None")
    (auto simp: on_quote_defs held_def all_in_def front_key_put_trade front_key_put_other split: option.splits)

lemma observe_trade_held:
  assumes "all_in [(a, b), (b', d)] (periodSymbols c)" and "te_Symbol e \<in> dom (periodSymbols c)"
    and "i64 (a - PERIOD g) \<le> te_Time e" and "te_Time e < b" and "te_Time e < i64 (d + 10000)"
  shows "held (FormatInt (te_TradeID e)) (te_Symbol e) (observe g (EvTrade e) c)"
proof -
  from assms(2) obtain s where s: "periodSymbols c (te_Symbol e) = Some s" by auto
  with assms(1) have "sd_wf s" "windows s = [(a, b), (b', d)]" by (simp_all add: all_in_def)
  from front_key_new [OF this, of g "trade_of e"] assms(3-5) s show ?thesis
    by (simp add: held_def onQuoteTrade_def trade_of_def QuoteTrade_GetId_def)
qed

lemma arrivals_held:
  assumes "all_in [(a, b), (b', d)] (periodSymbols c)" and "EvTrade e \<in> set evs" and "te_Symbol e \<in> dom (periodSymbols c)"
    and "i64 (a - PERIOD g) \<le> te_Time e" and "te_Time e < b" and "te_Time e < i64 (d + 10000)"
  shows "held (FormatInt (te_TradeID e)) (te_Symbol e) (fold (observe g) evs c)"
proof -
  have keep: "held k name (fold (observe g) evs c)" if "all_in w (periodSymbols c)" "held k name c" for k name w evs c
    using that by (induction evs arbitrary: c) (simp_all add: observe_held observe_all_in)
  show ?thesis using assms(1-3)
  proof (induction evs arbitrary: c)
    case (Cons ev evs)
    note inv = observe_all_in [OF Cons.prems(1), of g ev]
    show ?case
    proof (cases "ev = EvTrade e")
      case True
      with observe_trade_held [OF Cons.prems(1,3) assms(4-6)] inv keep show ?thesis by fastforce
    next
      case False
      with Cons.IH [of "observe g ev c"] inv Cons.prems show ?thesis by auto
    qed
  qed simp
qed

lemma observe_all_all_in:
  "all_in w (periodSymbols c) \<Longrightarrow>
     all_in w (periodSymbols (fold (observe g) evs c)) \<and> dom (periodSymbols (fold (observe g) evs c)) = dom (periodSymbols c)"
proof (induction evs arbitrary: c)
  case (Cons ev evs)
  with observe_all_in [OF Cons.prems, of g ev] show ?case by auto
qed simp

text \<open>The round that closes the front period publishes what is held for it.\<close>

lemma held_detached:
  assumes wf: "sd_wf s" and w: "windows s = [(a, b), (b', d)]" and late: "i64 (b + DETACH_TIME g) < now" and k: "front_key k s"
  shows "\<exists>n. detached g now born s = Some n \<and> pn_start n = a \<and> k \<in> QuoteTrade_GetId ` set (tradeindex n)"
proof -
  from wf w obtain fn bn where c: "contents (linked s) = [fn, bn]"
    and ab: "pn_start fn = a" "pn_end fn = b" "pn_start bn = b'" "pn_end bn = d"
    by (cases rule: sd_wf_cases) (auto simp: windows_def)
  from detach_two [OF wf c, of g] obtain s' out where
    d: "detach g s = Inr (s', out)" "pn_start out = a"
      "tradeindex out = add_hit QuoteTrade_GetId (tradeindex fn) (pend_hit qt_Time a b (contents (pending_trade s)))"
    using ab by auto
  then have "detached g now born s = Some out"
    using timeItr_two [OF wf c, of g now born] late ab(2) by (simp add: detached_def)
  moreover have "k \<in> QuoteTrade_GetId ` set (tradeindex fn)"
    using k by (simp add: front_key_def trade_view_def c trade_slot_def)
  then have "k \<in> QuoteTrade_GetId ` set (tradeindex out)"
    using d(3) by (auto simp: add_hit_def split: option.splits)
  ultimately show ?thesis using d(2) by blast
qed

lemma held_published:
  assumes "PERIOD g \<noteq> 0" and "all_in [(a, b), (b', d)] (periodSymbols c)"
    and "range_order friends (periodSymbols c)" and "range_order names (periodSymbols c)"
    and "i64 (b + DETACH_TIME g) < ck_now ck" and "held (FormatInt tid) name c"
  shows "\<exists>c' pm si. collect_round pf cfg g ck friends names c = Inr (c', Publish pm) \<and> pm_Ts pm = a \<and>
    si \<in> set (pm_SymbolInfos pm) \<and> sy_Symbol si = name \<and> tid \<in> ti_TradeId ` set (sy_Trades si)"
proof -
  let ?w = "[(a, b), (b', d)]" and ?m = "periodSymbols c" and ?now = "ck_now ck"
  let ?born = "round_born g ck ?w"
  from assms(2,6) obtain s where s: "?m name = Some s" "sd_wf s" "windows s = ?w" "front_key (FormatInt tid) s"
    by (auto simp: held_def all_in_def split: option.splits)
  from held_detached [OF s(2,3) assms(5) s(4)] obtain n where
    n: "detached g ?now ?born s = Some n" "pn_start n = a" "FormatInt tid \<in> QuoteTrade_GetId ` set (tradeindex n)" by blast
  let ?si = "MarshallPb pf n (NewSymbolInfo\<lparr>sy_Symbol := name\<rparr>)"
  have "tradeindex n \<noteq> []" using n(3) by auto
  then have "symbol_infos pf (SkipEmptyQuote cfg) g ?now ?born ?m name = [?si]"
    using s(1) n(1) by (simp add: symbol_infos_def)
  moreover have "name \<in> set names" using s(1) assms(4) by (auto simp: range_order_def)
  ultimately have si: "?si \<in> set (round_infos pf cfg g ?now ?born ?m names)"
    unfolding round_infos_def by force
  moreover have "snd (tick_windows g ?now ?born ?w) = Some (a, b)"
    using assms(5) by (simp add: tick_windows_def close_windows_def)
  moreover have "tid \<in> ti_TradeId ` set (sy_Trades ?si)"
    using n(3) by (auto simp: QuoteTrade_GetId_def MarshallPb_def trade_info_def image_image)
  ultimately show ?thesis
    unfolding collect_round_eq [OF assms(1-4) refl] Let_def by (force simp: NewSymbolInfo_def)
qed

section \<open>Properties\<close>

text \<open>A plant whose two ends fit: the receiver encodes with \<open>gob\<close> and sends to the address the aggregator listens on, the
  producers are those of usable destinations, and every message of a period can be marshalled.\<close>

definition plant_fits :: "bool \<Rightarrow> (string \<Rightarrow> bool) \<Rightarrow> FanOutDestination list \<Rightarrow> 'f plant_env \<Rightarrow> bool" where
  "plant_fits new_sock connect fss env \<longleftrightarrow>
     ToUpper (en_type (pe_en env)) = ''GOB'' \<and> \<not> en_compressed (pe_en env) \<and>
     pe_addr env \<in> set (pe_socks env) \<and> distinct (pe_socks env) \<and> PERIOD (pe_g env) \<noteq> 0 \<and>
     (\<forall>fs\<in>set fss. usable new_sock connect fs) \<and> pe_producers env = map producer_of fss"

definition clients_ready :: "string list \<Rightarrow> WsServer \<Rightarrow> bool" where
  "clients_ready receivers ws \<longleftrightarrow> ws_wf ws \<and> range_order receivers (clients ws) \<and>
     (\<forall>p c. p \<in> ran (clients ws) \<and> heap ws p = Some c \<longrightarrow> length (wc_live c) < live_cap)"

lemma collect_step_delivers:
  assumes "plant_fits new_sock connect fss env" and "clients_ready receivers ws" and "pl_ws s = Some ws"
    and "collect_round (pe_float env) (pe_cfg env) (pe_g env) ck friends names (pl_ctl s) = Inr (c', Publish pm)"
    and "pe_marshal env pm = Some bs"
    and d: "NewWsSendData (pe_marshal env) (pe_zlib env) (CompressData (ws_config ws)) pm = Some d"
  shows "\<exists>s' ws'. plant_step env s (PCollect ck friends names receivers) = Some (Inr s') \<and>
    pl_posts s' = pl_posts s @ map (post_of bs) fss \<and> pl_ws s' = Some ws' \<and>
    (\<forall>p c. p \<in> ran (clients ws) \<and> heap ws p = Some c \<longrightarrow> heap ws' p = Some (c\<lparr>wc_live := wc_live c @ [d]\<rparr>))"
proof -
  have ready: "ws_wf ws" "range_order receivers (clients ws)"
    "\<And>p c. p \<in> ran (clients ws) \<Longrightarrow> heap ws p = Some c \<Longrightarrow> length (wc_live c) < live_cap"
    using assms(2) unfolding clients_ready_def by blast+
  obtain ws' where ws': "enqueue (pe_marshal env) (pe_zlib env) receivers pm ws = Some ws'"
    using enqueue_room [OF ready(1,2)] ready(3) by blast
  have fss: "\<forall>fs\<in>set fss. usable new_sock connect fs" "pe_producers env = map producer_of fss"
    using assms(1) by (simp_all add: plant_fits_def)
  have "FanOutManager_send (pe_marshal env) (pe_producers env) pm = Inr (map (post_of bs) fss)"
    using send_all_usable [OF fss(1)] fss(2) collect_round_publishes_some [OF assms(4)] assms(5)
    by (simp add: FanOutManager_send_def)
  then show ?thesis
    using assms(3,4) ws' enqueue_live [OF ready(1,2) d ws'] by (simp add: collect_turn_def)
qed


definition demo_plant_env :: "int plant_env" where
  "demo_plant_env =
     \<lparr>pe_en = demo_en ''gob'', pe_socks = [''a'', ''b''], pe_addr = ''b'', pe_gob_decode = demo_gob_decode,
      pe_float = (\<lambda>s. if s = [] then None else Some 1), pe_marshal = demo_marshal, pe_zlib = Some,
      pe_cfg = demo_cfg True, pe_g = demo_g, pe_producers = map producer_of (enabled demo_servers)\<rparr>"

definition demo_arrivals :: "schedule list" where
  "demo_arrivals = [Arrive (EvTrade demo_trade_event), Pump]"

lemma demo_plant_fits: "plant_fits True (\<lambda>_. True) (enabled demo_servers) demo_plant_env"
  using demo_type by (simp add: plant_fits_def demo_plant_env_def demo_servers_def usable_def demo_g_ok(2))

text \<open>The controller of the plant after its first two rounds: two symbols, each with two empty periods.\<close>

lemma demo_open_periods:
  "\<exists>c :: controller. all_in [(grid demo_g 0, grid demo_g 1), (grid demo_g 1, grid demo_g 2)] (periodSymbols c) \<and>
     dom (periodSymbols c) = set demo_names"
proof -
  let ?es = "[demo_collect 0, demo_collect 200]"
  have "list_all (ctl_event_ok (set demo_names)) ?es" by code_simp
  from ctl_run_inv [OF demo_g_ok(1) this updateAggrSymbols_inv [of _ _ 0] refl] obtain w k c outs where
    r: "demo_ctl_run True ?es = Inr (c, outs)" "ctl_inv demo_g (set demo_names) w k c"
    unfolding demo_ctl_run_def demo_controller_def by blast
  have "case demo_ctl_run True ?es of
      Inr (c, _) \<Rightarrow> map_option windows (periodSymbols c ''BTCUSDT'') = Some
        [(grid demo_g 0, grid demo_g 1), (grid demo_g 1, grid demo_g 2)]
    | _ \<Rightarrow> False" by code_simp
  with r have "w = [(grid demo_g 0, grid demo_g 1), (grid demo_g 1, grid demo_g 2)]"
    by (auto simp: ctl_inv_def all_in_def)
  with r(2) show ?thesis unfolding ctl_inv_def by blast
qed

lemma demo_plant_run:
  assumes "pl_ch s = []"
  shows "\<exists>s1. plant_run demo_plant_env s (map PPipe demo_arrivals) = Some (Inr s1) \<and> pl_ch s1 = []"
proof -
  have "OnWsTradeEvent demo_trade_event [] = Some [demo_message]"
    by (simp add: OnWsTradeEvent_def chan_send_empty demo_message_def trade_of_def)
  then show ?thesis
    using assms by (simp add: demo_arrivals_def demo_plant_env_def pump_gob [OF demo_type _ _ demo_gob])
qed


end
