(* ===== verification/Aggr_Interleave.thy ===== *)
theory Aggr_Interleave
  imports Aggr_Collect_Props
begin

text \<open>
  The two goroutines of the aggregator side by side. A round of \<open>timedPeriodCollect\<close> holds \<open>psMtx\<close> for reading, which
  keeps out nobody but a writer: while it visits the symbols one after the other, \<open>quoteDataRecvHandler\<close> goes
  on filing quotes. Only the visit of one symbol (\<open>timeItr\<close> under the mutex of the symbol) and the filing of one
  quote exclude each other. The rounds below have one step per visit and one per quote; the theory shows
  that they do what the undivided rounds of \<open>Aggr_Controller\<close> do.
\<close>

section \<open>Rounds with quotes in between\<close>

datatype 'b round_item = Visit string | Quote 'b

text \<open>The loop over the symbols: a \<open>Visit\<close> is one turn of it, a \<open>Quote\<close> is one turn of \<open>quoteDataRecvHandler\<close>.\<close>

fun collect_mixed ::
  "('b \<Rightarrow> Message option) \<Rightarrow> (string \<Rightarrow> 'f option) \<Rightarrow> bool \<Rightarrow> aggr_globals \<Rightarrow> int \<Rightarrow> int \<Rightarrow> 'b round_item list \<Rightarrow>
     controller \<Rightarrow> 'f::zero PeriodMessage \<Rightarrow> (controller \<times> 'f PeriodMessage) go" where
  "collect_mixed gob pf skip g now bornTs [] c pm = Inr (c, pm)"
| "collect_mixed gob pf skip g now bornTs (Visit name # items) c pm =
     (case collect_symbols pf skip g now bornTs [name] (periodSymbols c) pm of
        Inl p \<Rightarrow> Inl p
      | Inr (m, pm') \<Rightarrow> collect_mixed gob pf skip g now bornTs items (c\<lparr>periodSymbols := m\<rparr>) pm')"
| "collect_mixed gob pf skip g now bornTs (Quote data # items) c pm =
     collect_mixed gob pf skip g now bornTs items (onQuoteDataRecv gob g data c) pm"

text \<open>What follows the loop.\<close>

definition finish_round ::
  "'f aggr_config \<Rightarrow> aggr_globals \<Rightarrow> clocks \<Rightarrow> controller \<Rightarrow> 'f::zero PeriodMessage \<Rightarrow> controller \<times> 'f collect_out" where
  "finish_round cfg g ck c pm =
     (if pm_SymbolInfos pm = []
      then (c, if MonEnable cfg \<and> 20 < i64 (ck_sec2 ck - last_period_ts c) then EmptyQuoteAlert else Nothing)
      else (c\<lparr>last_period_ts := ck_sec2 ck\<rparr>,
            Publish (pm\<lparr>pm_Period := i64 (period_of g (ck_sec ck) - 1),
                        pm_PosterId := ThunderId cfg, pm_PostTs := ck_post ck\<rparr>)))"

definition mixed_round ::
  "('b \<Rightarrow> Message option) \<Rightarrow> (string \<Rightarrow> 'f option) \<Rightarrow> 'f aggr_config \<Rightarrow> aggr_globals \<Rightarrow> clocks \<Rightarrow> string list \<Rightarrow>
     'b round_item list \<Rightarrow> controller \<Rightarrow> (controller \<times> 'f::zero collect_out) go" where
  "mixed_round gob pf cfg g ck friends items c =
     (if PERIOD g = 0 then Inl DivideByZero
      else
        (case collect_mixed gob pf (SkipEmptyQuote cfg) g (ck_now ck)
                (friend_born (periodSymbols c) friends (born_of g (ck_sec ck))) items c NewPeriodMessage of
           Inl p \<Rightarrow> Inl p
         | Inr (c', pm) \<Rightarrow> Inr (finish_round cfg g ck c' pm)))"

datatype 'b mix_event = MRecv 'b | MRound clocks "string list" "'b round_item list"

fun mix_step ::
  "('b \<Rightarrow> Message option) \<Rightarrow> (string \<Rightarrow> 'f option) \<Rightarrow> 'f aggr_config \<Rightarrow> aggr_globals \<Rightarrow> controller \<Rightarrow>
     'b mix_event \<Rightarrow> (controller \<times> 'f::zero PeriodMessage option) go" where
  "mix_step gob pf cfg g c (MRecv data) = Inr (onQuoteDataRecv gob g data c, None)"
| "mix_step gob pf cfg g c (MRound ck friends items) =
     (case mixed_round gob pf cfg g ck friends items c of
        Inl p \<Rightarrow> Inl p
      | Inr (c', Publish pm) \<Rightarrow> Inr (c', Some pm)
      | Inr (c', _) \<Rightarrow> Inr (c', None))"

definition mix_run ::
  "('b \<Rightarrow> Message option) \<Rightarrow> (string \<Rightarrow> 'f option) \<Rightarrow> 'f aggr_config \<Rightarrow> aggr_globals \<Rightarrow> controller \<Rightarrow>
     'b mix_event list \<Rightarrow> (controller \<times> 'f::zero PeriodMessage list) go" where
  "mix_run gob pf cfg g = go_run (mix_step gob pf cfg g)"

section \<open>The order without interleaving\<close>

text \<open>The symbol a message is for, and what it does to it.\<close>

definition quote_target :: "('b \<Rightarrow> Message option) \<Rightarrow> 'b \<Rightarrow> string option" where
  "quote_target gob data =
     (case gob data of
        None \<Rightarrow> None
      | Some msg \<Rightarrow>
          if msg_Type msg \<noteq> MessageType_Quote then None
          else
            (case msg_Payload msg of
               Payload_Other \<Rightarrow> None
             | Payload_Quote quote \<Rightarrow>
                 (case qm_Data quote of
                    Data_OrbIncr inc \<Rightarrow> if qm_Type quote = QuoteDataType_OrderIncrement then Some (qi_Symbol inc) else None
                  | Data_Trade trade \<Rightarrow> if qm_Type quote = QuoteDataType_Trade then Some (qt_Symbol trade) else None
                  | Data_SnapShot snap \<Rightarrow> if qm_Type quote = QuoteDataType_SnapShot then Some (qs_Symbol snap) else None
                  | _ \<Rightarrow> None)))"

definition quote_put :: "('b \<Rightarrow> Message option) \<Rightarrow> aggr_globals \<Rightarrow> 'b \<Rightarrow> SymbolDef \<Rightarrow> SymbolDef" where
  "quote_put gob g data s =
     (case gob data of
        None \<Rightarrow> s
      | Some msg \<Rightarrow>
          (case msg_Payload msg of
             Payload_Other \<Rightarrow> s
           | Payload_Quote quote \<Rightarrow>
               (case qm_Data quote of
                  Data_OrbIncr inc \<Rightarrow> put_inc g s inc
                | Data_Trade trade \<Rightarrow> put_trade g s trade
                | Data_SnapShot snap \<Rightarrow> put_snapshot g s snap
                | _ \<Rightarrow> s)))"

fun visits :: "'b round_item list \<Rightarrow> string list" where
  "visits [] = []"
| "visits (Visit name # items) = name # visits items"
| "visits (Quote data # items) = visits items"

fun quotes :: "'b round_item list \<Rightarrow> 'b list" where
  "quotes [] = []"
| "quotes (Visit name # items) = quotes items"
| "quotes (Quote data # items) = data # quotes items"

text \<open>The quotes of a round whose symbol is still to be visited, and the others.\<close>

fun early :: "('b \<Rightarrow> Message option) \<Rightarrow> 'b round_item list \<Rightarrow> 'b list" where
  "early gob [] = []"
| "early gob (Visit name # items) = early gob items"
| "early gob (Quote data # items) =
     (if quote_target gob data \<in> Some ` set (visits items) then data # early gob items else early gob items)"

fun late :: "('b \<Rightarrow> Message option) \<Rightarrow> 'b round_item list \<Rightarrow> 'b list" where
  "late gob [] = []"
| "late gob (Visit name # items) = late gob items"
| "late gob (Quote data # items) =
     (if quote_target gob data \<in> Some ` set (visits items) then late gob items else data # late gob items)"

fun linear :: "('b \<Rightarrow> Message option) \<Rightarrow> 'b mix_event \<Rightarrow> 'b ctl_event list" where
  "linear gob (MRecv data) = [Recv data]"
| "linear gob (MRound ck friends items) =
     map Recv (early gob items) @ [Collect ck friends (visits items)] @ map Recv (late gob items)"

definition linearize :: "('b \<Rightarrow> Message option) \<Rightarrow> 'b mix_event list \<Rightarrow> 'b ctl_event list" where
  "linearize gob es = concat (map (linear gob) es)"

text \<open>The messages of a run, in their order.\<close>

fun mix_quotes :: "'b mix_event \<Rightarrow> 'b list" where
  "mix_quotes (MRecv data) = [data]"
| "mix_quotes (MRound ck friends items) = quotes items"

fun ctl_quotes :: "'b ctl_event \<Rightarrow> 'b list" where
  "ctl_quotes (Recv data) = [data]"
| "ctl_quotes (Collect ck friends names) = []"

section \<open>Lemmas\<close>

text \<open>A change of one entry of a map.\<close>

definition at_key :: "'k \<Rightarrow> ('v \<Rightarrow> 'v) \<Rightarrow> ('k \<rightharpoonup> 'v) \<Rightarrow> ('k \<rightharpoonup> 'v)" where
  "at_key k f m = m(k := map_option f (m k))"

lemma at_key_other [simp]: "n \<noteq> k \<Longrightarrow> at_key k f m n = m n"
  by (simp add: at_key_def)

lemma at_key_commute: "k \<noteq> l \<Longrightarrow> at_key k f (at_key l h m) = at_key l h (at_key k f m)"
  by (simp add: at_key_def fun_upd_twist)

definition recv_map :: "('b \<Rightarrow> Message option) \<Rightarrow> aggr_globals \<Rightarrow> 'b \<Rightarrow> (string \<rightharpoonup> SymbolDef) \<Rightarrow> (string \<rightharpoonup> SymbolDef)" where
  "recv_map gob g data =
     (case quote_target gob data of None \<Rightarrow> id | Some k \<Rightarrow> at_key k (quote_put gob g data))"

lemma onQuoteDataRecv_at: "onQuoteDataRecv gob g data c = c\<lparr>periodSymbols := recv_map gob g data (periodSymbols c)\<rparr>"
  by (auto simp: onQuoteDataRecv_def recv_map_def quote_target_def quote_put_def at_key_def fun_eq_iff onQuoteDepth_def
      onQuoteTrade_def onQuoteOrderbookInc_def onQuoteSnapShot_def
      split: option.splits Payload.splits QuoteData.splits)

lemma fold_recv: "fold (onQuoteDataRecv gob g) ds c = c\<lparr>periodSymbols := fold (recv_map gob g) ds (periodSymbols c)\<rparr>"
  by (induction ds arbitrary: c) (simp_all add: onQuoteDataRecv_at)

lemma recv_map_commute:
  "quote_target gob d \<noteq> quote_target gob d' \<Longrightarrow>
   recv_map gob g d (recv_map gob g d' m) = recv_map gob g d' (recv_map gob g d m)"
  by (auto simp: recv_map_def at_key_commute split: option.splits)

lemma fold_recv_commute:
  "\<forall>d'\<in>set ds. quote_target gob d \<noteq> quote_target gob d' \<Longrightarrow>
   fold (recv_map gob g) ds (recv_map gob g d m) = recv_map gob g d (fold (recv_map gob g) ds m)"
proof (induction ds arbitrary: m)
  case (Cons d' ds)
  then have "recv_map gob g d' (recv_map gob g d m) = recv_map gob g d (recv_map gob g d' m)"
    by (intro recv_map_commute) auto
  with Cons show ?case by simp
qed simp

text \<open>A visit reads and writes the entry of its symbol only.\<close>

abbreviation on_symbols :: "('m \<Rightarrow> 'm) \<Rightarrow> ('m \<times> 'p) go \<Rightarrow> ('m \<times> 'p) go" where
  "on_symbols h \<equiv> map_sum id (map_prod h id)"

lemma collect_at_key:
  "k \<notin> set names \<Longrightarrow>
   collect_symbols pf skip g now born names (at_key k f m) pm =
     on_symbols (at_key k f) (collect_symbols pf skip g now born names m pm)"
proof (induction names arbitrary: m pm)
  case (Cons name names)
  have upd: "(at_key k f m)(name \<mapsto> s) = at_key k f (m(name \<mapsto> s))" for s m
    using Cons.prems by (auto simp: at_key_def fun_eq_iff)
  from Cons show ?case by (auto simp: upd Let_def split: option.splits sum.splits)
qed simp

lemma collect_recv:
  "quote_target gob d \<notin> Some ` set names \<Longrightarrow>
   collect_symbols pf skip g now born names (recv_map gob g d m) pm =
     on_symbols (recv_map gob g d) (collect_symbols pf skip g now born names m pm)"
  by (cases "quote_target gob d") (auto simp: recv_map_def sum.map_id0 prod.map_id0 intro!: collect_at_key)

lemma collect_fold_recv:
  "\<forall>d\<in>set ds. quote_target gob d \<notin> Some ` set names \<Longrightarrow>
   collect_symbols pf skip g now born names (fold (recv_map gob g) ds m) pm =
     on_symbols (fold (recv_map gob g) ds) (collect_symbols pf skip g now born names m pm)"
proof (induction ds arbitrary: m)
  case (Cons d ds)
  then show ?case
    by (cases "collect_symbols pf skip g now born names m pm") (auto simp: collect_recv)
qed (simp add: sum.map_id0 prod.map_id0)

lemma collect_symbols_Cons:
  "collect_symbols pf skip g now born (name # names) m pm =
     (case collect_symbols pf skip g now born [name] m pm of
        Inl p \<Rightarrow> Inl p | Inr (m', pm') \<Rightarrow> collect_symbols pf skip g now born names m' pm')"
  by (auto simp: Let_def split: option.splits sum.splits prod.splits)

lemma early_targets: "d \<in> set (early gob items) \<Longrightarrow> quote_target gob d \<in> Some ` set (visits items)"
  by (induction gob items rule: early.induct) (auto split: if_splits)

text \<open>The loop: the early quotes first, then all visits, then the late quotes.\<close>

lemma collect_mixed_linear:
  "distinct (visits items) \<Longrightarrow>
   collect_mixed gob pf skip g now born items c pm =
     (case collect_symbols pf skip g now born (visits items) (fold (recv_map gob g) (early gob items) (periodSymbols c)) pm of
        Inl p \<Rightarrow> Inl p
      | Inr (m, pm') \<Rightarrow> Inr (c\<lparr>periodSymbols := fold (recv_map gob g) (late gob items) m\<rparr>, pm'))"
proof (induction items arbitrary: c pm)
  case Nil
  then show ?case by simp
next
  case (Cons item items)
  show ?case
  proof (cases item)
    case (Visit name)
    have "\<forall>d\<in>set (early gob items). quote_target gob d \<notin> Some ` set [name]"
      using Cons.prems Visit early_targets by fastforce
    note comm = collect_fold_recv [OF this, of pf skip g now born]
    show ?thesis
      using Cons.prems
      by (simp only: Visit collect_mixed.simps visits.simps early.simps late.simps
          collect_symbols_Cons [of _ _ _ _ _ name "visits items"] comm)
        (auto simp: Cons.IH split: sum.splits)
  next
    case (Quote data)
    show ?thesis
    proof (cases "quote_target gob data \<in> Some ` set (visits items)")
      case True
      with Cons Quote show ?thesis by (auto simp: onQuoteDataRecv_at split: sum.splits)
    next
      case False
      have "\<forall>d\<in>set (early gob items). quote_target gob data \<noteq> quote_target gob d"
        using early_targets [of _ gob items] False by metis
      with False Cons Quote show ?thesis
        by (auto simp: onQuoteDataRecv_at fold_recv_commute collect_recv split: sum.splits)
    qed
  qed
qed

section \<open>Rounds and runs\<close>

text \<open>Quotes leave the windows and the well-formedness of the symbols alone.\<close>

lemma quote_put_wf:
  assumes "sd_wf s"
  shows "sd_wf (quote_put gob g d s) \<and> windows (quote_put gob g d s) = windows s"
  using assms by (auto simp: quote_put_def put_wf put_windows split: option.splits Payload.splits QuoteData.splits)

definition same_windows :: "(string \<rightharpoonup> SymbolDef) \<Rightarrow> (string \<rightharpoonup> SymbolDef) \<Rightarrow> bool" where
  "same_windows m m' \<longleftrightarrow> (\<forall>n. map_option windows (m n) = map_option windows (m' n))"

lemma recv_map_wf: "all_wf m \<Longrightarrow> all_wf (recv_map gob g d m) \<and> same_windows m (recv_map gob g d m)"
proof (cases "quote_target gob d")
  case (Some k)
  assume wf: "all_wf m"
  have put: "sd_wf (quote_put gob g d s) \<and> windows (quote_put gob g d s) = windows s" if "m k = Some s" for s
    using that wf by (intro quote_put_wf) (simp add: all_wf_def)
  show ?thesis
  proof (cases "m k")
    case None
    then have "recv_map gob g d m = m" by (simp add: recv_map_def Some at_key_def fun_upd_idem)
    with wf show ?thesis by (simp add: same_windows_def)
  next
    case (Some s)
    then have "recv_map gob g d m = m(k \<mapsto> quote_put gob g d s)"
      by (simp add: recv_map_def \<open>quote_target gob d = Some k\<close> at_key_def)
    with wf put [OF Some] Some show ?thesis by (simp add: all_wf_def same_windows_def)
  qed
qed (simp_all add: recv_map_def same_windows_def)

lemma fold_recv_wf:
  "all_wf m \<Longrightarrow> all_wf (fold (recv_map gob g) ds m) \<and> same_windows m (fold (recv_map gob g) ds m)"
proof (induction ds arbitrary: m)
  case (Cons d ds)
  with recv_map_wf [OF Cons.prems, of gob g d] show ?case by (auto simp: same_windows_def)
qed (simp add: same_windows_def)

lemma front_node_window:
  assumes "sd_wf s"
  shows "map_option (pn_start \<circ> snd) (front_node (linked s)) = (case windows s of [] \<Rightarrow> None | (a, _) # _ \<Rightarrow> Some a)"
  using assms Front_empty [of "linked s"] by (cases rule: sd_wf_cases) (auto simp: windows_def front_node_def)

lemma friend_born_cong:
  assumes "all_wf m" and "all_wf m'" and "same_windows m m'"
  shows "friend_born m friends born = friend_born m' friends born"
proof (induction friends)
  case (Cons n friends)
  have "m n = None \<longleftrightarrow> m' n = None" using assms(3) by (metis option.map_disc_iff same_windows_def)
  moreover have "map_option (pn_start \<circ> snd) (front_node (linked s)) = map_option (pn_start \<circ> snd) (front_node (linked s'))"
    if "m n = Some s" "m' n = Some s'" for s s'
  proof -
    have "windows s = windows s'" using assms(3) that by (metis option.inject option.simps(9) same_windows_def)
    with assms(1,2) that show ?thesis by (simp add: all_wf_def front_node_window)
  qed
  ultimately show ?case using Cons.IH by (force split: option.splits)
qed simp

lemma collect_round_finish:
  "collect_round pf cfg g ck friends names c =
     (if PERIOD g = 0 then Inl DivideByZero
      else
        (case collect_symbols pf (SkipEmptyQuote cfg) g (ck_now ck)
                (friend_born (periodSymbols c) friends (born_of g (ck_sec ck))) names (periodSymbols c) NewPeriodMessage of
           Inl p \<Rightarrow> Inl p
         | Inr (m, pm) \<Rightarrow> Inr (finish_round cfg g ck (c\<lparr>periodSymbols := m\<rparr>) pm)))"
  by (auto simp: collect_round_def finish_round_def split: sum.splits)

lemma finish_round_recv:
  "finish_round cfg g ck (c\<lparr>periodSymbols := h m\<rparr>) pm =
     map_prod (\<lambda>c. c\<lparr>periodSymbols := h (periodSymbols c)\<rparr>) id (finish_round cfg g ck (c\<lparr>periodSymbols := m\<rparr>) pm)"
  by (simp add: finish_round_def)

lemma mixed_round_linear:
  assumes "all_wf (periodSymbols c)" and "distinct (visits items)"
  shows "mixed_round gob pf cfg g ck friends items c =
    (case collect_round pf cfg g ck friends (visits items) (fold (onQuoteDataRecv gob g) (early gob items) c) of
       Inl p \<Rightarrow> Inl p
     | Inr (c', out) \<Rightarrow> Inr (fold (onQuoteDataRecv gob g) (late gob items) c', out))"
proof -
  note wf = fold_recv_wf [OF assms(1), of gob g "early gob items"]
  have "friend_born (periodSymbols c) friends b =
      friend_born (fold (recv_map gob g) (early gob items) (periodSymbols c)) friends b" for b
    using wf assms(1) by (intro friend_born_cong) auto
  then show ?thesis
    using finish_round_recv [where h = "fold (recv_map gob g) (late gob items)" and c = c and cfg = cfg and g = g and ck = ck]
    by (auto simp: mixed_round_def collect_round_finish collect_mixed_linear [OF assms(2)] fold_recv
        split: sum.splits prod.splits)
qed

text \<open>Every step keeps the symbols well formed.\<close>

lemma collect_symbols_wf:
  "all_wf m \<Longrightarrow> collect_symbols pf skip g now born names m pm = Inr (m', pm') \<Longrightarrow> all_wf m'"
proof (induction names arbitrary: m pm)
  case (Cons name names)
  show ?case
  proof (cases "m name")
    case (Some s)
    with Cons.prems(1) have wf: "sd_wf s" by (simp add: all_wf_def)
    define m1 where "m1 = m(name \<mapsto> ticked g now born s)"
    have "all_wf m1" using Cons.prems(1) ticked_eq(2) [OF wf] by (simp add: all_wf_def m1_def)
    moreover have "\<exists>pm1. collect_symbols pf skip g now born names m1 pm1 = Inr (m', pm')"
      using Cons.prems(2) Some ticked_eq(1) [OF wf, of g now born]
      by (auto simp: Let_def m1_def [symmetric] split: option.splits if_splits)
    ultimately show ?thesis using Cons.IH by blast
  qed (use Cons in simp)
qed simp

lemma ctl_step_wf:
  assumes "all_wf (periodSymbols c)" and "ctl_step gob pf cfg g c e = Inr (c', out)"
  shows "all_wf (periodSymbols c')"
proof (cases e)
  case (Recv data)
  with assms recv_map_wf [OF assms(1), of gob g data] show ?thesis by (auto simp: onQuoteDataRecv_at)
next
  case (Collect ck friends names)
  define r where "r = collect_symbols pf (SkipEmptyQuote cfg) g (ck_now ck)
    (friend_born (periodSymbols c) friends (born_of g (ck_sec ck))) names (periodSymbols c) NewPeriodMessage"
  have "all_wf m" if "r = Inr (m, pm)" for m pm
    using collect_symbols_wf [OF assms(1)] that unfolding r_def by blast
  with assms(2) Collect show ?thesis
    by (auto simp: collect_round_finish r_def [symmetric] finish_round_def split: if_splits sum.splits collect_out.splits)
qed

lemma ctl_run_wf:
  "all_wf (periodSymbols c) \<Longrightarrow> ctl_run gob pf cfg g c es = Inr (c', outs) \<Longrightarrow> all_wf (periodSymbols c')"
proof (induction es arbitrary: c outs)
  case (Cons e es)
  from Cons.prems(2) obtain c1 out outs' where "ctl_step gob pf cfg g c e = Inr (c1, out)"
    "ctl_run gob pf cfg g c1 es = Inr (c', outs')"
    by (auto simp: ctl_run_def split: sum.splits prod.splits option.splits)
  with Cons.IH ctl_step_wf [OF Cons.prems(1)] show ?case by blast
qed (simp add: ctl_run_def)

lemma ctl_run_recv: "ctl_run gob pf cfg g c (map Recv ds) = Inr (fold (onQuoteDataRecv gob g) ds c, [])"
  by (induction ds arbitrary: c) (simp_all add: ctl_run_def)

lemma ctl_run_append:
  "ctl_run gob pf cfg g c (es @ fs) =
     (case ctl_run gob pf cfg g c es of
        Inl p \<Rightarrow> Inl p
      | Inr (c', outs) \<Rightarrow>
          (case ctl_run gob pf cfg g c' fs of Inl p \<Rightarrow> Inl p | Inr (c'', outs') \<Rightarrow> Inr (c'', outs @ outs')))"
  by (induction es arbitrary: c) (auto simp: ctl_run_def split: sum.splits prod.splits option.splits)

lemma ctl_run_one:
  "ctl_run gob pf cfg g c [e] =
     (case ctl_step gob pf cfg g c e of
        Inl p \<Rightarrow> Inl p | Inr (c', out) \<Rightarrow> Inr (c', case out of None \<Rightarrow> [] | Some pm \<Rightarrow> [pm]))"
  by (auto simp: ctl_run_def split: sum.splits)

fun mix_event_ok :: "'b mix_event \<Rightarrow> bool" where
  "mix_event_ok (MRecv data) \<longleftrightarrow> True"
| "mix_event_ok (MRound ck friends items) \<longleftrightarrow> distinct (visits items)"

lemma mix_step_linear:
  assumes "all_wf (periodSymbols c)" and "mix_event_ok e"
  shows "ctl_run gob pf cfg g c (linear gob e) =
    (case mix_step gob pf cfg g c e of
       Inl p \<Rightarrow> Inl p | Inr (c', out) \<Rightarrow> Inr (c', case out of None \<Rightarrow> [] | Some pm \<Rightarrow> [pm]))"
proof (cases e)
  case (MRound ck friends items)
  with assms mixed_round_linear [OF assms(1), of items gob pf cfg g ck friends] show ?thesis
    by (simp only: linear.simps ctl_run_append ctl_run_recv ctl_run_one)
      (auto split: sum.splits collect_out.splits)
qed (simp add: ctl_run_def)

lemma mix_run_linear:
  "all_wf (periodSymbols c) \<Longrightarrow> list_all mix_event_ok es \<Longrightarrow>
   mix_run gob pf cfg g c es = ctl_run gob pf cfg g c (linearize gob es)"
proof (induction es arbitrary: c)
  case (Cons e es)
  have step: "ctl_run gob pf cfg g c (linear gob e) =
      (case mix_step gob pf cfg g c e of
         Inl p \<Rightarrow> Inl p | Inr (c', out) \<Rightarrow> Inr (c', case out of None \<Rightarrow> [] | Some pm \<Rightarrow> [pm]))"
    using Cons.prems by (intro mix_step_linear) simp_all
  have run: "ctl_run gob pf cfg g c (linearize gob (e # es)) =
      ctl_run gob pf cfg g c (linear gob e @ linearize gob es)" by (simp add: linearize_def)
  show ?case
  proof (cases "mix_step gob pf cfg g c e")
    case (Inl p)
    with step show ?thesis unfolding run ctl_run_append by (simp add: mix_run_def)
  next
    case (Inr r)
    then obtain c1 out where r: "mix_step gob pf cfg g c e = Inr (c1, out)" by (cases r) auto
    with step have lin: "ctl_run gob pf cfg g c (linear gob e) = Inr (c1, case out of None \<Rightarrow> [] | Some pm \<Rightarrow> [pm])" by simp
    have "all_wf (periodSymbols c1)" by (rule ctl_run_wf [OF Cons.prems(1) lin])
    with Cons have "mix_run gob pf cfg g c1 es = ctl_run gob pf cfg g c1 (linearize gob es)" by simp
    with r lin show ?thesis unfolding run ctl_run_append
      by (auto simp: mix_run_def split: sum.splits option.splits)
  qed
qed (simp add: mix_run_def ctl_run_def linearize_def)

text \<open>The quotes of each symbol keep their order.\<close>

lemma visits_unique_split:
  "quote_target gob d \<notin> Some ` set (visits items) \<Longrightarrow>
   \<forall>d'\<in>set (early gob items). quote_target gob d' \<noteq> quote_target gob d"
  using early_targets [of _ gob items] by metis

lemma early_late_order:
  "filter (\<lambda>d. quote_target gob d = k) (early gob items @ late gob items) =
     filter (\<lambda>d. quote_target gob d = k) (quotes items)"
proof (induction items)
  case (Cons item items)
  show ?case
  proof (cases item)
    case (Quote data)
    show ?thesis
    proof (cases "quote_target gob data = k \<and> quote_target gob data \<notin> Some ` set (visits items)")
      case True
      then have "filter (\<lambda>d. quote_target gob d = k) (early gob items) = []"
        using visits_unique_split [of gob data items] by (auto simp: filter_empty_conv)
      with True Cons Quote show ?thesis by simp
    next
      case False
      with Cons Quote show ?thesis by auto
    qed
  qed (use Cons in simp)
qed simp

lemma ctl_quotes_recv: "concat (map (ctl_quotes \<circ> Recv) ds) = ds"
  by (induction ds) simp_all

lemma linearize_order:
  "filter (\<lambda>d. quote_target gob d = k) (concat (map ctl_quotes (linearize gob es))) =
     filter (\<lambda>d. quote_target gob d = k) (concat (map mix_quotes es))"
proof (induction es)
  case (Cons e es)
  have "filter (\<lambda>d. quote_target gob d = k) (concat (map ctl_quotes (linear gob e))) =
      filter (\<lambda>d. quote_target gob d = k) (mix_quotes e)"
    using early_late_order [of gob k] by (cases e) (simp_all add: ctl_quotes_recv)
  with Cons show ?case by (simp add: linearize_def)
qed (simp add: linearize_def)

section \<open>Properties\<close>

text \<open>C16. Rounds are atomic in effect: from the fresh symbols of \<open>updateAggrSymbols\<close>, a run in which quotes are filed while
  the rounds visit the symbols ends in the same state, with the same published messages or the same
  panic, as the run in which each round is undivided, the quotes that came before the visit of their symbol are filed
  before it and the others after it. The quotes of each symbol are filed in the order in which they
  arrived.\<close>

theorem interleaved_rounds_linearize:
  assumes "list_all mix_event_ok es"
  shows "mix_run gob pf cfg g (updateAggrSymbols S c) es = ctl_run gob pf cfg g (updateAggrSymbols S c) (linearize gob es) \<and>
    (\<forall>k. filter (\<lambda>d. quote_target gob d = k) (concat (map ctl_quotes (linearize gob es))) =
         filter (\<lambda>d. quote_target gob d = k) (concat (map mix_quotes es)))"
proof -
  have "all_wf (periodSymbols (updateAggrSymbols S c))"
    using updateAggrSymbols_inv [of undefined S 0 c] by (auto simp: ctl_inv_def intro: all_in_wf)
  from mix_run_linear [OF this assms] linearize_order show ?thesis by blast
qed

definition demo_mix :: "Message mix_event list" where
  "demo_mix =
     [MRound (demo_clocks 0) demo_names [Visit ''BTCUSDT'', Visit ''ETHUSDT''],
      MRecv (demo_quote ''BTCUSDT'' 7 100),
      MRound (demo_clocks 4801) demo_names
        [Quote (demo_quote ''ETHUSDT'' 8 200), Visit ''BTCUSDT'', Quote (demo_quote ''BTCUSDT'' 9 300), Visit ''ETHUSDT'']]"

lemma demo_mix_linear:
  "linearize Some demo_mix =
     [Collect (demo_clocks 0) demo_names demo_names, Recv (demo_quote ''BTCUSDT'' 7 100),
      Recv (demo_quote ''ETHUSDT'' 8 200), Collect (demo_clocks 4801) demo_names demo_names,
      Recv (demo_quote ''BTCUSDT'' 9 300)]"
  by (simp add: linearize_def demo_mix_def quote_target_def demo_quote_def quote_message_of_def demo_names_def)

theorem interleaved_rounds_linearize_witness:
  "mix_run Some (\<lambda>_. None) (demo_cfg True) demo_g (updateAggrSymbols (set demo_names) demo_controller) demo_mix =
     ctl_run Some (\<lambda>_. None) (demo_cfg True) demo_g (updateAggrSymbols (set demo_names) demo_controller)
       [Collect (demo_clocks 0) demo_names demo_names, Recv (demo_quote ''BTCUSDT'' 7 100),
        Recv (demo_quote ''ETHUSDT'' 8 200), Collect (demo_clocks 4801) demo_names demo_names,
        Recv (demo_quote ''BTCUSDT'' 9 300)]"
proof -
  have "list_all mix_event_ok demo_mix" by (simp add: demo_mix_def)
  from interleaved_rounds_linearize [OF this, of Some "\<lambda>_. None" "demo_cfg True" demo_g "set demo_names" demo_controller]
  show ?thesis by (simp add: demo_mix_linear)
qed

end
