(* ===== verification/Aggr_Project.thy ===== *)
theory Aggr_Project
  imports Aggr_Interleave Aggregation_Props
begin

text \<open>
  What the controller of the aggregation service does to one of its symbols. A run of the controller, seen from
  the symbol \<open>name\<close>, is a run of that symbol alone: the quotes that name it in the order of their arrival,
  and a tick for every round that visits it. What is published under the name is what the symbol put
  out. So the properties of a single symbol hold of every symbol of the service; the theory carries over
  the conservation of the quotes, also where quotes arrive in the middle of a round.
\<close>

section \<open>The view of one symbol\<close>

text \<open>The event a received message is for its symbol.\<close>

definition quote_event :: "('b \<Rightarrow> Message option) \<Rightarrow> 'b \<Rightarrow> sd_event list" where
  "quote_event gob data =
     (case gob data of
        None \<Rightarrow> []
      | Some msg \<Rightarrow>
          (case msg_Payload msg of
             Payload_Other \<Rightarrow> []
           | Payload_Quote quote \<Rightarrow>
               (case qm_Data quote of
                  Data_OrbIncr inc \<Rightarrow> [EvInc inc]
                | Data_Trade trade \<Rightarrow> [EvTrade trade]
                | Data_SnapShot snap \<Rightarrow> [EvSnapShot snap]
                | _ \<Rightarrow> [])))"

definition symbol_quotes :: "('b \<Rightarrow> Message option) \<Rightarrow> string \<Rightarrow> 'b list \<Rightarrow> sd_event list" where
  "symbol_quotes gob name ds = concat (map (quote_event gob) (filter (\<lambda>d. quote_target gob d = Some name) ds))"

fun symbol_event :: "('b \<Rightarrow> Message option) \<Rightarrow> string \<Rightarrow> int \<Rightarrow> 'b ctl_event \<Rightarrow> sd_event list" where
  "symbol_event gob name born (Recv data) = symbol_quotes gob name [data]"
| "symbol_event gob name born (Collect ck friends names) =
     (if name \<in> set names then [EvTick (ck_now ck) born] else [])"

definition symbol_events :: "('b \<Rightarrow> Message option) \<Rightarrow> string \<Rightarrow> int list \<Rightarrow> 'b ctl_event list \<Rightarrow> sd_event list" where
  "symbol_events gob name borns es = concat (map2 (symbol_event gob name) borns es)"

text \<open>What the messages carry under a name, and which of the detached nodes are sent.\<close>

definition infos_of :: "string \<Rightarrow> 'f PeriodMessage list \<Rightarrow> 'f SymbolInfo list" where
  "infos_of name pms = filter (\<lambda>si. sy_Symbol si = name) (concat (map pm_SymbolInfos pms))"

definition node_sent :: "'f aggr_config \<Rightarrow> PeriodNode \<Rightarrow> bool" where
  "node_sent cfg pn \<longleftrightarrow>
     \<not> (SkipEmptyQuote cfg \<and> tradeindex pn = [] \<and> incindex pn = [] \<and> snapshot_index pn = [])"

definition node_info :: "(string \<Rightarrow> 'f option) \<Rightarrow> string \<Rightarrow> PeriodNode \<Rightarrow> 'f::zero SymbolInfo" where
  "node_info pf name pn = MarshallPb pf pn (NewSymbolInfo\<lparr>sy_Symbol := name\<rparr>)"

fun visits_once :: "'b ctl_event \<Rightarrow> bool" where
  "visits_once (Recv data) \<longleftrightarrow> True"
| "visits_once (Collect ck friends names) \<longleftrightarrow> distinct names"

section \<open>Lemmas\<close>

lemma sd_run_append:
  "sd_run g s (es @ fs) =
     (case sd_run g s es of
        Inl p \<Rightarrow> Inl p
      | Inr (s', outs) \<Rightarrow>
          (case sd_run g s' fs of Inl p \<Rightarrow> Inl p | Inr (s'', outs') \<Rightarrow> Inr (s'', outs @ outs')))"
  by (induction es arbitrary: s) (auto simp: sd_run_def split: sum.splits prod.splits option.splits)

lemma quote_event_run:
  "quote_target gob data \<noteq> None \<Longrightarrow> sd_run g s (quote_event gob data) = Inr (quote_put gob g data s, [])"
  by (auto simp: quote_target_def quote_event_def quote_put_def sd_run_def
      split: option.splits Payload.splits QuoteData.splits if_splits)

lemma recv_projects:
  assumes "periodSymbols c name = Some s"
  shows "\<exists>s'. sd_run g s (symbol_quotes gob name [data]) = Inr (s', []) \<and>
    periodSymbols (onQuoteDataRecv gob g data c) name = Some s'"
proof (cases "quote_target gob data = Some name")
  case True
  with assms show ?thesis
    by (simp add: symbol_quotes_def onQuoteDataRecv_at recv_map_def at_key_def quote_event_run)
next
  case False
  with assms show ?thesis
    by (auto simp: symbol_quotes_def onQuoteDataRecv_at recv_map_def sd_run_def split: option.splits)
qed

lemma symbol_infos_sent:
  assumes "m name = Some s"
  shows "symbol_infos pf (SkipEmptyQuote cfg) g now born m name =
    map (node_info pf name) (filter (node_sent cfg) (case detached g now born s of None \<Rightarrow> [] | Some pn \<Rightarrow> [pn]))"
  using assms by (auto simp: symbol_infos_def node_sent_def node_info_def split: option.splits)

lemma infos_of_round:
  assumes "distinct names"
  shows "filter (\<lambda>si. sy_Symbol si = name) (concat (map (symbol_infos pf skip g now born m) names)) =
    (if name \<in> set names then symbol_infos pf skip g now born m name else [])"
  using assms
proof (induction names)
  case (Cons n names)
  have "filter (\<lambda>si. sy_Symbol si = name) (symbol_infos pf skip g now born m n) =
      (if n = name then symbol_infos pf skip g now born m n else [])"
    using symbol_infos_names [of pf skip g now born m n] by (auto simp: filter_empty_conv)
  with Cons show ?case by auto
qed simp

text \<open>A round is a tick of every symbol it visits.\<close>

lemma round_projects:
  assumes "all_wf (periodSymbols c)" and "periodSymbols c name = Some s" and "distinct names"
    and "ctl_step gob pf cfg g c (Collect ck friends names) = Inr (c', out)"
  shows "\<exists>born s' nodes. sd_run g s (symbol_event gob name born (Collect ck friends names)) = Inr (s', nodes) \<and>
    periodSymbols c' name = Some s' \<and>
    infos_of name (case out of None \<Rightarrow> [] | Some pm \<Rightarrow> [pm]) = map (node_info pf name) (filter (node_sent cfg) nodes)"
proof -
  define born where "born = friend_born (periodSymbols c) friends (born_of g (ck_sec ck))"
  let ?m = "periodSymbols c" and ?now = "ck_now ck"
  let ?infos = "concat (map (symbol_infos pf (SkipEmptyQuote cfg) g ?now born ?m) names)"
  have wf: "sd_wf s" using assms(1,2) by (simp add: all_wf_def)
  note tick = ticked_eq(1) [OF wf, of g ?now born]
  have step: "infos_of name (case out of None \<Rightarrow> [] | Some pm \<Rightarrow> [pm]) = filter (\<lambda>si. sy_Symbol si = name) ?infos \<and>
      periodSymbols c' name = (if name \<in> set names then Some (ticked g ?now born s) else Some s)"
    using assms(4,2) unfolding ctl_step.simps collect_round_def born_def [symmetric]
      collect_symbols_eq [OF assms(1,3)]
    by (auto simp: infos_of_def NewPeriodMessage_def split: if_splits)
  then show ?thesis
    unfolding infos_of_round [OF assms(3)] symbol_infos_sent [where m = ?m, OF assms(2)]
    by (intro exI [of _ born]) (use tick in \<open>auto simp: sd_run_def split: option.splits\<close>)
qed

lemma step_projects:
  assumes "all_wf (periodSymbols c)" and "periodSymbols c name = Some s" and "visits_once e"
    and "ctl_step gob pf cfg g c e = Inr (c', out)"
  shows "\<exists>born s' nodes. sd_run g s (symbol_event gob name born e) = Inr (s', nodes) \<and>
    periodSymbols c' name = Some s' \<and>
    infos_of name (case out of None \<Rightarrow> [] | Some pm \<Rightarrow> [pm]) = map (node_info pf name) (filter (node_sent cfg) nodes)"
proof (cases e)
  case (Recv data)
  with recv_projects [OF assms(2), of g gob data] assms(4) show ?thesis by (auto simp: infos_of_def)
next
  case (Collect ck friends names)
  with round_projects [OF assms(1,2) _ assms(4) [unfolded Collect]] assms(3) show ?thesis by simp
qed

lemma run_projects:
  assumes "all_wf (periodSymbols c)" and "periodSymbols c name = Some s" and "list_all visits_once es"
    and "ctl_run gob pf cfg g c es = Inr (c', outs)"
  shows "\<exists>borns s' nodes. length borns = length es \<and>
    sd_run g s (symbol_events gob name borns es) = Inr (s', nodes) \<and> periodSymbols c' name = Some s' \<and>
    infos_of name outs = map (node_info pf name) (filter (node_sent cfg) nodes)"
  using assms
proof (induction es arbitrary: c s outs)
  case Nil
  then show ?case by (simp add: ctl_run_def symbol_events_def sd_run_def infos_of_def)
next
  case (Cons e es)
  from Cons.prems(4) obtain c1 out outs1 where st: "ctl_step gob pf cfg g c e = Inr (c1, out)"
    and rn: "ctl_run gob pf cfg g c1 es = Inr (c', outs1)"
    and outs: "outs = (case out of None \<Rightarrow> outs1 | Some pm \<Rightarrow> pm # outs1)"
    by (auto simp: ctl_run_def split: sum.splits prod.splits)
  from step_projects [OF Cons.prems(1,2) _ st] Cons.prems(3) obtain born s1 nodes1 where
    one: "sd_run g s (symbol_event gob name born e) = Inr (s1, nodes1)" "periodSymbols c1 name = Some s1"
      "infos_of name (case out of None \<Rightarrow> [] | Some pm \<Rightarrow> [pm]) =
         map (node_info pf name) (filter (node_sent cfg) nodes1)" by auto
  from Cons.IH [OF ctl_step_wf [OF Cons.prems(1) st] one(2) _ rn] Cons.prems(3)
  obtain borns s' nodes where rest: "length borns = length es"
      "sd_run g s1 (symbol_events gob name borns es) = Inr (s', nodes)" "periodSymbols c' name = Some s'"
      "infos_of name outs1 = map (node_info pf name) (filter (node_sent cfg) nodes)" by auto
  have "infos_of name outs = map (node_info pf name) (filter (node_sent cfg) (nodes1 @ nodes))"
    using outs one(3) rest(4) by (auto simp: infos_of_def split: option.splits)
  with one(1) rest show ?case
    by (intro exI [of _ "born # borns"]) (simp add: symbol_events_def sd_run_append)
qed

lemma updateAggrSymbols_wf: "all_wf (periodSymbols (updateAggrSymbols S c))"
  using updateAggrSymbols_inv [of undefined S 0 c] by (auto simp: ctl_inv_def intro: all_in_wf)

lemma updateAggrSymbols_fresh: "name \<in> S \<Longrightarrow> periodSymbols (updateAggrSymbols S c) name = Some (NewSymbolDef name)"
  by (simp add: updateAggrSymbols_def)

text \<open>The quotes of the symbol's run are the received ones that name it.\<close>

lemma symbol_quotes_append: "symbol_quotes gob name (ds @ ds') = symbol_quotes gob name ds @ symbol_quotes gob name ds'"
  by (simp add: symbol_quotes_def)

lemma symbol_events_quotes:
  assumes "length borns = length es" and "\<And>now born. f (EvTick now born) = []"
  shows "concat (map f (symbol_events gob name borns es)) =
    concat (map f (symbol_quotes gob name (concat (map ctl_quotes es))))"
  using assms(1)
proof (induction borns es rule: list_induct2)
  case (Cons born borns e es)
  moreover have "concat (map f (symbol_event gob name born e)) = concat (map f (symbol_quotes gob name (ctl_quotes e)))"
    by (cases e) (simp_all add: assms(2), simp add: symbol_quotes_def)
  ultimately show ?case by (simp add: symbol_events_def symbol_quotes_append)
qed (simp add: symbol_events_def symbol_quotes_def)

lemma sent_subset:
  "mset (concat (map f (filter P ns))) \<subseteq># mset (concat (map f ns))"
  by (induction ns) (auto intro: subset_mset.add_mono subset_mset.add_increasing)

lemma linearize_visits_once: "list_all mix_event_ok es \<Longrightarrow> list_all visits_once (linearize gob es)"
proof (induction es)
  case (Cons e es)
  moreover have "list_all visits_once (linear gob e)"
    using Cons.prems by (cases e) (auto simp: list_all_iff)
  ultimately show ?case by (simp add: linearize_def)
qed (simp add: linearize_def)

text \<open>What is sent of a list of nodes is, kind by kind, what the nodes hold.\<close>

lemma node_info_parts:
  "concat (map sy_Trades (map (node_info pf name) ns)) = map (trade_info pf) (concat (map tradeindex ns))"
  "concat (map sy_Incs (map (node_info pf name) ns)) = map (inc_info pf) (concat (map incindex ns))"
  "concat (map sy_Snaps (map (node_info pf name) ns)) = map (snap_info pf) (concat (map snapshot_index ns))"
  by (simp_all add: node_info_def MarshallPb_def NewSymbolInfo_def map_concat comp_def)

lemma sent_conserved:
  assumes "mset (concat (map f nodes)) + B \<subseteq># M"
  shows "image_mset h (mset (concat (map f (filter P nodes)))) \<subseteq># image_mset h M"
proof -
  have "mset (concat (map f nodes)) \<subseteq># M" using assms mset_subset_eq_add_left subset_mset.order_trans by blast
  then have "mset (concat (map f (filter P nodes))) \<subseteq># M"
    using sent_subset subset_mset.order_trans by blast
  then show ?thesis by (rule image_mset_subseteq_mono)
qed

lemma ctl_run_conserves:
  assumes "list_all visits_once es" and "name \<in> S"
    and "ctl_run gob pf cfg g (updateAggrSymbols S c) es = Inr (c', outs)"
    and "evs = symbol_quotes gob name (concat (map ctl_quotes es))"
  shows "mset (concat (map sy_Trades (infos_of name outs))) \<subseteq># image_mset (trade_info pf) (mset (concat (map ev_trades evs))) \<and>
    mset (concat (map sy_Incs (infos_of name outs))) \<subseteq># image_mset (inc_info pf) (mset (concat (map ev_incs evs))) \<and>
    mset (concat (map sy_Snaps (infos_of name outs))) \<subseteq># image_mset (snap_info pf) (mset (concat (map ev_snaps evs)))"
proof -
  from run_projects [OF updateAggrSymbols_wf updateAggrSymbols_fresh [OF assms(2)] assms(1,3)]
  obtain borns s' nodes where p: "length borns = length es"
      "sd_run g (NewSymbolDef name) (symbol_events gob name borns es) = Inr (s', nodes)"
      "infos_of name outs = map (node_info pf name) (filter (node_sent cfg) nodes)" by blast
  have evs: "concat (map f (symbol_events gob name borns es)) = concat (map f evs)"
    if "\<And>now born. f (EvTick now born) = []" for f :: "sd_event \<Rightarrow> 'q list"
    using symbol_events_quotes [of borns es f gob name, OF p(1) that] by (simp add: assms(4))
  from sd_run_conserved [OF p(2)] show ?thesis
    unfolding p(3) node_info_parts mset_map by (auto simp: evs intro!: sent_conserved)
qed

section \<open>Properties\<close>

text \<open>C11. The controller adds nothing to what its symbols do: in a run from the fresh symbols of
  \<open>updateAggrSymbols\<close> that visits every symbol at most once a round, the state of a symbol and all that is
  published under its name are those of the run of that symbol alone, with the quotes that name it in the order of
  their arrival and a tick for each round that visits it. Nothing of another symbol gets into it.\<close>

theorem controller_projects_to_symbol:
  assumes "list_all visits_once es" and "name \<in> S"
    and "ctl_run gob pf cfg g (updateAggrSymbols S c) es = Inr (c', outs)"
  shows "\<exists>borns s' nodes. length borns = length es \<and>
    sd_run g (NewSymbolDef name) (symbol_events gob name borns es) = Inr (s', nodes) \<and>
    periodSymbols c' name = Some s' \<and>
    infos_of name outs = map (node_info pf name) (filter (node_sent cfg) nodes)"
  by (rule run_projects [OF updateAggrSymbols_wf updateAggrSymbols_fresh [OF assms(2)] assms(1,3)])

theorem controller_projects_to_symbol_witness:
  "\<exists>c' pm borns s' nodes.
     demo_ctl_run True [demo_collect 0, Recv (demo_quote ''BTCUSDT'' 7 100), demo_collect 4801] = Inr (c', [pm]) \<and>
     sd_run demo_g (NewSymbolDef ''BTCUSDT'') (symbol_events Some ''BTCUSDT'' borns
       [demo_collect 0, Recv (demo_quote ''BTCUSDT'' 7 100), demo_collect 4801]) = Inr (s', nodes) \<and>
     periodSymbols c' ''BTCUSDT'' = Some s'"
proof -
  let ?es = "[demo_collect 0, Recv (demo_quote ''BTCUSDT'' 7 100), demo_collect 4801]"
  have "case demo_ctl_run True ?es of Inr (c', [pm]) \<Rightarrow> True | _ \<Rightarrow> False" by code_simp
  then obtain c' pm where r: "demo_ctl_run True ?es = Inr (c', [pm])"
    by (auto split: sum.splits prod.splits list.splits)
  have "list_all visits_once ?es" "''BTCUSDT'' \<in> set demo_names" by code_simp+
  from controller_projects_to_symbol [OF this r [unfolded demo_ctl_run_def demo_controller_def]] r
  show ?thesis by blast
qed

text \<open>C10. The service invents no quote and sends none more often than it was received, even where quotes arrive in the
  middle of a round: the trades, the increments and the snapshots published under a name are, with
  multiplicities, among those received for it. In particular no quote is published under the name
  of another symbol.\<close>

theorem service_conserves_quotes:
  assumes "list_all mix_event_ok es" and "name \<in> S"
    and "mix_run gob pf cfg g (updateAggrSymbols S c) es = Inr (c', outs)"
    and "evs = symbol_quotes gob name (concat (map mix_quotes es))"
  shows "mset (concat (map sy_Trades (infos_of name outs))) \<subseteq># image_mset (trade_info pf) (mset (concat (map ev_trades evs))) \<and>
    mset (concat (map sy_Incs (infos_of name outs))) \<subseteq># image_mset (inc_info pf) (mset (concat (map ev_incs evs))) \<and>
    mset (concat (map sy_Snaps (infos_of name outs))) \<subseteq># image_mset (snap_info pf) (mset (concat (map ev_snaps evs)))"
proof -
  have run: "ctl_run gob pf cfg g (updateAggrSymbols S c) (linearize gob es) = Inr (c', outs)"
    using assms(3) mix_run_linear [OF updateAggrSymbols_wf assms(1), of gob pf cfg g S c] by simp
  have "evs = symbol_quotes gob name (concat (map ctl_quotes (linearize gob es)))"
    unfolding assms(4) symbol_quotes_def linearize_order ..
  from ctl_run_conserves [OF linearize_visits_once [OF assms(1)] assms(2) run this] show ?thesis .
qed

theorem service_conserves_quotes_witness:
  "\<exists>c' pm. mix_run Some (\<lambda>s. None) (demo_cfg True) demo_g (updateAggrSymbols (set demo_names) demo_controller) demo_mix =
       Inr (c', [pm :: int PeriodMessage]) \<and>
     length (concat (map sy_Trades (infos_of ''BTCUSDT'' [pm]))) = 1 \<and>
     mset (concat (map sy_Trades (infos_of ''BTCUSDT'' [pm]))) \<subseteq>#
       image_mset (trade_info (\<lambda>s. None)) (mset (concat (map ev_trades
         (quote_event Some (demo_quote ''BTCUSDT'' 7 100) @ quote_event Some (demo_quote ''BTCUSDT'' 9 300)))))"
proof -
  let ?run = "mix_run Some (\<lambda>s. None) (demo_cfg True) demo_g (updateAggrSymbols (set demo_names) demo_controller) demo_mix"
  have "case ?run of Inr (c', [pm :: int PeriodMessage]) \<Rightarrow>
      length (concat (map sy_Trades (infos_of ''BTCUSDT'' [pm]))) = 1 | _ \<Rightarrow> False" by code_simp
  then obtain c' pm where r: "?run = Inr (c', [pm])" "length (concat (map sy_Trades (infos_of ''BTCUSDT'' [pm]))) = 1"
    by (auto split: sum.splits prod.splits list.splits)
  have ok: "list_all mix_event_ok demo_mix" "''BTCUSDT'' \<in> set demo_names"
    by (simp_all add: demo_mix_def demo_names_def)
  have "symbol_quotes Some ''BTCUSDT'' (concat (map mix_quotes demo_mix)) =
      quote_event Some (demo_quote ''BTCUSDT'' 7 100) @ quote_event Some (demo_quote ''BTCUSDT'' 9 300)"
    by (simp add: demo_mix_def symbol_quotes_def quote_target_def demo_quote_def quote_message_of_def)
  with service_conserves_quotes [OF ok r(1) refl] r show ?thesis by auto
qed

end
