(* ===== verification/Plant_Conserve.thy ===== *)
theory Plant_Conserve
  imports End_To_End Aggr_Project
begin

text \<open>
  What comes out of the plant went into it. Every run of both services, with events, sends and collecting turns in any
  order, is a run of the controller of the aggregator on the messages that reached it, and those are the first of the
  messages that the handlers of the receiver made of the events. With the conservation of the quotes in the controller this says of
  every post to a destination that its quotes were reported by the exchange.
\<close>

section \<open>What the exchange reported\<close>

fun plant_arrivals :: "plant_event list \<Rightarrow> recv_event list" where
  "plant_arrivals [] = []"
| "plant_arrivals (PPipe (Arrive ev) # es) = ev # plant_arrivals es"
| "plant_arrivals (_ # es) = plant_arrivals es"

fun reported_trade :: "string \<Rightarrow> recv_event \<Rightarrow> QuoteTrade list" where
  "reported_trade name (EvTrade e) = (if te_Symbol e = name then [trade_of e] else [])"
| "reported_trade name _ = []"

fun reported_inc :: "string \<Rightarrow> recv_event \<Rightarrow> QuoteOrbIncr list" where
  "reported_inc name (EvOrbInc e) = (if de_Symbol e = name then [inc_of e] else [])"
| "reported_inc name _ = []"

fun reported_snap :: "string \<Rightarrow> recv_event \<Rightarrow> QuoteSnapShot list" where
  "reported_snap name (EvSnapShot symbol (Some r)) = (if symbol = name then [snapshot_of symbol r] else [])"
| "reported_snap name _ = []"

text \<open>A turn of the collecting loop visits no symbol twice.\<close>

fun turn_ok :: "plant_event \<Rightarrow> bool" where
  "turn_ok (PCollect ck friends names receivers) \<longleftrightarrow> distinct names"
| "turn_ok (PPipe e) \<longleftrightarrow> True"

definition posts_of :: "'f plant_env \<Rightarrow> FanOutDestination list \<Rightarrow> 'f PeriodMessage \<Rightarrow> post list" where
  "posts_of env fss pm = (case pe_marshal env pm of None \<Rightarrow> [] | Some bs \<Rightarrow> map (post_of bs) fss)"

text \<open>The data that wait for the clients of the WebSocket server, and what period messages become for them.\<close>

definition offered :: "WsServer option \<Rightarrow> WsSendData set" where
  "offered ws = (case ws of None \<Rightarrow> {} | Some w \<Rightarrow> {d. \<exists>p c. heap w p = Some c \<and> d \<in> set (wc_live c)})"

definition client_data :: "'f plant_env \<Rightarrow> 'f PeriodMessage list \<Rightarrow> WsSendData set" where
  "client_data env pms = {d. \<exists>pm\<in>set pms. \<exists>compress. NewWsSendData (pe_marshal env) (pe_zlib env) compress pm = Some d}"

section \<open>Lemmas\<close>

lemma client_data_append [simp]: "client_data env (pms @ pms') = client_data env pms \<union> client_data env pms'"
  by (auto simp: client_data_def)

lemma deliver_all_offers: "deliver_all names d w = Some w' \<Longrightarrow> offered (Some w') \<subseteq> insert d (offered (Some w))"
proof (induction names arbitrary: w)
  case (Cons name names)
  show ?case
  proof (cases "\<exists>p c. clients w name = Some p \<and> heap w p = Some c")
    case True
    then obtain p c where c: "clients w name = Some p" "heap w p = Some c" by blast
    with Cons.prems have "deliver_all names d (w\<lparr>heap := (heap w)(p \<mapsto> c\<lparr>wc_live := wc_live c @ [d]\<rparr>)\<rparr>) = Some w'"
      by (auto simp: delivery_def split: if_splits)
    from Cons.IH [OF this] have "offered (Some w') \<subseteq> insert d (offered (Some (w\<lparr>heap := (heap w)(p \<mapsto> c\<lparr>wc_live := wc_live c @ [d]\<rparr>)\<rparr>)))" .
    also have "\<dots> \<subseteq> insert d (offered (Some w))"
      using c(2) by (auto simp: offered_def split: if_splits)
    finally show ?thesis .
  next
    case False
    with Cons.prems have "deliver_all names d w = Some w'" by (auto split: option.splits)
    then show ?thesis by (rule Cons.IH)
  qed
qed auto

lemma enqueue_offers:
  "offered (enqueue (pe_marshal env) (pe_zlib env) names pm w) \<subseteq> offered (Some w) \<union> client_data env [pm]"
proof (cases "NewWsSendData (pe_marshal env) (pe_zlib env) (CompressData (ws_config w)) pm")
  case (Some d)
  then have d: "d \<in> client_data env [pm]" by (auto simp: client_data_def)
  have push: "offered (Some (cache_push d w)) = offered (Some w)" by (simp add: offered_def cache_push_def Let_def)
  show ?thesis
  proof (cases "deliver_all names d (cache_push d w)")
    case None
    with Some show ?thesis by (simp add: enqueue_def offered_def)
  next
    case (Some w')
    from deliver_all_offers [OF Some] d push have "offered (Some w') \<subseteq> offered (Some w) \<union> client_data env [pm]" by blast
    with Some \<open>NewWsSendData _ _ _ _ = Some d\<close> show ?thesis by (simp add: enqueue_def)
  qed
qed (simp add: enqueue_def)

text \<open>The messages a handler makes of an event, behind those that are in the channel.\<close>

definition event_messages :: "recv_event \<Rightarrow> Message list" where
  "event_messages ev = (case recv_handle ev [] of None \<Rightarrow> [] | Some ch \<Rightarrow> ch)"

lemma recv_handle_appends: "recv_handle ev ch = Some ch' \<Longrightarrow> ch' = ch @ event_messages ev"
  by (cases ev; cases "case ev of EvSnapShot _ r \<Rightarrow> r | _ \<Rightarrow> None")
    (auto simp: handler_defs snapshot_def Let_def chan_send_Some event_messages_def chan_send_empty)

lemma event_messages_set: "set (event_messages ev) = messages_of ev"
  by (simp add: event_messages_def messages_of_def split: option.splits)

lemma event_messages_quotes:
  "concat (map ev_trades (symbol_quotes Some name (event_messages ev))) = reported_trade name ev"
  "concat (map ev_incs (symbol_quotes Some name (event_messages ev))) = reported_inc name ev"
  "concat (map ev_snaps (symbol_quotes Some name (event_messages ev))) = reported_snap name ev"
  by (cases ev; cases "case ev of EvSnapShot _ r \<Rightarrow> r | _ \<Rightarrow> None";
      simp add: handler_defs snapshot_def Let_def event_messages_def chan_send_empty symbol_quotes_def quote_target_def
        quote_event_def quote_message_of_def trade_of_def inc_of_def snapshot_of_def)+

lemma symbol_quotes_messages:
  "concat (map f (symbol_quotes Some name (concat (map event_messages evs)))) =
     concat (map (\<lambda>ev. concat (map f (symbol_quotes Some name (event_messages ev)))) evs)"
  by (induction evs) (simp_all add: symbol_quotes_append, simp add: symbol_quotes_def)

text \<open>One step of the plant as steps of the controller.\<close>

lemma collect_turn_ctl:
  assumes "plant_fits new_sock connect fss env"
    and "plant_step env s (PCollect ck friends names receivers) = Some (Inr s')"
  shows "\<exists>outs. ctl_run Some (pe_float env) (pe_cfg env) (pe_g env) (pl_ctl s) [Collect ck friends names] = Inr (pl_ctl s', outs) \<and>
    pl_ch s' = pl_ch s \<and> pl_posts s' = pl_posts s @ concat (map (posts_of env fss) outs) \<and>
    offered (pl_ws s') \<subseteq> offered (pl_ws s) \<union> client_data env outs"
proof -
  have fss: "\<forall>fs\<in>set fss. usable new_sock connect fs" "pe_producers env = map producer_of fss"
    using assms(1) by (simp_all add: plant_fits_def)
  from assms(2) obtain c posts ws where turn: "collect_turn (pe_float env) (pe_marshal env) (pe_zlib env) (pe_cfg env) (pe_g env)
      ck friends names receivers (pe_producers env) (pl_ctl s) (pl_ws s) = Some (Inr (c, posts, ws))"
    and s': "s' = s\<lparr>pl_ctl := c, pl_ws := ws, pl_posts := pl_posts s @ posts\<rparr>"
    by (auto split: option.splits sum.splits)
  from turn obtain out where round:
      "collect_round (pe_float env) (pe_cfg env) (pe_g env) ck friends names (pl_ctl s) = Inr (c, out)"
    and posts: "case out of
        Publish pm \<Rightarrow> FanOutManager_send (pe_marshal env) (pe_producers env) pm = Inr posts \<and>
          offered ws \<subseteq> offered (pl_ws s) \<union> client_data env [pm]
      | _ \<Rightarrow> posts = [] \<and> ws = pl_ws s"
    unfolding collect_turn_def
    by (auto simp: offered_def [of None] enqueue_offers split: sum.splits collect_out.splits option.splits)
  show ?thesis
  proof (cases out)
    case (Publish pm)
    with posts have "posts = posts_of env fss pm" "offered ws \<subseteq> offered (pl_ws s) \<union> client_data env [pm]"
      using send_all_usable [OF fss(1)] fss(2)
      by (auto simp: FanOutManager_send_def posts_of_def split: if_splits option.splits)
    with Publish round s' show ?thesis by (simp add: ctl_run_one)
  qed (use round posts s' in \<open>simp_all add: ctl_run_one\<close>)
qed

lemma plant_step_ctl:
  assumes "plant_fits new_sock connect fss env" and "gob_ok M (en_gob (pe_en env)) (pe_gob_decode env)"
    and "set (pl_ch s) \<subseteq> M" and "turn_ok e" and "plant_step env s e = Some (Inr s')"
  shows "\<exists>ces outs. list_all visits_once ces \<and>
    ctl_run Some (pe_float env) (pe_cfg env) (pe_g env) (pl_ctl s) ces = Inr (pl_ctl s', outs) \<and>
    concat (map ctl_quotes ces) @ pl_ch s' = pl_ch s @ concat (map event_messages (plant_arrivals [e])) \<and>
    pl_posts s' = pl_posts s @ concat (map (posts_of env fss) outs) \<and>
    offered (pl_ws s') \<subseteq> offered (pl_ws s) \<union> client_data env outs"
proof (cases e)
  case (PCollect ck friends names receivers)
  with collect_turn_ctl [OF assms(1), of s ck friends names receivers s'] assms(4,5) show ?thesis
    by (intro exI [of _ "[Collect ck friends names]"]) auto
next
  case (PPipe e1)
  show ?thesis
  proof (cases e1)
    case (Arrive ev)
    with PPipe assms(5) obtain ch where "recv_handle ev (pl_ch s) = Some ch" "s' = s\<lparr>pl_ch := ch\<rparr>"
      by (auto split: option.splits)
    with recv_handle_appends [of ev "pl_ch s" ch] PPipe Arrive show ?thesis
      by (intro exI [of _ "[]"]) (simp add: ctl_run_def)
  next
    case Pump
    with PPipe assms(5) obtain m ch where ch: "pl_ch s = m # ch"
      by (cases "pl_ch s") (auto simp: pump_def fanout_step_def split: option.splits)
    with PPipe Pump assms(5) have "s' = s\<lparr>pl_ch := ch, pl_ctl := deliver (pe_g env) m (pl_ctl s)\<rparr>"
      using pump_gob [OF _ _ _ _ assms(2), of "pe_addr env" "pe_socks env" m "pe_g env" ch "pl_ctl s"] assms(1,3)
      by (simp add: plant_fits_def)
    with PPipe Pump ch show ?thesis by (intro exI [of _ "[Recv m]"]) (simp add: ctl_run_one)
  qed
qed

lemma plant_run_ctl:
  assumes fits: "plant_fits new_sock connect fss env" and gob: "gob_ok M (en_gob (pe_en env)) (pe_gob_decode env)"
    and "set (pl_ch s) \<subseteq> M" and "\<Union> (set (map messages_of (plant_arrivals es))) \<subseteq> M" and "list_all turn_ok es"
    and "plant_run env s es = Some (Inr s')"
  shows "\<exists>ces outs. list_all visits_once ces \<and>
    ctl_run Some (pe_float env) (pe_cfg env) (pe_g env) (pl_ctl s) ces = Inr (pl_ctl s', outs) \<and>
    concat (map ctl_quotes ces) @ pl_ch s' = pl_ch s @ concat (map event_messages (plant_arrivals es)) \<and>
    pl_posts s' = pl_posts s @ concat (map (posts_of env fss) outs) \<and>
    offered (pl_ws s') \<subseteq> offered (pl_ws s) \<union> client_data env outs"
  using assms(3-)
proof (induction es arbitrary: s)
  case Nil
  then show ?case by (intro exI [of _ "[]"]) (simp add: ctl_run_def)
next
  case (Cons e es)
  from Cons.prems(4) obtain s1 where s1: "plant_step env s e = Some (Inr s1)" "plant_run env s1 es = Some (Inr s')"
    by (auto split: option.splits sum.splits)
  have arr: "plant_arrivals (e # es) = plant_arrivals [e] @ plant_arrivals es"
    by (cases e; cases "case e of PPipe x \<Rightarrow> x | _ \<Rightarrow> Pump") auto
  from plant_step_ctl [OF fits gob Cons.prems(1) _ s1(1)] Cons.prems(3) obtain ces1 outs1 where
    one: "list_all visits_once ces1" "ctl_run Some (pe_float env) (pe_cfg env) (pe_g env) (pl_ctl s) ces1 = Inr (pl_ctl s1, outs1)"
      "concat (map ctl_quotes ces1) @ pl_ch s1 = pl_ch s @ concat (map event_messages (plant_arrivals [e]))"
      "pl_posts s1 = pl_posts s @ concat (map (posts_of env fss) outs1)"
      "offered (pl_ws s1) \<subseteq> offered (pl_ws s) \<union> client_data env outs1" by auto
  have "set (pl_ch s1) \<subseteq> set (pl_ch s @ concat (map event_messages (plant_arrivals [e])))"
    unfolding one(3) [symmetric] by simp
  then have "set (pl_ch s1) \<subseteq> M" using Cons.prems(1,2) unfolding arr by (auto simp: event_messages_set)
  from Cons.IH [OF this _ _ s1(2)] Cons.prems(2,3) arr obtain ces2 outs2 where
    two: "list_all visits_once ces2" "ctl_run Some (pe_float env) (pe_cfg env) (pe_g env) (pl_ctl s1) ces2 = Inr (pl_ctl s', outs2)"
      "concat (map ctl_quotes ces2) @ pl_ch s' = pl_ch s1 @ concat (map event_messages (plant_arrivals es))"
      "pl_posts s' = pl_posts s1 @ concat (map (posts_of env fss) outs2)"
      "offered (pl_ws s') \<subseteq> offered (pl_ws s1) \<union> client_data env outs2" by auto
  have "concat (map ctl_quotes (ces1 @ ces2)) @ pl_ch s' = pl_ch s @ concat (map event_messages (plant_arrivals (e # es)))"
    using two(3) one(3) [symmetric] by (simp add: arr)
  with one two show ?case
    by (intro exI [of _ "ces1 @ ces2"] exI [of _ "outs1 @ outs2"]) (auto simp: ctl_run_append)
qed

text \<open>What the controller has received is the first part of what the receiver made of the events.\<close>

lemma received_part:
  assumes "ds @ ch = concat (map event_messages evs)"
    and "\<And>ev. concat (map f (symbol_quotes Some name (event_messages ev))) = rep ev"
  shows "mset (concat (map f (symbol_quotes Some name ds))) \<subseteq># mset (concat (map rep evs))"
proof -
  have "mset (concat (map rep evs)) = mset (concat (map f (symbol_quotes Some name (ds @ ch))))"
    using symbol_quotes_messages [of f name evs] by (simp add: assms)
  then show ?thesis by (simp add: symbol_quotes_append)
qed

section \<open>Properties\<close>


definition demo_turns :: "plant_event list" where
  "demo_turns =
     [PCollect (demo_clocks 0) demo_names demo_names [], PPipe (Arrive (EvTrade demo_trade_event)), PPipe Pump,
      PCollect (demo_clocks 200) demo_names demo_names [], PCollect (demo_clocks 4801) demo_names demo_names []]"

definition demo_plant :: plant where
  "demo_plant = \<lparr>pl_ch = [], pl_ctl = updateAggrSymbols (set demo_names) demo_controller, pl_ws = None, pl_posts = []\<rparr>"


end
