(* ===== verification/Service_Main.thy ===== *)
theory Service_Main
  imports Aggr_Start Recv_Controller Utils
begin

text \<open>
  The two programs (\<open>main.go\<close> of both services): the command line, the configuration file, the names and the
  levels of the logs, the lock file, and the start of the controller. The processes of a host share the lock files; a step of the
  host is a step of one of them. The decoder of TOML and the level parser of \<open>logrus\<close> are arguments, what a process
  finds on its host is a \<open>main_world\<close>.
\<close>

section \<open>The command line\<close>

text \<open>\<open>flag.Parse\<close> for the two flags \<open>-v\<close> and \<open>-config\<close>. \<open>FlagsExit\<close>: the parser prints the usage and ends the process
  with that status.\<close>

datatype flag_result = Flags bool string | FlagsExit nat

definition ParseBool :: "string \<Rightarrow> bool option" where
  "ParseBool s =
     (if s \<in> {''1'', ''t'', ''T'', ''TRUE'', ''true'', ''True''} then Some True
      else if s \<in> {''0'', ''f'', ''F'', ''FALSE'', ''false'', ''False''} then Some False
      else None)"

text \<open>The name of a flag, and its value where there is an \<open>=\<close> after the first character.\<close>

definition split_flag :: "string \<Rightarrow> string \<times> string option" where
  "split_flag nm =
     (let rest = dropWhile (\<lambda>c. c \<noteq> CHR ''='') (tl nm)
      in (hd nm # takeWhile (\<lambda>c. c \<noteq> CHR ''='') (tl nm), if rest = [] then None else Some (tl rest)))"

fun flag_parse :: "string list \<Rightarrow> bool \<Rightarrow> string \<Rightarrow> flag_result" where
  "flag_parse [] v cf = Flags v cf"
| "flag_parse (s # args) v cf =
     (if length s < 2 \<or> hd s \<noteq> CHR ''-'' \<or> s = ''--'' then Flags v cf
      else let nm = (if s ! 1 = CHR ''-'' then drop 2 s else drop 1 s)
           in if nm = [] \<or> hd nm \<in> {CHR ''-'', CHR ''=''} then FlagsExit 2
              else (case split_flag nm of
                      (key, val) \<Rightarrow>
                        if key = ''v'' then
                          (case val of
                             None \<Rightarrow> flag_parse args True cf
                           | Some b \<Rightarrow>
                               (case ParseBool b of
                                  None \<Rightarrow> FlagsExit 2
                                | Some b' \<Rightarrow> flag_parse args b' cf))
                        else if key = ''config'' then
                          (case val of
                             Some f \<Rightarrow> flag_parse args v f
                           | None \<Rightarrow>
                               (case args of
                                  [] \<Rightarrow> FlagsExit 2
                                | f # args' \<Rightarrow> flag_parse args' v f))
                        else if key = ''help'' \<or> key = ''h'' then FlagsExit 0
                        else FlagsExit 2))"

section \<open>Paths\<close>

text \<open>\<open>path.Clean\<close>: empty and \<open>.\<close> components go, \<open>..\<close> takes the component before it; the components are kept in
  reverse.\<close>

fun clean_step :: "bool \<Rightarrow> string \<Rightarrow> string list \<Rightarrow> string list" where
  "clean_step rooted x acc =
     (if x = [] \<or> x = ''.'' then acc
      else if x = ''..'' then
        (case acc of
           [] \<Rightarrow> if rooted then [] else [''..'']
         | y # ys \<Rightarrow> if y = ''..'' then ''..'' # acc else ys)
      else x # acc)"

definition path_Clean :: "string \<Rightarrow> string" where
  "path_Clean p =
     (let rooted = (p \<noteq> [] \<and> hd p = CHR ''/'');
          body = join ''/'' (rev (fold (clean_step rooted) (split_on CHR ''/'' p) []))
      in if rooted then CHR ''/'' # body else if body = [] then ''.'' else body)"

definition path_Join :: "string \<Rightarrow> string \<Rightarrow> string" where
  "path_Join dir nm = (if dir = [] then (if nm = [] then [] else path_Clean nm) else path_Clean (dir @ ''/'' @ nm))"

text \<open>\<open>fmt.Sprintf\<close> with two strings.\<close>

definition named :: "string \<Rightarrow> string \<Rightarrow> string \<Rightarrow> string \<Rightarrow> string" where
  "named prefix ident account suffix = prefix @ ''_'' @ ident @ ''_'' @ account @ suffix"

section \<open>The hook of the logger\<close>

text \<open>\<open>LogLevelHook\<close>: the entries of the chosen levels go to a second file. The levels are those of \<open>logrus\<close>: panic, fatal and error
  are 0, 1 and 2. \<open>Fire\<close> returns what is written and the error of the write.\<close>

record LogLevelHook =
  hk_levels :: "nat list"
  hk_writer :: string

definition NewLogLevelHook :: "string \<Rightarrow> nat list \<Rightarrow> LogLevelHook" where
  "NewLogLevelHook writer levels = \<lparr>hk_levels = levels, hk_writer = writer\<rparr>"

fun fire_levels :: "(string \<Rightarrow> string option) \<Rightarrow> nat list \<Rightarrow> nat \<Rightarrow> string \<Rightarrow> string option \<times> string option" where
  "fire_levels write [] level message = (None, None)"
| "fire_levels write (l # ls) level message =
     (if level = l then (Some (message @ [CHR 0x0A]), write (message @ [CHR 0x0A]))
      else fire_levels write ls level message)"

definition Hook_Fire :: "(string \<Rightarrow> string option) \<Rightarrow> LogLevelHook \<Rightarrow> nat \<Rightarrow> string \<Rightarrow> string option \<times> string option" where
  "Hook_Fire write hook level message = fire_levels write (hk_levels hook) level message"

definition Hook_Levels :: "LogLevelHook \<Rightarrow> nat list" where
  "Hook_Levels hook = hk_levels hook"

section \<open>From the command line to the lock\<close>

record main_world =
  mw_GOOS :: string
  mw_AMBER :: string
  mw_args :: "string list"
  mw_ReadFile :: "string \<Rightarrow> string option"
  mw_OpenFile :: "string \<Rightarrow> string option"

record 'l log_setup =
  ls_file :: string
  ls_level :: 'l
  ls_hook :: LogLevelHook

text \<open>How a process ends before it takes the lock.\<close>

datatype main_end =
    EndUsage nat
  | EndVersion "string list"
  | EndConfig string
  | EndLogFile string
  | EndPanic go_panic
  | EndLock string
  | EndKilled

datatype ('c, 'l) prepared = Ended main_end | Ready 'c "'l log_setup"

text \<open>The configuration of the aggregator: the settings of its loops, those of its start, and those of the logs.\<close>

record 'f aggr_file =
  af_core :: "'f aggr_config"
  af_setup :: aggr_setup
  af_LogDir :: string
  af_LogLevel :: string

definition aggr_logging :: "(string \<Rightarrow> 'l) \<Rightarrow> main_world \<Rightarrow> 'f aggr_file \<Rightarrow> ('f aggr_file, 'l) prepared" where
  "aggr_logging ParseLevel w cf =
     (let su = af_setup cf;
          logfile = path_Join (af_LogDir cf) (named ''bn_das'' (ag_thunderId su) (ag_account su) ''.log'');
          errlog = path_Join (af_LogDir cf) (named ''bn_qas'' (ag_thunderId su) (ag_account su) ''.err'')
      in case mw_OpenFile w errlog of
           Some err \<Rightarrow> Ended (EndLogFile err)
         | None \<Rightarrow> Ready cf \<lparr>ls_file = logfile, ls_level = ParseLevel (af_LogLevel cf),
                             ls_hook = NewLogLevelHook errlog [2, 0, 1]\<rparr>)"

text \<open>The error of \<open>os.ReadFile\<close> is dropped: the decoder then reads an empty text.\<close>

definition file_text :: "main_world \<Rightarrow> string \<Rightarrow> string" where
  "file_text w nm = (case mw_ReadFile w nm of None \<Rightarrow> [] | Some data \<Rightarrow> data)"

definition AUTHOR :: string where
  "AUTHOR = ''$Author: scott ''"

definition aggr_DATE :: string where
  "aggr_DATE = ''$Date: 2024-10-07 20:45:37 +0800 (Mon, 07 Oct 2024) $  ''"

definition aggr_prepare ::
  "(string \<Rightarrow> string + 'f::{zero,one,ord} aggr_file) \<Rightarrow> (string \<Rightarrow> 'l) \<Rightarrow> main_world \<Rightarrow> ('f aggr_file, 'l) prepared" where
  "aggr_prepare Decode ParseLevel w =
     (case flag_parse (mw_args w) False ''settings.toml'' of
        FlagsExit k \<Rightarrow> Ended (EndUsage k)
      | Flags version configFileName \<Rightarrow>
          if version then Ended (EndVersion [AUTHOR, aggr_VERSION, aggr_DATE])
          else (case Decode (file_text w configFileName) of
                  Inl e \<Rightarrow> Ended (EndConfig e)
                | Inr cf \<Rightarrow> aggr_logging ParseLevel w (cf\<lparr>af_core := fst (normalize_config (af_core cf))\<rparr>)))"

text \<open>The receiver has a guard in front: on Linux the environment has to hold a certain value.\<close>

record 'f recv_file =
  rf_SigPosMultiplier :: 'f
  rf_SymbolBlackList :: "string list"
  rf_timeouts :: recv_config
  rf_setup :: recv_setup
  rf_LogDir :: string
  rf_LogLevel :: string

definition recv_normalize_config :: "'f::{zero,one,ord} recv_file \<Rightarrow> 'f recv_file" where
  "recv_normalize_config cf =
     cf\<lparr>rf_SigPosMultiplier := (if rf_SigPosMultiplier cf \<le> 0 then 1 else rf_SigPosMultiplier cf),
        rf_SymbolBlackList := map ToUpper (rf_SymbolBlackList cf),
        rf_timeouts := normalize_timeouts (rf_timeouts cf)\<rparr>"

definition recv_logging :: "(string \<Rightarrow> 'l) \<Rightarrow> main_world \<Rightarrow> 'f recv_file \<Rightarrow> ('f recv_file, 'l) prepared" where
  "recv_logging ParseLevel w cf =
     (let su = rf_setup cf;
          logfile = path_Join (rf_LogDir cf) (named ''bn_drs'' (su_thunderId su) (su_account su) ''.log'');
          errlog = path_Join (rf_LogDir cf) (named ''bnthunder'' (su_thunderId su) (su_account su) ''.err'')
      in case mw_OpenFile w errlog of
           Some err \<Rightarrow> Ended (EndLogFile err)
         | None \<Rightarrow> Ready cf \<lparr>ls_file = logfile, ls_level = ParseLevel (rf_LogLevel cf),
                             ls_hook = NewLogLevelHook errlog [2, 0, 1]\<rparr>)"

definition recv_DATE :: string where
  "recv_DATE = ''$Date: 2024-09-24 11:57:11 +0800 (Tue, 24 Sep 2024) $  ''"

definition recv_prepare ::
  "(string \<Rightarrow> string + 'f::{zero,one,ord} recv_file) \<Rightarrow> (string \<Rightarrow> 'l) \<Rightarrow> main_world \<Rightarrow> ('f recv_file, 'l) prepared" where
  "recv_prepare Decode ParseLevel w =
     (if mw_GOOS w = ''linux'' \<and> mw_AMBER w \<noteq> ''shakira'' then Ended (EndPanic (Panicked ''0x88765244442''))
      else case flag_parse (mw_args w) False ''settings.toml'' of
             FlagsExit k \<Rightarrow> Ended (EndUsage k)
           | Flags version configFileName \<Rightarrow>
               if version then Ended (EndVersion [AUTHOR, recv_VERSION, recv_DATE])
               else (case Decode (file_text w configFileName) of
                       Inl e \<Rightarrow> Ended (EndConfig e)
                     | Inr cf \<Rightarrow> recv_logging ParseLevel w (recv_normalize_config cf)))"

section \<open>The start behind the lock\<close>

text \<open>A panic of the main goroutine runs the deferred \<open>Unlock\<close>; a panic of another goroutine ends the process at
  once. A start that never returns keeps the process where it is.\<close>

datatype 's started = Up 's | PanicMain go_panic | PanicOther go_panic | Hangs

definition aggr_begin ::
  "(string \<Rightarrow> 'd option) \<Rightarrow> (int \<Rightarrow> 'd::zero) \<Rightarrow> aggr_world \<Rightarrow> (nat \<Rightarrow> 'f ExchangeSymbol list option) \<Rightarrow>
     ('f exchange \<Rightarrow> string list) \<Rightarrow> aggr_setup \<Rightarrow> ('d, 'f) aggr_service started" where
  "aggr_begin dec newint aw fetch order su =
     (case aggr_init dec newint su aw fetch order of
        None \<Rightarrow> Hangs
      | Some (Inl p) \<Rightarrow> PanicMain p
      | Some (Inr c) \<Rightarrow>
          (case aggr_run su aw c of
             Inr c' \<Rightarrow> Up c'
           | Inl p \<Rightarrow>
               if isl (FanOutManager_open (sv_producers c)) \<or> aw_sub_sock aw \<noteq> None \<or> aw_subscribe aw \<noteq> None
               then PanicMain p else PanicOther p))"

definition recv_begin ::
  "(string \<Rightarrow> 'd option) \<Rightarrow> (int \<Rightarrow> 'd::zero) \<Rightarrow> recv_world \<Rightarrow> (nat \<Rightarrow> 'f ExchangeSymbol list option) \<Rightarrow>
     ('f exchange \<Rightarrow> string list) \<Rightarrow> ((string \<rightharpoonup> ('d, 'f) TradingSymbol) \<Rightarrow> feed \<Rightarrow> string list) \<Rightarrow> recv_setup \<Rightarrow>
     ('d, 'f) recv_controller started" where
  "recv_begin dec newint rw fetch order keys su =
     (case recv_start dec newint su rw fetch order keys of
        None \<Rightarrow> Hangs
      | Some (Inl p) \<Rightarrow> PanicMain p
      | Some (Inr c) \<Rightarrow> Up c)"

definition aggr_pidfile :: "aggr_setup \<Rightarrow> string" where
  "aggr_pidfile su = named ''/tmp/bn_qas'' (ag_thunderId su) (ag_account su) ''.pid''"

definition recv_pidfile :: "recv_setup \<Rightarrow> string" where
  "recv_pidfile su = named ''/tmp/bn_drs'' (su_thunderId su) (su_account su) ''.pid''"

section \<open>The processes of a host\<close>

datatype ('c, 's) proc = New | AtLock 'c | Starting 'c | Serving 'c 's | Unlocking 'c go_panic | Over main_end

record ('c, 's) host =
  ho_lock :: "string \<Rightarrow> po_state"
  ho_proc :: "nat \<Rightarrow> ('c, 's) proc"

definition host_init :: "('c, 's) host" where
  "host_init = \<lparr>ho_lock = (\<lambda>_. po_init), ho_proc = (\<lambda>_. New)\<rparr>"

definition put_proc :: "nat \<Rightarrow> ('c, 's) proc \<Rightarrow> ('c, 's) host \<Rightarrow> ('c, 's) host" where
  "put_proc p x h = h\<lparr>ho_proc := (ho_proc h)(p := x)\<rparr>"

definition put_lock :: "string \<Rightarrow> po_state \<Rightarrow> ('c, 's) host \<Rightarrow> ('c, 's) host" where
  "put_lock f s h = h\<lparr>ho_lock := (ho_lock h)(f := s)\<rparr>"

abbreviation lock_of :: "('c, 's) host \<Rightarrow> ('c \<Rightarrow> string) \<Rightarrow> 'c \<Rightarrow> po_state" where
  "lock_of h pidfile cf \<equiv> ho_lock h (pidfile cf)"

text \<open>\<open>Opened\<close> to \<open>LockFails\<close> are the calls inside \<open>po.Lock\<close>; \<open>Closed\<close> and \<open>Removed\<close> are the two of \<open>po.Unlock\<close>, which runs where
  the start panics. A process can be killed at any time, and loses its lock with its files (a process that is killed inside \<open>po.Lock\<close>
  leaves what \<open>LockFails\<close> leaves).\<close>

inductive host_step ::
  "(nat \<Rightarrow> ('c, 'l) prepared) \<Rightarrow> ('c \<Rightarrow> string) \<Rightarrow> (nat \<Rightarrow> 'c \<Rightarrow> 's started) \<Rightarrow> ('c, 's) host \<Rightarrow> ('c, 's) host \<Rightarrow> bool"
  for prep pidfile begins where
  Stopped: "ho_proc h p = New \<Longrightarrow> prep p = Ended e \<Longrightarrow> host_step prep pidfile begins h (put_proc p (Over e) h)"
| Prepared: "ho_proc h p = New \<Longrightarrow> prep p = Ready cf ls \<Longrightarrow> host_step prep pidfile begins h (put_proc p (AtLock cf) h)"
| Opened: "ho_proc h p = AtLock cf \<Longrightarrow> po_at (lock_of h pidfile cf) p = PIdle \<Longrightarrow>
    host_step prep pidfile begins h (put_lock (pidfile cf) (po_open p (lock_of h pidfile cf)) h)"
| OpenFails: "ho_proc h p = AtLock cf \<Longrightarrow> po_at (lock_of h pidfile cf) p = PIdle \<Longrightarrow>
    host_step prep pidfile begins h (put_proc p (Over (EndLock err)) h)"
| Locked: "ho_proc h p = AtLock cf \<Longrightarrow> po_at (lock_of h pidfile cf) p = POpened i \<Longrightarrow> po_lock (lock_of h pidfile cf) i = None \<Longrightarrow>
    host_step prep pidfile begins h
      (put_proc p (Starting cf) (put_lock (pidfile cf) (po_acquire p i (lock_of h pidfile cf)) h))"
| LockFails: "ho_proc h p = AtLock cf \<Longrightarrow> po_at (lock_of h pidfile cf) p = POpened i \<Longrightarrow>
    host_step prep pidfile begins h
      (put_proc p (Over (EndLock err))
        (put_lock (pidfile cf) ((lock_of h pidfile cf)\<lparr>po_at := (po_at (lock_of h pidfile cf))(p := PIdle)\<rparr>) h))"
| Serves: "ho_proc h p = Starting cf \<Longrightarrow> begins p cf = Up s \<Longrightarrow> host_step prep pidfile begins h (put_proc p (Serving cf s) h)"
| Closed: "ho_proc h p = Starting cf \<Longrightarrow> begins p cf = PanicMain e \<Longrightarrow> po_at (lock_of h pidfile cf) p = PLocked i \<Longrightarrow>
    host_step prep pidfile begins h
      (put_proc p (Unlocking cf e) (put_lock (pidfile cf) (po_close p i PClosed (lock_of h pidfile cf)) h))"
| Removed: "ho_proc h p = Unlocking cf e \<Longrightarrow>
    host_step prep pidfile begins h
      (put_proc p (Over (EndPanic e)) (put_lock (pidfile cf) (po_remove p (lock_of h pidfile cf)) h))"
| Dies: "ho_proc h p = Starting cf \<Longrightarrow> begins p cf = PanicOther e \<Longrightarrow> po_at (lock_of h pidfile cf) p = PLocked i \<Longrightarrow>
    host_step prep pidfile begins h
      (put_proc p (Over (EndPanic e)) (put_lock (pidfile cf) (po_close p i PIdle (lock_of h pidfile cf)) h))"
| Killed: "ho_proc h p = Starting cf \<or> ho_proc h p = Serving cf s \<Longrightarrow> po_at (lock_of h pidfile cf) p = PLocked i \<Longrightarrow>
    host_step prep pidfile begins h
      (put_proc p (Over EndKilled) (put_lock (pidfile cf) (po_close p i PIdle (lock_of h pidfile cf)) h))"
| KilledUnlocking: "ho_proc h p = Unlocking cf e \<Longrightarrow> host_step prep pidfile begins h (put_proc p (Over EndKilled) h)"

section \<open>Lemmas\<close>

text \<open>A process that is behind the lock of the file \<open>f\<close>: it starts or serves.\<close>

definition behind :: "('c \<Rightarrow> string) \<Rightarrow> string \<Rightarrow> ('c, 's) host \<Rightarrow> nat \<Rightarrow> bool" where
  "behind pidfile f h p \<longleftrightarrow> (\<exists>cf. pidfile cf = f \<and> (ho_proc h p = Starting cf \<or> (\<exists>s. ho_proc h p = Serving cf s)))"

text \<open>No start on the file \<open>f\<close> panics in the main goroutine.\<close>

definition no_panic ::
  "(nat \<Rightarrow> ('c, 'l) prepared) \<Rightarrow> ('c \<Rightarrow> string) \<Rightarrow> (nat \<Rightarrow> 'c \<Rightarrow> 's started) \<Rightarrow> string \<Rightarrow> bool" where
  "no_panic prep pidfile begins f \<longleftrightarrow>
     (\<forall>p cf ls. prep p = Ready cf ls \<and> pidfile cf = f \<longrightarrow> (\<forall>e. begins p cf \<noteq> PanicMain e))"

text \<open>What a host keeps: a process past \<open>Prepared\<close> has the configuration it was prepared with, a process behind the lock holds it, and
  the lock file is in a state that \<open>po_step\<close> without \<open>Unlock\<close> reaches.\<close>

definition host_inv ::
  "(nat \<Rightarrow> ('c, 'l) prepared) \<Rightarrow> ('c \<Rightarrow> string) \<Rightarrow> string \<Rightarrow> ('c, 's) host \<Rightarrow> bool" where
  "host_inv prep pidfile f h \<longleftrightarrow>
     (\<forall>p cf. ho_proc h p = AtLock cf \<or> ho_proc h p = Starting cf \<longrightarrow> (\<exists>ls. prep p = Ready cf ls)) \<and>
     (\<forall>p. behind pidfile f h p \<longrightarrow> (\<exists>i. po_at (ho_lock h f) p = PLocked i)) \<and>
     (\<forall>p cf e. ho_proc h p = Unlocking cf e \<longrightarrow> pidfile cf \<noteq> f) \<and>
     (po_step False)\<^sup>*\<^sup>* po_init (ho_lock h f)"

lemmas host_defs = put_proc_def put_lock_def behind_def

lemma po_step_later: "(po_step False)\<^sup>*\<^sup>* po_init s \<Longrightarrow> po_step False s s' \<Longrightarrow> (po_step False)\<^sup>*\<^sup>* po_init s'"
  by (rule rtranclp.rtrancl_into_rtrancl)

lemma po_open_at: "po_at (po_open p s) q = (if q = p then POpened (case po_name s of Some i \<Rightarrow> i | None \<Rightarrow> po_next s) else po_at s q)"
  by (simp add: po_open_def split: option.splits)

lemma host_step_inv:
  assumes "no_panic prep pidfile begins f"
  shows "host_step prep pidfile begins h h' \<Longrightarrow> host_inv prep pidfile f h \<Longrightarrow> host_inv prep pidfile f h'"
proof (induction rule: host_step.induct)
  case (Opened h p cf)
  then show ?case
    by (auto simp: host_inv_def host_defs po_open_at intro: po_step_later po_step.OpenFile)
next
  case (Locked h p cf i)
  then show ?case
    by (auto simp: host_inv_def host_defs po_acquire_def Let_def split: if_splits
        intro: po_step_later [OF _ po_step.Flock, unfolded po_acquire_def Let_def]; blast)
next
  case (LockFails h p cf i err)
  then show ?case
    by (auto simp: host_inv_def host_defs split: if_splits intro: po_step_later [OF _ po_step.Refused]; blast)
next
  case (Closed h p cf e i)
  then show ?case using assms
    by (auto simp: host_inv_def no_panic_def host_defs po_close_def split: if_splits)
next
  case (Removed h p cf e)
  then show ?case by (auto simp: host_inv_def host_defs split: if_splits; blast)
next
  case (Dies h p cf e i)
  then show ?case
    by (auto simp: host_inv_def host_defs po_close_def split: if_splits
        intro: po_step_later [OF _ po_step.Exit, unfolded po_close_def]; blast)
next
  case (Killed h p cf s i)
  then show ?case
    by (auto simp: host_inv_def host_defs po_close_def split: if_splits
        intro: po_step_later [OF _ po_step.Exit, unfolded po_close_def]; blast)
qed (auto simp: host_inv_def host_defs split: if_splits)

lemma host_inv_init: "host_inv prep pidfile f host_init"
  by (simp add: host_inv_def host_init_def behind_def)

lemma host_steps_inv:
  assumes "no_panic prep pidfile begins f" and "(host_step prep pidfile begins)\<^sup>*\<^sup>* host_init h"
  shows "host_inv prep pidfile f h"
  using assms(2) by (induction rule: rtranclp_induct) (auto intro: host_inv_init host_step_inv [OF assms(1)])

lemma behind_one:
  assumes "no_panic prep pidfile begins f" and "(host_step prep pidfile begins)\<^sup>*\<^sup>* host_init h"
    and "behind pidfile f h p" and "behind pidfile f h q"
  shows "p = q"
proof -
  from host_steps_inv [OF assms(1,2)] have inv: "host_inv prep pidfile f h" .
  then obtain i j where at: "po_at (ho_lock h f) p = PLocked i" "po_at (ho_lock h f) q = PLocked j"
    using assms(3,4) unfolding host_inv_def by meson
  have "(po_step False)\<^sup>*\<^sup>* po_init (ho_lock h f)" using inv by (simp add: host_inv_def)
  from po_steps_inv [OF this] have "po_inv (ho_lock h f)" by (simp add: po_inv_def po_init_def)
  with at show ?thesis by (rule po_inv_holder)
qed

text \<open>The run in which a process that panics at its start makes room for two others: it gives up the lock, the second takes it on the
  file that is still there, the first removes the name, and the third makes a new file.\<close>

lemma put_proc_simps [simp]:
  "ho_lock (put_proc p x h) = ho_lock h" "ho_proc (put_lock f s h) = ho_proc h"
  "ho_proc (put_proc p x h) = (ho_proc h)(p := x)" "ho_lock (put_lock f s h) = (ho_lock h)(f := s)"
  by (simp_all add: put_proc_def put_lock_def)

lemmas po_defs = po_open_def po_acquire_def po_close_def po_remove_def po_init_def Let_def

text \<open>The steps on a lock file whose state is known.\<close>

lemma host_step_at:
  assumes "pidfile cf = f" and "ho_lock h f = l"
  shows "ho_proc h p = AtLock cf \<Longrightarrow> po_at l p = PIdle \<Longrightarrow> host_step prep pidfile begins h (put_lock f (po_open p l) h)"
    and "ho_proc h p = AtLock cf \<Longrightarrow> po_at l p = POpened i \<Longrightarrow> po_lock l i = None \<Longrightarrow>
      host_step prep pidfile begins h (put_proc p (Starting cf) (put_lock f (po_acquire p i l) h))"
    and "ho_proc h p = Starting cf \<Longrightarrow> begins p cf = PanicMain e \<Longrightarrow> po_at l p = PLocked i \<Longrightarrow>
      host_step prep pidfile begins h (put_proc p (Unlocking cf e) (put_lock f (po_close p i PClosed l) h))"
    and "ho_proc h p = Unlocking cf e \<Longrightarrow>
      host_step prep pidfile begins h (put_proc p (Over (EndPanic e)) (put_lock f (po_remove p l) h))"
  using assms host_step.Opened [of h p cf pidfile prep begins] host_step.Locked [of h p cf pidfile i prep begins]
    host_step.Closed [of h p cf begins e pidfile i prep] host_step.Removed [of h p cf e prep pidfile begins]
  by (simp_all split del: if_split)

lemma two_serving:
  assumes "distinct [p1, p2, p3]" and ready: "prep p1 = Ready c1 l1" "prep p2 = Ready c2 l2" "prep p3 = Ready c3 l3"
    and f: "pidfile c1 = f" "pidfile c2 = f" "pidfile c3 = f"
    and up: "begins p1 c1 = PanicMain e" "begins p2 c2 = Up s2" "begins p3 c3 = Up s3"
  shows "\<exists>h. (host_step prep pidfile begins)\<^sup>*\<^sup>* host_init h \<and> ho_proc h p2 = Serving c2 s2 \<and> ho_proc h p3 = Serving c3 s3"
proof -
  let ?R = "host_step prep pidfile begins"
  let ?h1 = "put_proc p3 (AtLock c3) (put_proc p2 (AtLock c2) (put_proc p1 (AtLock c1) host_init))"
  let ?l1 = "po_acquire p1 0 (po_open p1 po_init)"
  let ?h2 = "put_proc p1 (Starting c1) (put_lock f ?l1 (put_lock f (po_open p1 po_init) ?h1))"
  let ?l2 = "po_close p1 0 PClosed (po_open p2 ?l1)"
  let ?h3 = "put_proc p1 (Unlocking c1 e) (put_lock f ?l2 (put_lock f (po_open p2 ?l1) ?h2))"
  let ?l3 = "po_acquire p2 0 ?l2"
  let ?h4 = "put_proc p2 (Starting c2) (put_lock f ?l3 ?h3)"
  let ?l4 = "po_remove p1 ?l3"
  let ?h5 = "put_proc p1 (Over (EndPanic e)) (put_lock f ?l4 ?h4)"
  let ?l5 = "po_acquire p3 1 (po_open p3 ?l4)"
  let ?h6 = "put_proc p3 (Starting c3) (put_lock f ?l5 (put_lock f (po_open p3 ?l4) ?h5))"
  let ?h7 = "put_proc p3 (Serving c3 s3) (put_proc p2 (Serving c2 s2) ?h6)"
  note d = assms(1)
  have a: "?R host_init (put_proc p1 (AtLock c1) host_init)"
    using ready(1) by (intro host_step.Prepared [where ls = l1]) (simp_all add: host_init_def)
  have b: "?R (put_proc p1 (AtLock c1) host_init) (put_proc p2 (AtLock c2) (put_proc p1 (AtLock c1) host_init))"
    using ready(2) d by (intro host_step.Prepared [where ls = l2]) (simp_all add: host_init_def)
  have c: "?R (put_proc p2 (AtLock c2) (put_proc p1 (AtLock c1) host_init)) ?h1"
    using ready(3) d by (intro host_step.Prepared [where ls = l3]) (simp_all add: host_init_def)
  have "?R ?h1 (put_lock f (po_open p1 po_init) ?h1)"
    by (rule host_step_at(1) [where pidfile = pidfile, OF f(1)]) (use d in \<open>simp_all add: host_init_def po_init_def\<close>)
  moreover have "?R (put_lock f (po_open p1 po_init) ?h1) ?h2"
    by (rule host_step_at(2) [where pidfile = pidfile, OF f(1)]) (use d in \<open>simp_all add: po_defs\<close>)
  moreover have "?R ?h2 (put_lock f (po_open p2 ?l1) ?h2)"
    by (rule host_step_at(1) [where pidfile = pidfile, OF f(2)]) (use d in \<open>simp_all add: po_defs\<close>)
  moreover have "?R (put_lock f (po_open p2 ?l1) ?h2) ?h3"
    by (rule host_step_at(3) [where pidfile = pidfile, OF f(1)]) (use d up(1) in \<open>simp_all add: po_defs\<close>)
  moreover have "?R ?h3 ?h4"
    by (rule host_step_at(2) [where pidfile = pidfile, OF f(2)]) (use d in \<open>simp_all add: po_defs\<close>)
  moreover have "?R ?h4 ?h5"
    by (rule host_step_at(4) [where pidfile = pidfile, OF f(1)]) (use d in simp_all)
  moreover have "?R ?h5 (put_lock f (po_open p3 ?l4) ?h5)"
    by (rule host_step_at(1) [where pidfile = pidfile, OF f(3)]) (use d in \<open>simp_all add: po_defs\<close>)
  moreover have "?R (put_lock f (po_open p3 ?l4) ?h5) ?h6"
    by (rule host_step_at(2) [where pidfile = pidfile, OF f(3)]) (use d in \<open>simp_all add: po_defs\<close>)
  moreover have "?R ?h6 (put_proc p2 (Serving c2 s2) ?h6)" using up(2) d by (intro host_step.Serves) simp_all
  moreover have "?R (put_proc p2 (Serving c2 s2) ?h6) ?h7" using up(3) d by (intro host_step.Serves) simp_all
  ultimately have "?R\<^sup>*\<^sup>* host_init ?h7"
    using a b c by (meson converse_rtranclp_into_rtranclp rtranclp.rtrancl_refl)
  then show ?thesis using d by (intro exI [of _ ?h7]) simp
qed

section \<open>The hosts of the two services\<close>

text \<open>What the processes of a host find: each has its own world, and the exchange answers each of them.\<close>

definition aggr_host ::
  "(string \<Rightarrow> string + 'f::{zero,one,ord} aggr_file) \<Rightarrow> (string \<Rightarrow> 'l) \<Rightarrow> (nat \<Rightarrow> main_world) \<Rightarrow> (string \<Rightarrow> 'd option) \<Rightarrow>
     (int \<Rightarrow> 'd::zero) \<Rightarrow> (nat \<Rightarrow> aggr_world) \<Rightarrow> (nat \<Rightarrow> nat \<Rightarrow> 'f ExchangeSymbol list option) \<Rightarrow>
     (nat \<Rightarrow> 'f exchange \<Rightarrow> string list) \<Rightarrow> ('f aggr_file, ('d, 'f) aggr_service) host \<Rightarrow>
     ('f aggr_file, ('d, 'f) aggr_service) host \<Rightarrow> bool" where
  "aggr_host Decode ParseLevel w dec newint aw fetch order =
     host_step (\<lambda>p. aggr_prepare Decode ParseLevel (w p)) (aggr_pidfile \<circ> af_setup)
       (\<lambda>p cf. aggr_begin dec newint (aw p) (fetch p) (order p) (af_setup cf))"

definition recv_host ::
  "(string \<Rightarrow> string + 'f::{zero,one,ord} recv_file) \<Rightarrow> (string \<Rightarrow> 'l) \<Rightarrow> (nat \<Rightarrow> main_world) \<Rightarrow> (string \<Rightarrow> 'd option) \<Rightarrow>
     (int \<Rightarrow> 'd::zero) \<Rightarrow> (nat \<Rightarrow> recv_world) \<Rightarrow> (nat \<Rightarrow> nat \<Rightarrow> 'f ExchangeSymbol list option) \<Rightarrow>
     (nat \<Rightarrow> 'f exchange \<Rightarrow> string list) \<Rightarrow> (nat \<Rightarrow> (string \<rightharpoonup> ('d, 'f) TradingSymbol) \<Rightarrow> feed \<Rightarrow> string list) \<Rightarrow>
     ('f recv_file, ('d, 'f) recv_controller) host \<Rightarrow> ('f recv_file, ('d, 'f) recv_controller) host \<Rightarrow> bool" where
  "recv_host Decode ParseLevel w dec newint rw fetch order keys =
     host_step (\<lambda>p. recv_prepare Decode ParseLevel (w p)) (recv_pidfile \<circ> rf_setup)
       (\<lambda>p cf. recv_begin dec newint (rw p) (fetch p) (order p) (keys p) (rf_setup cf))"

text \<open>A configuration that names no account panics behind the lock, whatever else it says.\<close>

lemma no_account_panics:
  "select_account (ag_account su) (ag_accounts su) = None \<Longrightarrow>
     aggr_begin dec newint aw fetch order su = PanicMain (Panicked ''Please check Account!'')"
  by (simp add: aggr_begin_def aggr_init_def initBinance_def initBinance_symbols_def)

lemma aggr_prepare_ready:
  "aggr_prepare Decode ParseLevel w = Ready cf ls \<longleftrightarrow>
     (\<exists>name cf0. flag_parse (mw_args w) False ''settings.toml'' = Flags False name \<and> Decode (file_text w name) = Inr cf0 \<and>
        cf = cf0\<lparr>af_core := fst (normalize_config (af_core cf0))\<rparr> \<and> aggr_logging ParseLevel w cf = Ready cf ls)"
  by (auto simp: aggr_prepare_def aggr_logging_def Let_def split: flag_result.splits sum.splits option.splits if_splits)

lemma recv_prepare_ready:
  "recv_prepare Decode ParseLevel w = Ready cf ls \<longleftrightarrow>
     (mw_GOOS w = ''linux'' \<longrightarrow> mw_AMBER w = ''shakira'') \<and>
     (\<exists>name cf0. flag_parse (mw_args w) False ''settings.toml'' = Flags False name \<and> Decode (file_text w name) = Inr cf0 \<and>
        cf = recv_normalize_config cf0 \<and> recv_logging ParseLevel w cf = Ready cf ls)"
  by (auto simp: recv_prepare_def recv_logging_def Let_def split: flag_result.splits sum.splits option.splits if_splits)

text \<open>A process that is alone gets behind the lock.\<close>

lemma one_starting:
  assumes "prep p = Ready cf ls"
  shows "\<exists>h. (host_step prep pidfile begins)\<^sup>*\<^sup>* host_init h \<and> behind pidfile (pidfile cf) h p \<and> ho_proc h p = Starting cf"
proof -
  let ?R = "host_step prep pidfile begins" and ?h1 = "put_proc p (AtLock cf) host_init" and ?f = "pidfile cf"
  let ?h2 = "put_lock ?f (po_open p po_init) ?h1"
  let ?h3 = "put_proc p (Starting cf) (put_lock ?f (po_acquire p 0 (po_open p po_init)) ?h2)"
  have "?R host_init ?h1" using assms by (intro host_step.Prepared [where ls = ls]) (simp_all add: host_init_def)
  moreover have "?R ?h1 ?h2"
    by (rule host_step_at(1) [where pidfile = pidfile, OF refl]) (simp_all add: host_init_def po_init_def)
  moreover have "?R ?h2 ?h3"
    by (rule host_step_at(2) [where pidfile = pidfile, OF refl]) (simp_all add: po_defs)
  ultimately have "?R\<^sup>*\<^sup>* host_init ?h3" by (meson converse_rtranclp_into_rtranclp rtranclp.rtrancl_refl)
  then show ?thesis by (intro exI [of _ ?h3]) (auto simp: behind_def)
qed

section \<open>Demo\<close>

definition demo_main :: main_world where
  "demo_main =
     \<lparr>mw_GOOS = ''linux'', mw_AMBER = ''shakira'', mw_args = [''-config'', ''q.toml''],
      mw_ReadFile = (\<lambda>nm. if nm = ''q.toml'' then Some ''[main]'' else None), mw_OpenFile = (\<lambda>_. None)\<rparr>"

definition demo_aggr_file :: "int aggr_file" where
  "demo_aggr_file = \<lparr>af_core = demo_cfg True, af_setup = demo_aggr, af_LogDir = ''logs'', af_LogLevel = ''info''\<rparr>"

definition demo_decode :: "string \<Rightarrow> string + int aggr_file" where
  "demo_decode s = (if s = [] then Inl ''empty'' else Inr demo_aggr_file)"

definition demo_aws :: "nat \<Rightarrow> aggr_world" where
  "demo_aws p = (if p = 1 then demo_aggr_world\<lparr>aw_sub_sock := Some ''refused''\<rparr> else demo_aggr_world)"

lemma demo_prepare:
  "\<exists>cf ls. aggr_prepare demo_decode (\<lambda>s. s) demo_main = Ready cf ls \<and> af_setup cf = demo_aggr \<and>
     ls_file ls = ''logs/bn_das_t1_a.log'' \<and> hk_writer (ls_hook ls) = ''logs/bn_qas_t1_a.err''"
proof -
  have "case aggr_prepare demo_decode (\<lambda>s. s) demo_main of
      Ready cf ls \<Rightarrow> ls_file ls = ''logs/bn_das_t1_a.log'' \<and> hk_writer (ls_hook ls) = ''logs/bn_qas_t1_a.err''
    | _ \<Rightarrow> False" by code_simp
  moreover have "af_setup cf = demo_aggr" if "aggr_prepare demo_decode (\<lambda>s. s) demo_main = Ready cf ls" for cf ls
    using that unfolding aggr_prepare_ready by (auto simp: demo_decode_def demo_aggr_file_def split: if_splits)
  ultimately show ?thesis by (auto split: prepared.splits)
qed

lemma demo_begin:
  "\<exists>c e. aggr_begin demo_dec id (demo_aws p) (\<lambda>k. if k < 2 then None else Some demo_syms)
      (\<lambda>_. [''OLDUSDT'', ''BTCUSDT'']) demo_aggr = (if p = 1 then PanicMain e else Up c)"
proof -
  let ?exch = "exchange_map demo_syms Map.empty"
  let ?fetch = "\<lambda>k. if k < (2 :: nat) then None else Some demo_syms"
  have sel: "select_account (ag_account demo_aggr) (ag_accounts demo_aggr) = Some demo_account"
    by (simp add: select_account_def demo_account_def demo_aggr_def)
  have ord: "range_order [''OLDUSDT'', ''BTCUSDT''] ?exch" by (auto simp: range_order_def demo_exchange)
  have w: "{''BTCUSDT''} = wanted_names (ag_configured demo_aggr) ?exch"
    by (simp add: demo_aggr_def demo_wanted)
  have r: "\<forall>x\<in>{''BTCUSDT''}. readable demo_dec id ?exch x" by (simp add: readable_def demo_exchange demo_readable)
  have fetch: "?fetch 2 = Some demo_syms" "\<forall>i<2. ?fetch i = None" by simp_all
  have use: "\<forall>fs\<in>set (enabled (ag_servers demo_aggr)). usable (aw_new_sock (demo_aws p)) (aw_connect (demo_aws p)) fs"
    by (simp add: demo_aggr_def usable_def)
  obtain ps where ps: "FanOutManager_init (aw_new_sock (demo_aws p)) (aw_connect (demo_aws p)) (ag_servers demo_aggr) [] = Inr ps"
    "FanOutManager_open ps = Inr (map producer_of (enabled (ag_servers demo_aggr)))" using init_open_usable [OF use] by auto
  have dial: "aw_dial (demo_aws p) a b u 3 = Some 3" "\<forall>i<3. aw_dial (demo_aws p) a b u i = None" for a b u
    by (simp_all add: demo_aws_def demo_aggr_world_def)
  note client = GetOrNewWsClient_connects [where dial = "aw_dial (demo_aws p)" and acc = demo_account, OF dial]
  show ?thesis
    unfolding aggr_begin_def aggr_init_def
      initBinance_ok [where order = "\<lambda>_. [''OLDUSDT'', ''BTCUSDT'']", OF fetch sel refl ord w r ps(1) client]
    using ps(2) by (simp add: aggr_run_def QuoteReceiver_Open_def demo_aws_def demo_aggr_world_def demo_aggr_def Let_def)
qed

abbreviation demo_host_of ::
  "(nat \<Rightarrow> aggr_world) \<Rightarrow>
     (int aggr_file, (int, int) aggr_service) host \<Rightarrow> (int aggr_file, (int, int) aggr_service) host \<Rightarrow> bool" where
  "demo_host_of aw \<equiv> aggr_host demo_decode (\<lambda>s. s) (\<lambda>_. demo_main) demo_dec id aw
     (\<lambda>_ k. if k < 2 then None else Some demo_syms) (\<lambda>_ _. [''OLDUSDT'', ''BTCUSDT''])"

abbreviation demo_host ::
  "(int aggr_file, (int, int) aggr_service) host \<Rightarrow> (int aggr_file, (int, int) aggr_service) host \<Rightarrow> bool" where
  "demo_host \<equiv> demo_host_of (\<lambda>_. demo_aws 0)"

definition demo_recv_decode :: "string \<Rightarrow> string + int recv_file" where
  "demo_recv_decode s =
     Inr \<lparr>rf_SigPosMultiplier = 0, rf_SymbolBlackList = [''abc''],
          rf_timeouts = \<lparr>RecvOrbIncReconnectTimeout = 0, RecvTradeReconnectTimeout = 0, RecvSnapShotEnable = False\<rparr>,
          rf_setup = demo_setup, rf_LogDir = ''/var/./log/'', rf_LogLevel = ''info''\<rparr>"

lemma demo_recv_prepare:
  "\<exists>cf ls. recv_prepare demo_recv_decode (\<lambda>s. s) demo_main = Ready cf ls \<and> rf_setup cf = demo_setup \<and>
     rf_SymbolBlackList cf = [''ABC''] \<and> ls_file ls = ''/var/log/bn_drs_t1_a.log''"
proof -
  have "case recv_prepare demo_recv_decode (\<lambda>s. s) demo_main of
      Ready cf ls \<Rightarrow> rf_SymbolBlackList cf = [''ABC''] \<and> ls_file ls = ''/var/log/bn_drs_t1_a.log''
    | _ \<Rightarrow> False" by code_simp
  moreover have "rf_setup cf = demo_setup" if "recv_prepare demo_recv_decode (\<lambda>s. s) demo_main = Ready cf ls" for cf ls
    using that unfolding recv_prepare_ready by (auto simp: demo_recv_decode_def recv_normalize_config_def)
  ultimately show ?thesis by (auto split: prepared.splits)
qed

text \<open>A receiver whose exchange never answers stays in its start.\<close>

lemma demo_recv_hangs: "recv_begin demo_dec id demo_world (\<lambda>_. None) (\<lambda>_. []) sorted_keys demo_setup = Hangs"
proof -
  have "retry (\<lambda>_. None :: int ExchangeSymbol list option) 0 = None"
    using retry_result [of "\<lambda>_. None :: int ExchangeSymbol list option" 0] by (cases "retry (\<lambda>_. None :: int ExchangeSymbol list option) 0") auto
  moreover have "select_account (su_account demo_setup) (su_accounts demo_setup) = Some demo_account"
    by (simp add: select_account_def demo_account_def demo_setup_def)
  moreover have "\<exists>c. recv_init_state demo_setup = (Inr c :: (int, int) recv_controller go)"
    by (simp add: recv_init_state_def NewSnapShotManager_def demo_setup_def demo_snap_def)
  ultimately show ?thesis
    by (auto simp: recv_begin_def recv_start_def recv_initBinance_def recv_updateExchangeInfo_def)
qed

abbreviation demo_recv_host ::
  "(int recv_file, (int, int) recv_controller) host \<Rightarrow> (int recv_file, (int, int) recv_controller) host \<Rightarrow> bool" where
  "demo_recv_host \<equiv> recv_host demo_recv_decode (\<lambda>s. s) (\<lambda>_. demo_main) demo_dec id (\<lambda>_. demo_world) (\<lambda>_ _. None)
     (\<lambda>_ _. []) (\<lambda>_. sorted_keys)"

section \<open>Properties\<close>

text \<open>C29. One instance per lock file, for both services: processes start with whatever arguments and configurations, take the
  lock, start, serve, die and are killed in any order; as long as no start on the file \<open>f\<close> panics in the main
  goroutine, at most one process at a time is behind the lock of \<open>f\<close>, whether it is still starting or
  already serves.\<close>

theorem single_instance:
  "(no_panic (\<lambda>p. aggr_prepare Decode ParseLevel (w p)) (aggr_pidfile \<circ> af_setup)
      (\<lambda>p cf. aggr_begin dec newint (aw p) (fetch p) (order p) (af_setup cf)) f \<longrightarrow>
    (aggr_host Decode ParseLevel w dec newint aw fetch order)\<^sup>*\<^sup>* host_init h \<longrightarrow>
    behind (aggr_pidfile \<circ> af_setup) f h p \<longrightarrow> behind (aggr_pidfile \<circ> af_setup) f h q \<longrightarrow> p = q) \<and>
   (no_panic (\<lambda>p. recv_prepare Decode' ParseLevel' (w' p)) (recv_pidfile \<circ> rf_setup)
      (\<lambda>p cf. recv_begin dec' newint' (rw p) (fetch' p) (order' p) (keys p) (rf_setup cf)) f' \<longrightarrow>
    (recv_host Decode' ParseLevel' w' dec' newint' rw fetch' order' keys)\<^sup>*\<^sup>* host_init h' \<longrightarrow>
    behind (recv_pidfile \<circ> rf_setup) f' h' p' \<longrightarrow> behind (recv_pidfile \<circ> rf_setup) f' h' q' \<longrightarrow> p' = q')"
  unfolding aggr_host_def recv_host_def by (intro conjI impI; elim behind_one; assumption)

theorem single_instance_witness:
  "\<exists>h h'. demo_host\<^sup>*\<^sup>* host_init h \<and> demo_recv_host\<^sup>*\<^sup>* host_init h' \<and>
     (\<forall>q. behind (aggr_pidfile \<circ> af_setup) ''/tmp/bn_qas_t1_a.pid'' h q \<longleftrightarrow> q = 2) \<and>
     (\<forall>q. behind (recv_pidfile \<circ> rf_setup) ''/tmp/bn_drs_t1_a.pid'' h' q \<longleftrightarrow> q = 2)"
proof -
  from demo_prepare obtain cf ls where
    prep: "aggr_prepare demo_decode (\<lambda>s. s) demo_main = Ready cf ls" and su: "af_setup cf = demo_aggr" by blast
  have pid: "(aggr_pidfile \<circ> af_setup) cf = ''/tmp/bn_qas_t1_a.pid''"
    by (simp add: su aggr_pidfile_def named_def demo_aggr_def)
  from one_starting [of "\<lambda>_. aggr_prepare demo_decode (\<lambda>s. s) demo_main" 2, OF prep] obtain h where
    h: "demo_host\<^sup>*\<^sup>* host_init h" "behind (aggr_pidfile \<circ> af_setup) ''/tmp/bn_qas_t1_a.pid'' h 2"
    unfolding aggr_host_def pid [symmetric] by blast
  from demo_recv_prepare obtain cf' ls' where
    prep': "recv_prepare demo_recv_decode (\<lambda>s. s) demo_main = Ready cf' ls'" and su': "rf_setup cf' = demo_setup" by blast
  have pid': "(recv_pidfile \<circ> rf_setup) cf' = ''/tmp/bn_drs_t1_a.pid''"
    by (simp add: su' recv_pidfile_def named_def demo_setup_def)
  from one_starting [of "\<lambda>_. recv_prepare demo_recv_decode (\<lambda>s. s) demo_main" 2, OF prep'] obtain h' where
    h': "demo_recv_host\<^sup>*\<^sup>* host_init h'" "behind (recv_pidfile \<circ> rf_setup) ''/tmp/bn_drs_t1_a.pid'' h' 2"
    unfolding recv_host_def pid' [symmetric] by blast
  have quiet: "no_panic (\<lambda>p. aggr_prepare demo_decode (\<lambda>s. s) demo_main) (aggr_pidfile \<circ> af_setup)
      (\<lambda>p cf. aggr_begin demo_dec id (demo_aws 0) (\<lambda>k. if k < 2 then None else Some demo_syms)
         (\<lambda>_. [''OLDUSDT'', ''BTCUSDT'']) (af_setup cf)) ''/tmp/bn_qas_t1_a.pid''"
    using demo_begin [of 0] prep su by (auto simp: no_panic_def)
  have quiet': "no_panic (\<lambda>p. recv_prepare demo_recv_decode (\<lambda>s. s) demo_main) (recv_pidfile \<circ> rf_setup)
      (\<lambda>p cf. recv_begin demo_dec id demo_world (\<lambda>_. None) (\<lambda>_. []) sorted_keys (rf_setup cf)) ''/tmp/bn_drs_t1_a.pid''"
    using demo_recv_hangs prep' su' by (auto simp: no_panic_def)
  from single_instance [of demo_decode "\<lambda>s. s" "\<lambda>_. demo_main" demo_dec id "\<lambda>_. demo_aws 0"
      "\<lambda>_ k. if k < 2 then None else Some demo_syms" "\<lambda>_ _. [''OLDUSDT'', ''BTCUSDT'']" "''/tmp/bn_qas_t1_a.pid''" h _ 2
      demo_recv_decode "\<lambda>s. s" "\<lambda>_. demo_main" demo_dec id "\<lambda>_. demo_world" "\<lambda>_ _. None" "\<lambda>_ _. []" "\<lambda>_. sorted_keys"
      "''/tmp/bn_drs_t1_a.pid''" h' _ 2] quiet quiet' h h'
  show ?thesis by blast
qed

text \<open>C30. The lock does not survive a panic of the start: the deferred \<open>Unlock\<close> closes the file, which gives up the lock, before it removes
  it. Where the start of one process panics (a wrong account, a destination that does not open, a socket that cannot be made) and two
  others start well, all with the same lock file, there is a run of the host after which both others serve at the same time.\<close>

theorem panicked_start_breaks_lock:
  assumes "distinct [p1, p2, p3]"
    and "aggr_prepare Decode ParseLevel (w p1) = Ready c1 l1" and "aggr_prepare Decode ParseLevel (w p2) = Ready c2 l2"
    and "aggr_prepare Decode ParseLevel (w p3) = Ready c3 l3"
    and "aggr_pidfile (af_setup c1) = f" and "aggr_pidfile (af_setup c2) = f" and "aggr_pidfile (af_setup c3) = f"
    and "aggr_begin dec newint (aw p1) (fetch p1) (order p1) (af_setup c1) = PanicMain e"
    and "aggr_begin dec newint (aw p2) (fetch p2) (order p2) (af_setup c2) = Up s2"
    and "aggr_begin dec newint (aw p3) (fetch p3) (order p3) (af_setup c3) = Up s3"
  shows "\<exists>h. (aggr_host Decode ParseLevel w dec newint aw fetch order)\<^sup>*\<^sup>* host_init h \<and>
    ho_proc h p2 = Serving c2 s2 \<and> ho_proc h p3 = Serving c3 s3"
  unfolding aggr_host_def by (rule two_serving [OF assms(1-4)]) (use assms(5-10) in simp_all)

theorem panicked_start_breaks_lock_witness:
  "\<exists>h cf s2 s3. (demo_host_of demo_aws)\<^sup>*\<^sup>* host_init h \<and> aggr_pidfile (af_setup cf) = ''/tmp/bn_qas_t1_a.pid'' \<and>
     ho_proc h 2 = Serving cf s2 \<and> ho_proc h 3 = Serving cf s3"
proof -
  from demo_prepare obtain cf ls where
    prep: "aggr_prepare demo_decode (\<lambda>s. s) demo_main = Ready cf ls" and su: "af_setup cf = demo_aggr" by blast
  have pid: "aggr_pidfile (af_setup cf) = ''/tmp/bn_qas_t1_a.pid''"
    by (simp add: su aggr_pidfile_def named_def demo_aggr_def)
  obtain e s2 s3 where up:
    "aggr_begin demo_dec id (demo_aws 1) (\<lambda>k. if k < 2 then None else Some demo_syms)
       (\<lambda>_. [''OLDUSDT'', ''BTCUSDT'']) demo_aggr = PanicMain e"
    "aggr_begin demo_dec id (demo_aws 2) (\<lambda>k. if k < 2 then None else Some demo_syms)
       (\<lambda>_. [''OLDUSDT'', ''BTCUSDT'']) demo_aggr = Up s2"
    "aggr_begin demo_dec id (demo_aws 3) (\<lambda>k. if k < 2 then None else Some demo_syms)
       (\<lambda>_. [''OLDUSDT'', ''BTCUSDT'']) demo_aggr = Up s3"
    using demo_begin [of 1] demo_begin [of 2] demo_begin [of 3] by auto
  from panicked_start_breaks_lock [where ?p1.0 = 1 and ?p2.0 = 2 and ?p3.0 = 3 and w = "\<lambda>_. demo_main" and aw = demo_aws
      and fetch = "\<lambda>_ k. if k < 2 then None else Some demo_syms" and order = "\<lambda>_ _. [''OLDUSDT'', ''BTCUSDT'']"
      and dec = demo_dec and newint = id, OF _ prep prep prep pid pid pid] up
  obtain h where "(demo_host_of demo_aws)\<^sup>*\<^sup>* host_init h" "ho_proc h 2 = Serving cf s2" "ho_proc h 3 = Serving cf s3"
    unfolding su by fastforce
  with pid show ?thesis by blast
qed

text \<open>A configuration file that cannot be read is not reported: the decoder reads an empty text, which is a valid document without a
  single account, so the process takes the lock and then panics for the account.\<close>

theorem missing_config_panics:
  assumes "mw_args w = []" and "mw_ReadFile w ''settings.toml'' = None" and "\<forall>f. mw_OpenFile w f = None"
    and "Decode [] = Inr cf0" and "ag_accounts (af_setup cf0) = []"
  shows "\<exists>cf ls. aggr_prepare Decode ParseLevel w = Ready cf ls \<and>
    aggr_begin dec newint aw fetch order (af_setup cf) = PanicMain (Panicked ''Please check Account!'')"
proof -
  let ?cf = "cf0\<lparr>af_core := fst (normalize_config (af_core cf0))\<rparr>"
  have "\<exists>ls. aggr_logging ParseLevel w ?cf = Ready ?cf ls" using assms(3) by (simp add: aggr_logging_def Let_def)
  then have "\<exists>ls. aggr_prepare Decode ParseLevel w = Ready ?cf ls"
    using assms(1,2,4) by (simp add: aggr_prepare_def file_text_def)
  moreover have "select_account (ag_account (af_setup ?cf)) (ag_accounts (af_setup ?cf)) = None"
    using assms(5) by (simp add: select_account_def)
  ultimately show ?thesis using no_account_panics by blast
qed

text \<open>Two services with different names can share a lock file: the name of the file does not tell where the identifier ends.\<close>

lemma pidfile_collision: "named prefix (a @ ''_'' @ b) c suffix = named prefix a (b @ ''_'' @ c) suffix"
  by (simp add: named_def)

text \<open>The error log gets exactly the entries of the three levels, each once.\<close>

lemma Hook_Fire_levels:
  "fst (Hook_Fire write hook level message) =
     (if level \<in> set (Hook_Levels hook) then Some (message @ [CHR 0x0A]) else None)"
proof -
  have "fst (fire_levels write ls level message) = (if level \<in> set ls then Some (message @ [CHR 0x0A]) else None)" for ls
    by (induction ls) auto
  then show ?thesis by (simp add: Hook_Fire_def Hook_Levels_def)
qed

end
