(* ===== verification/Go_Slices.thy ===== *)
theory Go_Slices
  imports Go_Generic
begin

text \<open>
  Slices in memory. The other theories take a slice for the list of its elements; here a slice is what it is in Go,
  a window on an array that other slices may share, and the helpers of \<open>utils/generic.go\<close> are written
  as the loops they are. The lemmas show that they compute the list functions of \<open>Go_Generic\<close>
  and which arrays they leave alone; the parts that \<open>splitArrayBySliceSize\<close> returns are windows on the
  array they are cut from.
\<close>

section \<open>Arrays and slices\<close>

text \<open>The arrays of one element type, by address; an array is never freed.\<close>

type_synonym 'v store = "'v list list"

record slice =
  sl_arr :: nat
  sl_off :: nat
  sl_len :: nat
  sl_cap :: nat

definition nil_slice :: slice where
  "nil_slice = \<lparr>sl_arr = 0, sl_off = 0, sl_len = 0, sl_cap = 0\<rparr>"

text \<open>What the runtime guarantees of every slice, and the elements it shows.\<close>

definition slice_ok :: "'v store \<Rightarrow> slice \<Rightarrow> bool" where
  "slice_ok st s \<longleftrightarrow>
     sl_len s \<le> sl_cap s \<and>
     (sl_cap s = 0 \<or> sl_arr s < length st \<and> sl_off s + sl_cap s \<le> length (st ! sl_arr s))"

definition elems :: "'v store \<Rightarrow> slice \<Rightarrow> 'v list" where
  "elems st s = take (sl_len s) (drop (sl_off s) (st ! sl_arr s))"

text \<open>\<open>make([]T, n, c)\<close>; \<open>z\<close> is the zero value of the type.\<close>

definition make_slice :: "'v \<Rightarrow> nat \<Rightarrow> nat \<Rightarrow> 'v store \<Rightarrow> slice \<times> 'v store" where
  "make_slice z n c st =
     (\<lparr>sl_arr = length st, sl_off = 0, sl_len = n, sl_cap = c\<rparr>, st @ [replicate c z])"

text \<open>\<open>s[i]\<close>, \<open>&s[i]\<close>, \<open>*p = v\<close> and \<open>s[i] = v\<close>.\<close>

definition slice_get :: "'v store \<Rightarrow> slice \<Rightarrow> nat \<Rightarrow> 'v go" where
  "slice_get st s i = (if i < sl_len s then Inr (st ! sl_arr s ! (sl_off s + i)) else Inl IndexOutOfRange)"

definition slice_addr :: "slice \<Rightarrow> nat \<Rightarrow> nat \<times> nat" where
  "slice_addr s i = (sl_arr s, sl_off s + i)"

definition peek :: "'v store \<Rightarrow> nat \<times> nat \<Rightarrow> 'v" where
  "peek st p = st ! fst p ! snd p"

definition poke :: "nat \<times> nat \<Rightarrow> 'v \<Rightarrow> 'v store \<Rightarrow> 'v store" where
  "poke p v st = st[fst p := (st ! fst p)[snd p := v]]"

definition slice_set :: "slice \<Rightarrow> nat \<Rightarrow> 'v \<Rightarrow> 'v store \<Rightarrow> 'v store go" where
  "slice_set s i v st = (if i < sl_len s then Inr (poke (slice_addr s i) v st) else Inl IndexOutOfRange)"

text \<open>\<open>s[i:e]\<close> reaches up to the capacity, and keeps it.\<close>

definition subslice :: "slice \<Rightarrow> int \<Rightarrow> int \<Rightarrow> slice go" where
  "subslice s i e =
     (if 0 \<le> i \<and> i \<le> e \<and> e \<le> int (sl_cap s)
      then Inr \<lparr>sl_arr = sl_arr s, sl_off = sl_off s + nat i, sl_len = nat (e - i), sl_cap = sl_cap s - nat i\<rparr>
      else Inl SliceBounds)"

text \<open>\<open>append\<close> writes behind the elements where the capacity suffices, and otherwise into a new array,
  which the runtime makes as much larger than needed as it likes: \<open>spare\<close> is its choice.\<close>

definition array_write :: "'v list \<Rightarrow> nat \<Rightarrow> 'v list \<Rightarrow> 'v list" where
  "array_write xs i vs = take i xs @ vs @ drop (i + length vs) xs"

definition append_slice :: "(nat \<Rightarrow> nat \<Rightarrow> nat) \<Rightarrow> 'v \<Rightarrow> slice \<Rightarrow> 'v list \<Rightarrow> 'v store \<Rightarrow> slice \<times> 'v store" where
  "append_slice spare z s vs st =
     (let n = sl_len s + length vs
      in if n \<le> sl_cap s
         then (s\<lparr>sl_len := n\<rparr>,
               st[sl_arr s := array_write (st ! sl_arr s) (sl_off s + sl_len s) vs])
         else (\<lparr>sl_arr = length st, sl_off = 0, sl_len = n, sl_cap = n + spare (sl_cap s) n\<rparr>,
               st @ [elems st s @ vs @ replicate (spare (sl_cap s) n) z]))"

text \<open>\<open>for i, v := range s\<close>: the slice is read once, its elements one by one. \<open>'r\<close> is what the body assigns to.\<close>

fun range_over ::
  "nat list \<Rightarrow> slice \<Rightarrow> (nat \<Rightarrow> 'v \<Rightarrow> 'r \<Rightarrow> 'v store \<Rightarrow> ('r \<times> 'v store) go) \<Rightarrow> 'r \<Rightarrow> 'v store \<Rightarrow> ('r \<times> 'v store) go" where
  "range_over [] s body r st = Inr (r, st)"
| "range_over (i # is) s body r st =
     (case slice_get st s i of
        Inl p \<Rightarrow> Inl p
      | Inr v \<Rightarrow>
          (case body i v r st of Inl p \<Rightarrow> Inl p | Inr (r', st') \<Rightarrow> range_over is s body r' st'))"

section \<open>The helpers as loops\<close>

definition slice_Map :: "'v \<Rightarrow> slice \<Rightarrow> ('v \<Rightarrow> 'v) \<Rightarrow> 'v store \<Rightarrow> (slice \<times> 'v store) go" where
  "slice_Map z s fn st =
     (case make_slice z (sl_len s) (sl_len s) st of
        (to, st1) \<Rightarrow>
          range_over [0..<sl_len s] s
            (\<lambda>i v to st. case slice_set to i (fn v) st of Inl p \<Rightarrow> Inl p | Inr st' \<Rightarrow> Inr (to, st')) to st1)"

definition slice_Filter ::
  "(nat \<Rightarrow> nat \<Rightarrow> nat) \<Rightarrow> 'v \<Rightarrow> slice \<Rightarrow> ('v \<Rightarrow> bool) \<Rightarrow> 'v store \<Rightarrow> (slice \<times> 'v store) go" where
  "slice_Filter spare z s fn st =
     (case make_slice z 0 0 st of
        (to, st1) \<Rightarrow>
          range_over [0..<sl_len s] s
            (\<lambda>i v to st. Inr (if fn v then append_slice spare z to [v] st else (to, st))) to st1)"

text \<open>\<open>fn\<close> is called with the address of each element in turn.\<close>

definition slice_ForEach :: "slice \<Rightarrow> (nat \<times> nat \<Rightarrow> 'v store \<Rightarrow> 'v store) \<Rightarrow> 'v store \<Rightarrow> 'v store" where
  "slice_ForEach s fn st = fold (\<lambda>n st. fn (slice_addr s n) st) [0..<sl_len s] st"

definition slice_Reduce :: "slice \<Rightarrow> 'r \<Rightarrow> ('v \<Rightarrow> 'r \<Rightarrow> 'r) \<Rightarrow> 'v store \<Rightarrow> 'r go" where
  "slice_Reduce s init fn st =
     map_sum id fst (range_over [0..<sl_len s] s (\<lambda>i v acc st. Inr (fn v acc, st)) init st)"

text \<open>\<open>order\<close> is the order in which the loop visits the map.\<close>

definition slice_Keys :: "(nat \<Rightarrow> nat \<Rightarrow> nat) \<Rightarrow> 'k \<Rightarrow> 'k list \<Rightarrow> 'k store \<Rightarrow> slice \<times> 'k store" where
  "slice_Keys spare z order st =
     fold (\<lambda>k (keys, st). append_slice spare z keys [k] st) order (make_slice z 0 (length order) st)"

definition slice_Values ::
  "(nat \<Rightarrow> nat \<Rightarrow> nat) \<Rightarrow> 'v \<Rightarrow> ('k \<times> 'v) list \<Rightarrow> 'v store \<Rightarrow> slice \<times> 'v store" where
  "slice_Values spare z order st =
     fold (\<lambda>kv (values, st). append_slice spare z values [snd kv] st) order (make_slice z 0 (length order) st)"

definition slice_Zip ::
  "(nat \<Rightarrow> nat \<Rightarrow> nat) \<Rightarrow> 'a \<times> 'b \<Rightarrow> slice \<Rightarrow> slice \<Rightarrow> 'a store \<Rightarrow> 'b store \<Rightarrow> ('a \<times> 'b) store \<Rightarrow>
     (slice \<times> ('a \<times> 'b) store) go" where
  "slice_Zip spare z a b sta stb st =
     map_sum id fst
       (range_over [0..<sl_len a] a
          (\<lambda>n v (tuples, st) sta.
             case slice_get stb b n of
               Inl p \<Rightarrow> Inl p | Inr w \<Rightarrow> Inr (append_slice spare z tuples [(v, w)] st, sta))
          (make_slice z 0 (sl_len a) st) sta)"

definition slice_Dict :: "slice \<Rightarrow> slice \<Rightarrow> 'k store \<Rightarrow> 'v store \<Rightarrow> ('k \<rightharpoonup> 'v) go" where
  "slice_Dict a b sta stb =
     map_sum id fst
       (range_over [0..<sl_len a] a
          (\<lambda>n k kvs sta. case slice_get stb b n of Inl p \<Rightarrow> Inl p | Inr v \<Rightarrow> Inr (kvs(k \<mapsto> v), sta))
          Map.empty sta)"

text \<open>\<open>'f\<close> is \<open>float64\<close>; \<open>conv\<close> and \<open>of_len\<close> are the conversions to it.\<close>

definition slice_Sum :: "('v \<Rightarrow> 'f) \<Rightarrow> slice \<Rightarrow> 'v store \<Rightarrow> 'f::{zero,plus} go" where
  "slice_Sum conv data st =
     map_sum id fst (range_over [0..<sl_len data] data (\<lambda>i d sum st. Inr (sum + conv d, st)) 0 st)"

definition slice_Mean :: "('v \<Rightarrow> 'f) \<Rightarrow> (nat \<Rightarrow> 'f) \<Rightarrow> slice \<Rightarrow> 'v store \<Rightarrow> 'f::{zero,plus,divide} go" where
  "slice_Mean conv of_len data st =
     (if sl_len data = 0 then Inr 0
      else map_sum id (\<lambda>(sum, st). sum div of_len (sl_len data))
             (range_over [0..<sl_len data] data (\<lambda>i d sum st. Inr (sum + conv d, st)) 0 st))"

text \<open>The loop of the two splitting functions; the parts are headers in an array of their own.\<close>

partial_function (option) slice_split_from ::
  "(nat \<Rightarrow> nat \<Rightarrow> nat) \<Rightarrow> slice \<Rightarrow> int \<Rightarrow> int \<Rightarrow> slice \<Rightarrow> slice store \<Rightarrow> (slice \<times> slice store) go option" where
  "slice_split_from spare arr sliceSize i result hs =
     (if i < int (sl_len arr) then
        (let e = (if int (sl_len arr) < i64 (i + sliceSize) then int (sl_len arr) else i64 (i + sliceSize))
         in case subslice arr i e of
              Inl p \<Rightarrow> Some (Inl p)
            | Inr part \<Rightarrow>
                (case append_slice spare nil_slice result [part] hs of
                   (result', hs') \<Rightarrow> slice_split_from spare arr sliceSize (i64 (i + sliceSize)) result' hs'))
      else Some (Inr (result, hs)))"

declare slice_split_from.simps [code]

definition slice_splitArrayBySliceSize ::
  "(nat \<Rightarrow> nat \<Rightarrow> nat) \<Rightarrow> slice \<Rightarrow> int \<Rightarrow> slice store \<Rightarrow> (slice \<times> slice store) go option" where
  "slice_splitArrayBySliceSize spare arr sliceSize hs = slice_split_from spare arr sliceSize 0 nil_slice hs"

definition slice_splitArray ::
  "(nat \<Rightarrow> nat \<Rightarrow> nat) \<Rightarrow> slice \<Rightarrow> int \<Rightarrow> slice store \<Rightarrow> (slice \<times> slice store) go option" where
  "slice_splitArray spare arr n hs =
     (if n = 0 then Some (Inl DivideByZero)
      else let sliceSize = go_div (i64 (i64 (int (sl_len arr) + n) - 1)) n
           in if n < 0 then Some (Inl (Panicked ''makeslice: cap out of range''))
              else case make_slice nil_slice 0 (nat n) hs of
                     (result, hs1) \<Rightarrow> slice_split_from spare arr sliceSize 0 result hs1)"

text \<open>The statement of the logger that puts the place of the call in front of the arguments:
  \<open>append(vars[:0], append([]any{fl}, vars...)...)\<close>.\<close>

definition log_vars :: "(nat \<Rightarrow> nat \<Rightarrow> nat) \<Rightarrow> 'v \<Rightarrow> 'v \<Rightarrow> slice \<Rightarrow> 'v store \<Rightarrow> (slice \<times> 'v store) go" where
  "log_vars spare z fl vars st =
     (case subslice vars 0 0 of
        Inl p \<Rightarrow> Inl p
      | Inr front \<Rightarrow>
          (let (inner, st1) = (\<lparr>sl_arr = length st, sl_off = 0, sl_len = 1, sl_cap = 1\<rparr>, st @ [[fl]]);
               (inner', st2) = append_slice spare z inner (elems st1 vars) st1
           in Inr (append_slice spare z front (elems st2 inner') st2)))"

section \<open>Lemmas\<close>

named_theorems slice_defs \<open>definitions of the slice operations\<close>

lemmas [slice_defs] = slice_ok_def elems_def make_slice_def append_slice_def Let_def

text \<open>A write seen through a window on the array: behind it, before it, and at its end.\<close>

lemma length_array_write [simp]: "i + length vs \<le> length xs \<Longrightarrow> length (array_write xs i vs) = length xs"
  by (simp add: array_write_def)

lemma array_write_Nil [simp]: "array_write xs i [] = xs"
  by (simp add: array_write_def)

lemma array_write_nth:
  "i + length vs \<le> length xs \<Longrightarrow> j < length xs \<Longrightarrow>
     array_write xs i vs ! j = (if i \<le> j \<and> j < i + length vs then vs ! (j - i) else xs ! j)"
  by (auto simp: array_write_def nth_append min_def)

lemma array_write_window:
  "k + n \<le> i \<or> i + length vs \<le> k \<Longrightarrow> i + length vs \<le> length xs \<Longrightarrow>
     take n (drop k (array_write xs i vs)) = take n (drop k xs)"
  by (rule nth_equalityI) (auto simp: array_write_nth)

lemma array_write_end:
  "k + n + length vs \<le> length xs \<Longrightarrow>
     take (n + length vs) (drop k (array_write xs (k + n) vs)) = take n (drop k xs) @ vs"
  by (rule nth_equalityI) (auto simp: array_write_nth nth_append)

lemma array_write_snoc:
  "k + length vs < length xs \<Longrightarrow> array_write xs k (vs @ [v]) = (array_write xs k vs)[k + length vs := v]"
  by (rule nth_equalityI) (auto simp: array_write_nth nth_append nth_list_update)

text \<open>\<open>st\<close> has the arrays of \<open>st0\<close>, unchanged, and perhaps more.\<close>

definition grown :: "'v store \<Rightarrow> 'v store \<Rightarrow> bool" where
  "grown st0 st \<longleftrightarrow> (\<exists>new. st = st0 @ new)"

lemma grown_refl [simp]: "grown st st"
  by (simp add: grown_def)

lemma grown_elems:
  assumes "grown st0 st" and "slice_ok st0 s"
  shows "elems st s = elems st0 s" and "slice_ok st s"
  using assms by (auto simp: grown_def slice_defs nth_append)

lemma length_elems [simp]: "slice_ok st s \<Longrightarrow> length (elems st s) = sl_len s"
  by (auto simp: slice_defs)

lemma slice_get_elems: "slice_ok st s \<Longrightarrow> i < sl_len s \<Longrightarrow> slice_get st s i = Inr (elems st s ! i)"
  by (auto simp: slice_get_def slice_defs)

lemma make_slice_facts:
  assumes "n \<le> c" and "make_slice z n c st = (s, st')"
  shows "slice_ok st' s" and "elems st' s = replicate n z" and "grown st st'" and "sl_arr s = length st"
    and "sl_len s = n" and "sl_cap s = c"
  using assms by (auto simp: slice_defs grown_def min_def)

lemma append_slice_facts:
  assumes "slice_ok st s" and "append_slice spare z s vs st = (s', st')"
  shows "slice_ok st' s'" and "elems st' s' = elems st s @ vs" and "sl_len s' = sl_len s + length vs"
  using assms by (auto simp: slice_defs array_write_end split: if_splits)

text \<open>Appending to a slice whose array is newer than \<open>st0\<close> leaves the arrays of \<open>st0\<close> alone.\<close>

lemma append_slice_new:
  assumes "grown st0 st" and "length st0 \<le> sl_arr s" and "append_slice spare z s vs st = (s', st')"
  shows "grown st0 st' \<and> length st0 \<le> sl_arr s'"
  using assms by (auto simp: grown_def slice_defs list_update_append split: if_splits)

text \<open>Appending in place is seen by a slice that starts where the elements end, and by no other slice that does
  not reach behind them.\<close>

lemma append_slice_other:
  assumes "slice_ok st s" and "slice_ok st t" and "append_slice spare z s vs st = (s', st')"
    and "sl_arr t \<noteq> sl_arr s \<or> sl_off t + sl_len t \<le> sl_off s + sl_len s \<or> sl_off s + sl_cap s \<le> sl_off t"
  shows "elems st' t = elems st t"
proof (cases "sl_len t = 0")
  case False
  with assms show ?thesis
    by (auto simp: slice_defs nth_list_update nth_append array_write_window split: if_splits)
qed (simp add: elems_def)

lemma append_slice_overwrites:
  assumes "slice_ok st s" and "append_slice spare z s (v # vs) st = (s', st')"
    and "sl_len s + length (v # vs) \<le> sl_cap s"
    and "sl_arr t = sl_arr s" and "sl_off t = sl_off s + sl_len s" and "0 < sl_len t"
  shows "elems st' t ! 0 = v"
  using assms by (auto simp: slice_defs array_write_nth nth_list_update)

text \<open>Loops whose body keeps the slice they run over as it is.\<close>

lemma range_over_invariant:
  assumes "I 0 r st" and "\<And>i r st. I i r st \<Longrightarrow> slice_ok st s \<and> elems st s = xs"
    and "\<And>i r st. i < sl_len s \<Longrightarrow> I i r st \<Longrightarrow> \<exists>r' st'. body i (xs ! i) r st = Inr (r', st') \<and> I (Suc i) r' st'"
  shows "\<exists>r' st'. range_over [0..<sl_len s] s body r st = Inr (r', st') \<and> I (sl_len s) r' st'"
proof -
  have "\<exists>r' st'. range_over [j..<sl_len s] s body r st = Inr (r', st') \<and> I (sl_len s) r' st'"
    if "I j r st" "j \<le> sl_len s" for j r st
    using that
  proof (induction "sl_len s - j" arbitrary: j r st)
    case 0
    then show ?case by simp
  next
    case (Suc d)
    then have j: "j < sl_len s" by simp
    from assms(3) [OF j Suc.prems(1)] obtain r' st' where
      b: "body j (xs ! j) r st = Inr (r', st')" "I (Suc j) r' st'" by blast
    have "slice_get st s j = Inr (xs ! j)" using slice_get_elems j assms(2) [OF Suc.prems(1)] by metis
    with b Suc.hyps(1) [of "Suc j" r' st'] Suc.hyps(2) j show ?case by (simp add: upt_conv_Cons)
  qed
  with assms(1) show ?thesis by blast
qed

text \<open>Loops that change no array.\<close>

lemma range_over_fold:
  assumes "slice_ok st s"
  shows "range_over [0..<sl_len s] s (\<lambda>i v r st. Inr (f v r, st)) r st = Inr (fold f (elems st s) r, st)"
proof -
  let ?I = "\<lambda>i r' st'. r' = fold f (take i (elems st s)) r \<and> st' = st"
  have "\<exists>r' st'. range_over [0..<sl_len s] s (\<lambda>i v r st. Inr (f v r, st)) r st = Inr (r', st') \<and> ?I (sl_len s) r' st'"
  proof (rule range_over_invariant [where I = ?I and xs = "elems st s"])
    fix i r' st' assume "i < sl_len s" "?I i r' st'"
    then show "\<exists>r'' st''. Inr (f (elems st s ! i) r', st') = Inr (r'', st'') \<and> ?I (Suc i) r'' st''"
      using assms by (simp add: take_Suc_conv_app_nth)
  qed (use assms in auto)
  then show ?thesis using assms by simp
qed

text \<open>
  What a loop needs to know of the buffer it appends to: each turn adds the elements \<open>f x\<close> behind those that are
  shown. Slices meet the contract as long as their array is newer than the store \<open>st0\<close>, which then stays as it is.
\<close>

locale push_buffer =
  fixes push :: "'x \<Rightarrow> 'b \<Rightarrow> 'b"
    and shown :: "'b \<Rightarrow> 'v list"
    and ok :: "'b \<Rightarrow> bool"
    and f :: "'x \<Rightarrow> 'v list"
  assumes push_ok: "ok b \<Longrightarrow> ok (push x b)"
    and push_shown: "ok b \<Longrightarrow> shown (push x b) = shown b @ f x"
begin

lemma fold_push: "ok b \<Longrightarrow> ok (fold push xs b) \<and> shown (fold push xs b) = shown b @ concat (map f xs)"
  by (induction xs arbitrary: b) (simp_all add: push_ok push_shown)

end

definition own_slice :: "'v store \<Rightarrow> slice \<times> 'v store \<Rightarrow> bool" where
  "own_slice st0 b \<longleftrightarrow> slice_ok (snd b) (fst b) \<and> grown st0 (snd b) \<and> length st0 \<le> sl_arr (fst b)"

interpretation appended: push_buffer "\<lambda>x (s, st). append_slice spare z s (f x) st" "\<lambda>(s, st). elems st s" "own_slice st0" f
  for spare z f st0
proof
  fix b x
  assume ok: "own_slice st0 b"
  obtain s st s' st' where b: "b = (s, st)" and a: "append_slice spare z s (f x) st = (s', st')" by (cases b) fastforce
  note facts = append_slice_facts [OF _ a] append_slice_new [OF _ _ a, of st0]
  show "own_slice st0 (case b of (s, st) \<Rightarrow> append_slice spare z s (f x) st)"
    using ok facts by (simp add: own_slice_def b a)
  show "(case case b of (s, st) \<Rightarrow> append_slice spare z s (f x) st of (s, st) \<Rightarrow> elems st s) =
      (case b of (s, st) \<Rightarrow> elems st s) @ f x"
    using ok facts by (simp add: own_slice_def b a)
qed

text \<open>A loop that changes no array of the slice it runs over, as a fold that may panic.\<close>

fun go_foldi :: "(nat \<Rightarrow> 'v \<Rightarrow> 'r \<Rightarrow> 'r go) \<Rightarrow> nat \<Rightarrow> 'v list \<Rightarrow> 'r \<Rightarrow> 'r go" where
  "go_foldi f i [] r = Inr r"
| "go_foldi f i (v # vs) r = (case f i v r of Inl p \<Rightarrow> Inl p | Inr r' \<Rightarrow> go_foldi f (Suc i) vs r')"

lemma range_over_foldi:
  assumes "slice_ok st s" and "\<And>i v r. body i v r st = map_sum id (\<lambda>r'. (r', st)) (f i v r)"
  shows "range_over [0..<sl_len s] s body r st = map_sum id (\<lambda>r'. (r', st)) (go_foldi f 0 (elems st s) r)"
proof -
  have "range_over [j..<sl_len s] s body r st = map_sum id (\<lambda>r'. (r', st)) (go_foldi f j (drop j (elems st s)) r)"
    if "j \<le> sl_len s" for j r
    using that
  proof (induction "sl_len s - j" arbitrary: j r)
    case (Suc d)
    then have j: "j < sl_len s" by simp
    then have "drop j (elems st s) = elems st s ! j # drop (Suc j) (elems st s)"
      using assms(1) by (simp add: Cons_nth_drop_Suc)
    with Suc j assms slice_get_elems [OF assms(1) j] show ?case
      by (auto simp: upt_conv_Cons split: sum.splits)
  qed (use assms in simp)
  then show ?thesis by (metis drop0 le0)
qed

section \<open>The helpers compute the list functions\<close>

lemma slice_Map_eq:
  assumes "slice_ok st s"
  shows "\<exists>to st'. slice_Map z s fn st = Inr (to, st') \<and> slice_ok st' to \<and> elems st' to = Map (elems st s) fn \<and> grown st st'"
proof -
  let ?xs = "elems st s" and ?to = "\<lparr>sl_arr = length st, sl_off = 0, sl_len = sl_len s, sl_cap = sl_len s\<rparr>"
  let ?I = "\<lambda>i to st'. to = ?to \<and> st' = st @ [map fn (take i ?xs) @ replicate (sl_len s - i) z]"
  let ?body = "\<lambda>i v to st. case slice_set to i (fn v) st of Inl p \<Rightarrow> Inl p | Inr st' \<Rightarrow> Inr (to, st')"
  have "\<exists>to st'. range_over [0..<sl_len s] s ?body ?to (st @ [replicate (sl_len s) z]) = Inr (to, st') \<and> ?I (sl_len s) to st'"
  proof (rule range_over_invariant [where I = ?I and xs = ?xs])
    fix i to st' assume i: "i < sl_len s" and I: "?I i to st'"
    obtain d where d: "sl_len s - i = Suc d" "sl_len s - Suc i = d" using i by (cases "sl_len s - i") auto
    show "\<exists>to' st''. ?body i (?xs ! i) to st' = Inr (to', st'') \<and> ?I (Suc i) to' st''"
      using i I d assms
      by (auto simp: slice_set_def poke_def slice_addr_def list_update_append take_Suc_conv_app_nth min_def)
  next
    fix i to st' assume "?I i to st'"
    then have "grown st st'" by (auto simp: grown_def)
    with assms show "slice_ok st' s \<and> elems st' s = ?xs" using grown_elems by blast
  qed simp
  with assms show ?thesis
    by (auto simp: slice_Map_def make_slice_def Map_def grown_def slice_ok_def elems_def nth_append min_def)
qed

lemma slice_Filter_eq:
  assumes "slice_ok st s"
  shows "\<exists>to st'. slice_Filter spare z s fn st = Inr (to, st') \<and> slice_ok st' to \<and>
    elems st' to = Filter (elems st s) fn \<and> grown st st'"
proof -
  obtain to1 st1 where m: "make_slice z 0 0 st = (to1, st1)" by fastforce
  let ?xs = "elems st s"
  let ?I = "\<lambda>i to st'. slice_ok st' to \<and> elems st' to = filter fn (take i ?xs) \<and> grown st st' \<and> length st \<le> sl_arr to"
  let ?body = "\<lambda>i v to st. Inr (if fn v then append_slice spare z to [v] st else (to, st))"
  have "\<exists>to st'. range_over [0..<sl_len s] s ?body to1 st1 = Inr (to, st') \<and> ?I (sl_len s) to st'"
  proof (rule range_over_invariant [where I = ?I and xs = ?xs])
    show "?I 0 to1 st1" using make_slice_facts [OF le_refl m] by simp
  next
    fix i to st' assume "?I i to st'"
    with assms show "slice_ok st' s \<and> elems st' s = ?xs" using grown_elems by blast
  next
    fix i to st' assume i: "i < sl_len s" and I: "?I i to st'"
    obtain to' st'' where a: "append_slice spare z to [?xs ! i] st' = (to', st'')" by fastforce
    have "?I (Suc i) to' st''" if "fn (?xs ! i)"
      using that i I assms append_slice_facts [OF _ a] append_slice_new [OF _ _ a, of st]
      by (simp add: take_Suc_conv_app_nth)
    with i I a assms show "\<exists>to' st''. ?body i (?xs ! i) to st' = Inr (to', st'') \<and> ?I (Suc i) to' st''"
      by (auto simp: take_Suc_conv_app_nth)
  qed
  with assms m show ?thesis by (auto simp: slice_Filter_def)
qed


text \<open>\<open>ForEach\<close> with a function that changes what it is given the address of.\<close>

definition poke_with :: "('v \<Rightarrow> 'v) \<Rightarrow> nat \<times> nat \<Rightarrow> 'v store \<Rightarrow> 'v store" where
  "poke_with h p st = poke p (h (peek st p)) st"

lemma slice_ForEach_store:
  assumes "slice_ok st s"
  shows "slice_ForEach s (poke_with h) st =
    st[sl_arr s := array_write (st ! sl_arr s) (sl_off s) (map h (elems st s))]"
proof -
  let ?w = "\<lambda>i. st[sl_arr s := array_write (st ! sl_arr s) (sl_off s) (map h (take i (elems st s)))]"
  have "fold (\<lambda>n st. poke_with h (slice_addr s n) st) [0..<i] st = ?w i" if "i \<le> sl_len s" for i
    using that
  proof (induction i)
    case (Suc i)
    then have ok: "sl_arr s < length st" "sl_off s + sl_cap s \<le> length (st ! sl_arr s)" "i < length (elems st s)"
        "elems st s ! i = st ! sl_arr s ! (sl_off s + i)" "sl_len s \<le> sl_cap s"
      using assms by (auto simp: slice_ok_def elems_def)
    have "array_write (st ! sl_arr s) (sl_off s) (map h (take (Suc i) (elems st s))) =
        (array_write (st ! sl_arr s) (sl_off s) (map h (take i (elems st s))))[sl_off s + i := h (elems st s ! i)]"
      using ok Suc.prems assms array_write_snoc [of "sl_off s" "map h (take i (elems st s))" "st ! sl_arr s"]
      by (simp add: take_Suc_conv_app_nth min_def)
    with Suc ok assms show ?case
      by (simp add: poke_with_def poke_def peek_def slice_addr_def array_write_nth min_def)
  qed (simp add: list_update_id)
  from this [of "sl_len s"] assms show ?thesis by (simp add: slice_ForEach_def)
qed

lemma slice_ForEach_eq:
  assumes "slice_ok st s"
  shows "elems (slice_ForEach s (poke_with h) st) s = ForEach (elems st s) h"
proof (cases "sl_len s = 0")
  case False
  with assms have ok: "sl_arr s < length st" "sl_off s + sl_len s \<le> length (st ! sl_arr s)"
    by (auto simp: slice_ok_def)
  have "elems (st[sl_arr s := A]) s = take (sl_len s) (drop (sl_off s) A)" for A
    using ok(1) by (simp add: elems_def)
  with array_write_end [of "sl_off s" 0 "map h (elems st s)" "st ! sl_arr s"] ok assms show ?thesis
    by (simp add: slice_ForEach_store [OF assms] ForEach_def)
qed (simp add: elems_def ForEach_def)

lemma slice_Reduce_eq:
  assumes "slice_ok st s"
  shows "slice_Reduce s init fn st = Inr (Reduce (elems st s) init fn)"
  using range_over_fold [OF assms, of fn init] by (simp add: slice_Reduce_def Reduce_fold)

lemma slice_Values_eq:
  assumes "slice_Values spare z order st = (values, st')"
  shows "slice_ok st' values \<and> elems st' values = map snd order \<and> grown st st'"
proof -
  obtain s1 st1 where m: "make_slice z 0 (length order) st = (s1, st1)" by fastforce
  note made = make_slice_facts [OF le0 m]
  have "own_slice st (s1, st1)" using made by (simp add: own_slice_def)
  from appended.fold_push [OF this, where f = "\<lambda>kv. [snd kv]" and xs = order, of spare z] assms m made(2) show ?thesis
    by (simp add: slice_Values_def own_slice_def)
qed

lemma slice_Keys_eq:
  assumes "slice_Keys spare z order st = (keys, st')"
  shows "slice_ok st' keys \<and> elems st' keys = order \<and> grown st st'"
proof -
  obtain s1 st1 where m: "make_slice z 0 (length order) st = (s1, st1)" by fastforce
  note made = make_slice_facts [OF le0 m]
  have "own_slice st (s1, st1)" using made by (simp add: own_slice_def)
  from appended.fold_push [OF this, where f = "\<lambda>k. [k]" and xs = order, of spare z] assms m made(2) show ?thesis
    by (simp add: slice_Keys_def own_slice_def)
qed

lemma slice_Sum_eq:
  assumes "slice_ok st s"
  shows "slice_Sum conv s st = Inr (Sum conv (elems st s))"
  using range_over_fold [OF assms, of "\<lambda>d sum. sum + conv d" 0]
  by (simp add: slice_Sum_def Sum_def foldl_conv_fold)

lemma slice_Mean_eq:
  assumes "slice_ok st s"
  shows "slice_Mean conv of_len s st = Inr (Mean conv of_len (elems st s))"
proof (cases "sl_len s = 0")
  case True
  then show ?thesis by (simp add: slice_Mean_def Mean_def elems_def)
next
  case False
  with length_elems [OF assms] have "elems st s \<noteq> []" by auto
  with False assms range_over_fold [OF assms, of "\<lambda>d sum. sum + conv d" 0] show ?thesis
    by (simp add: slice_Mean_def Mean_def Sum_def foldl_conv_fold)
qed

text \<open>\<open>Zip\<close> and \<open>Dict\<close>, with the panic where the second slice is shorter.\<close>

lemma slice_get_drop:
  assumes "slice_ok st b"
  shows "slice_get st b n = (case drop n (elems st b) of [] \<Rightarrow> Inl IndexOutOfRange | w # _ \<Rightarrow> Inr w)"
proof (cases "n < sl_len b")
  case True
  with assms have "drop n (elems st b) = elems st b ! n # drop (Suc n) (elems st b)"
    by (simp add: Cons_nth_drop_Suc)
  with slice_get_elems [OF assms True] show ?thesis by simp
qed (use assms in \<open>simp add: slice_get_def\<close>)

lemma slice_Dict_eq:
  fixes sta :: "'k store" and stb :: "'v store"
  assumes "slice_ok sta a" and "slice_ok stb b"
  shows "slice_Dict a b sta stb = Dict (elems sta a) (elems stb b)"
proof -
  let ?f = "\<lambda>n (k :: 'k) kvs. case slice_get stb b n of Inl p \<Rightarrow> Inl p | Inr v \<Rightarrow> Inr (kvs(k \<mapsto> v))"
  have "go_foldi ?f j ks m = Dict_from m ks (drop j (elems stb b))" for j ks m
  proof (induction ks arbitrary: j m)
    case (Cons k ks)
    show ?case
    proof (cases "drop j (elems stb b)")
      case (Cons v vs)
      then have "drop (Suc j) (elems stb b) = vs" by (metis drop_Suc list.sel(3) tl_drop)
      with Cons Cons.IH show ?thesis by (simp add: slice_get_drop [OF assms(2)] fun_upd_def)
    qed (simp add: slice_get_drop [OF assms(2)])
  qed simp
  moreover have "range_over [0..<sl_len a] a
      (\<lambda>n k kvs sta. case slice_get stb b n of Inl p \<Rightarrow> Inl p | Inr v \<Rightarrow> Inr (kvs(k \<mapsto> v), sta)) Map.empty sta =
      map_sum id (\<lambda>r. (r, sta)) (go_foldi ?f 0 (elems sta a) Map.empty)"
    by (rule range_over_foldi [OF assms(1)]) (simp split: sum.splits)
  ultimately show ?thesis
    by (simp add: slice_Dict_def Dict_def sum.map_comp comp_def sum.map_ident id_def)
qed

lemma drop_Cons_Suc: "drop j xs = y # ys \<Longrightarrow> drop (Suc j) xs = ys"
  by (metis drop_Suc list.sel(3) tl_drop)

lemma slice_Zip_eq:
  fixes sta :: "'a store" and stb :: "'b store"
  assumes "slice_ok sta a" and "slice_ok stb b"
  shows "map_sum id (\<lambda>(t, st). elems st t) (slice_Zip spare z a b sta stb st) = Zip (elems sta a) (elems stb b)"
proof -
  let ?f = "\<lambda>n (v :: 'a) (tuples, st). case slice_get stb b n of
      Inl p \<Rightarrow> Inl p | Inr w \<Rightarrow> Inr (append_slice spare z tuples [(v, w)] st)"
  have loop: "map_sum id (\<lambda>(t, st). elems st t) (go_foldi ?f j vs (t, st)) =
      map_sum id ((@) (elems st t)) (Zip vs (drop j (elems stb b)))" if "slice_ok st t" for j vs t st
    using that
  proof (induction vs arbitrary: j t st)
    case (Cons v vs)
    show ?case
    proof (cases "drop j (elems stb b)")
      case (Cons w ws)
      obtain t' st' where a: "append_slice spare z t [(v, w)] st = (t', st')" by fastforce
      note facts = append_slice_facts [OF Cons.prems a]
      show ?thesis
        using Cons.IH [OF facts(1), of "Suc j"] Cons a facts(2) drop_Cons_Suc [OF Cons]
        by (simp add: slice_get_drop [OF assms(2)] sum.map_comp comp_def split: sum.splits)
    qed (simp add: slice_get_drop [OF assms(2)])
  qed simp
  obtain t st1 where m: "make_slice z 0 (sl_len a) st = (t, st1)" by fastforce
  note facts = make_slice_facts [OF le0 m]
  have "slice_Zip spare z a b sta stb st = go_foldi ?f 0 (elems sta a) (t, st1)"
    unfolding slice_Zip_def m
    by (subst range_over_foldi [OF assms(1), where f = ?f])
      (auto simp: sum.map_comp comp_def sum.map_ident id_def split: sum.splits)
  moreover have "(@) [] = (\<lambda>ts :: ('a \<times> 'b) list. ts)" by (simp add: fun_eq_iff)
  ultimately show ?thesis
    using loop [OF facts(1), of 0 "elems sta a"] facts(2) by (simp add: sum.map_ident id_def)
qed

section \<open>Splitting\<close>

lemma subslice_elems:
  assumes "slice_ok st s" and "e \<le> int (sl_len s)"
  shows "map_sum id (elems st) (subslice s i e) = go_slice (elems st s) i e"
    and "subslice s i e = Inr p \<Longrightarrow> slice_ok st p"
  using assms
  by (auto simp: subslice_def go_slice_def slice_ok_def elems_def take_drop min_def add.commute nat_diff_distrib
      split: if_splits)

text \<open>The headers the loop makes show the parts it would cut from the list; it returns where the
  loop over the list does.\<close>

lemma slice_split_result:
  assumes "slice_split_from spare arr sz i result hs = Some r" and "slice_ok st arr" and "slice_ok hs result"
  shows "split_from (elems st arr) sz i (map (elems st) (elems hs result)) =
    Some (map_sum id (\<lambda>(res, hs'). map (elems st) (elems hs' res)) r)"
  using assms(2,3)
proof (induction rule: slice_split_from.raw_induct [OF _ assms(1), consumes 0, case_names loop])
  case (loop loop spare arr sz i result hs r)
  note 1 = loop
  show ?case
  proof (cases "i < int (sl_len arr)")
    case True
    define e where "e = (if int (sl_len arr) < i64 (i + sz) then int (sl_len arr) else i64 (i + sz))"
    have "e \<le> int (sl_len arr)" by (simp add: e_def)
    note sub = subslice_elems [OF 1(3) this, of i]
    have unf: "split_from (elems st arr) sz i ps =
        (case go_slice (elems st arr) i e of Inl p \<Rightarrow> Some (Inl p)
         | Inr part \<Rightarrow> split_from (elems st arr) sz (i64 (i + sz)) (ps @ [part]))" for ps
      by (subst split_from.simps) (use True 1(3) in \<open>simp add: e_def Let_def\<close>)
    show ?thesis
    proof (cases "subslice arr i e")
      case (Inl p)
      with 1(2) True have "r = Inl p" by (simp add: e_def Let_def)
      moreover have "go_slice (elems st arr) i e = Inl p" using Inl sub(1) by simp
      ultimately show ?thesis by (simp add: unf)
    next
      case (Inr part)
      obtain result' hs' where a: "append_slice spare nil_slice result [part] hs = (result', hs')" by fastforce
      note facts = append_slice_facts [OF 1(4) a]
      have "loop spare arr sz (i64 (i + sz)) result' hs' = Some r" using 1(2) True Inr a by (simp add: e_def Let_def)
      from 1(1) [OF this 1(3) facts(1)] facts(2) show ?thesis using Inr sub(1) [symmetric] by (simp add: unf)
    qed
  next
    case False
    with 1(2) have "r = Inr (result, hs)" by simp
    with False 1(3) show ?thesis by (subst split_from.simps) simp
  qed
qed


lemma slice_split_returns:
  assumes "split_from xs sz i ps = Some y" and "slice_ok st arr" and "elems st arr = xs"
  shows "slice_split_from spare arr sz i result hs \<noteq> None"
  using assms(2,3)
proof (induction arbitrary: result hs rule: split_from.raw_induct [OF _ assms(1), consumes 0, case_names loop])
  case (loop loop xs sz i ps y)
  note 1 = loop
  have n: "length xs = sl_len arr" using 1(3,4) by auto
  show ?case
  proof (cases "i < int (sl_len arr)")
    case True
    define e where "e = (if int (sl_len arr) < i64 (i + sz) then int (sl_len arr) else i64 (i + sz))"
    have "e \<le> int (sl_len arr)" by (simp add: e_def)
    note sub = subslice_elems(1) [OF 1(3) this, of i]
    show ?thesis
    proof (cases "subslice arr i e")
      case (Inl p)
      with True show ?thesis by (subst slice_split_from.simps) (simp add: e_def Let_def)
    next
      case (Inr part)
      obtain result' hs' where a: "append_slice spare nil_slice result [part] hs = (result', hs')" by fastforce
      have "loop xs sz (i64 (i + sz)) (ps @ [elems st part]) = Some y"
        using 1(2) True Inr sub [symmetric] unfolding n 1(4) e_def [symmetric] Let_def by simp
      from 1(1) [OF this 1(3,4), of result' hs'] Inr True a show ?thesis
        by (subst slice_split_from.simps) (simp add: e_def Let_def)
    qed
  qed (subst slice_split_from.simps, simp)
qed

lemma slice_split_from_eq:
  assumes "slice_ok st arr" and "slice_ok hs result"
  shows "map_option (map_sum id (\<lambda>(res, hs'). map (elems st) (elems hs' res)))
      (slice_split_from spare arr sz i result hs) =
    split_from (elems st arr) sz i (map (elems st) (elems hs result))"
proof (cases "slice_split_from spare arr sz i result hs")
  case None
  then have "split_from (elems st arr) sz i (map (elems st) (elems hs result)) = None"
    using slice_split_returns [OF _ assms(1) refl, of sz i _ _ spare result hs] by fastforce
  with None show ?thesis by simp
next
  case (Some r)
  with slice_split_result [OF Some assms] show ?thesis by simp
qed

text \<open>The headers of the parts, from index \<open>i\<close> on.\<close>

definition part_at :: "slice \<Rightarrow> nat \<Rightarrow> nat \<Rightarrow> slice" where
  "part_at arr k i =
     \<lparr>sl_arr = sl_arr arr, sl_off = sl_off arr + i, sl_len = min k (sl_len arr - i), sl_cap = sl_cap arr - i\<rparr>"

function part_headers :: "slice \<Rightarrow> nat \<Rightarrow> nat \<Rightarrow> slice list" where
  "part_headers arr k i = (if i < sl_len arr \<and> 0 < k then part_at arr k i # part_headers arr k (i + k) else [])"
  by auto
termination by (relation "measure (\<lambda>(arr, k, i). sl_len arr - i)") auto

declare part_headers.simps [simp del]

lemma part_headers_nth:
  "j < length (part_headers arr k i) \<Longrightarrow>
     part_headers arr k i ! j = part_at arr k (i + j * k) \<and> i + j * k < sl_len arr"
proof (induction arr k i arbitrary: j rule: part_headers.induct)
  case (1 arr k i)
  show ?case
  proof (cases "i < sl_len arr \<and> 0 < k")
    case True
    then have h: "part_headers arr k i = part_at arr k i # part_headers arr k (i + k)"
      by (subst part_headers.simps) simp
    with 1 True show ?thesis by (cases j) (simp_all add: algebra_simps)
  next
    case False
    then have "part_headers arr k i = []" by (subst part_headers.simps) simp
    with 1(2) show ?thesis by simp
  qed
qed

lemma slice_split_headers:
  assumes "0 < sz" and "int (sl_len arr) + sz < 2 ^ 63" and "sl_len arr \<le> sl_cap arr"
    and "slice_ok hs result" and "0 \<le> i" and "i < int (sl_len arr) + sz"
  shows "\<exists>res hs'. slice_split_from spare arr sz i result hs = Some (Inr (res, hs')) \<and> slice_ok hs' res \<and>
    elems hs' res = elems hs result @ part_headers arr (nat sz) (nat i)"
  using assms(4-6)
proof (induction "nat (int (sl_len arr) - i)" arbitrary: i result hs rule: less_induct)
  case less
  show ?case
  proof (cases "i < int (sl_len arr)")
    case False
    with less.prems show ?thesis by (subst slice_split_from.simps, subst part_headers.simps) simp
  next
    case True
    have next_i: "i64 (i + sz) = i + sz"
      by (rule i64_id) (use assms less.prems True in \<open>auto simp: in_i64_def\<close>)
    let ?e = "if int (sl_len arr) < i + sz then int (sl_len arr) else i + sz"
    have sub: "subslice arr i ?e = Inr (part_at arr (nat sz) (nat i))"
      using True assms(1,3) less.prems by (auto simp: subslice_def part_at_def min_def)
    obtain result' hs' where a: "append_slice spare nil_slice result [part_at arr (nat sz) (nat i)] hs = (result', hs')"
      by fastforce
    note facts = append_slice_facts [OF less.prems(1) a]
    have rec: "slice_split_from spare arr sz i result hs = slice_split_from spare arr sz (i + sz) result' hs'"
      by (subst slice_split_from.simps) (use True in \<open>simp only: if_True next_i Let_def sub sum.case a prod.case\<close>)
    have headers: "part_headers arr (nat sz) (nat i) =
        part_at arr (nat sz) (nat i) # part_headers arr (nat sz) (nat (i + sz))"
      using True assms(1) less.prems by (subst part_headers.simps) (simp add: nat_add_distrib)
    show ?thesis
      using less.hyps [of "i + sz" hs' result'] True assms(1) less.prems facts
      by (simp add: rec headers)
  qed
qed

text \<open>Appending to a part that is not the last writes into the next part and into the array they come from.\<close>

lemma append_to_part:
  assumes "slice_ok st arr" and "0 < sz" and "int (sl_len arr) + sz < 2 ^ 63"
    and "slice_splitArrayBySliceSize spare arr sz hs = Some (Inr (res, hs'))" and "Suc j < sl_len res"
    and "append_slice spare z (elems hs' res ! j) [v] st = (p', st')"
  shows "elems st' (elems hs' res ! Suc j) ! 0 = v \<and> elems st' arr ! (Suc j * nat sz) = v"
proof -
  define k where "k = nat sz"
  have "slice_ok hs nil_slice" "elems hs nil_slice = []" by (simp_all add: slice_ok_def elems_def nil_slice_def)
  with slice_split_headers [OF assms(2,3), of hs nil_slice 0 spare] assms(1-4)
  have res: "slice_ok hs' res" "elems hs' res = part_headers arr k 0"
    by (auto simp: slice_splitArrayBySliceSize_def slice_ok_def k_def)
  have "Suc j < length (part_headers arr k 0)" using res length_elems [OF res(1)] assms(5) by simp
  then have parts: "elems hs' res ! j = part_at arr k (j * k)" "elems hs' res ! Suc j = part_at arr k (Suc j * k)"
      "Suc j * k < sl_len arr"
    using part_headers_nth [of j arr k 0] part_headers_nth [of "Suc j" arr k 0] by (simp_all add: res(2))
  have k: "0 < k" using assms(2) by (simp add: k_def)
  have "(st[sl_arr arr := array_write (st ! sl_arr arr) (sl_off arr + Suc j * k) [v]]) = st'"
    using assms(6) parts k by (auto simp: append_slice_def part_at_def min_def Let_def add.commute add.left_commute
      split: if_splits) (use assms(1) in \<open>auto simp: slice_ok_def\<close>)
  with assms(1) parts k show ?thesis
    by (auto simp: elems_def part_at_def slice_ok_def array_write_nth k_def)
qed


section \<open>The arguments of the logger\<close>

text \<open>The place of the call comes first in what is printed. Where the caller spreads a slice with spare
  capacity, its own elements are moved up by one as well.\<close>

lemma log_vars_eq:
  assumes "slice_ok st vars"
  shows "\<exists>s' st'. log_vars spare z fl vars st = Inr (s', st') \<and> elems st' s' = fl # elems st vars \<and>
    elems st' vars =
      (if sl_len vars < sl_cap vars then take (sl_len vars) (fl # elems st vars) else elems st vars)"
proof -
  let ?inner = "\<lparr>sl_arr = length st, sl_off = 0, sl_len = 1, sl_cap = 1\<rparr>" and ?st1 = "st @ [[fl]]"
  let ?front = "\<lparr>sl_arr = sl_arr vars, sl_off = sl_off vars, sl_len = 0, sl_cap = sl_cap vars\<rparr>"
  let ?vs = "fl # elems st vars"
  obtain inner' st2 where a: "append_slice spare z ?inner (elems ?st1 vars) ?st1 = (inner', st2)" by fastforce
  obtain s' st' where b: "append_slice spare z ?front ?vs st2 = (s', st')" by fastforce
  have g: "grown st ?st1" by (simp add: grown_def)
  have inner: "slice_ok ?st1 ?inner" "elems ?st1 ?inner = [fl]" by (simp_all add: slice_ok_def elems_def)
  have g2: "grown st st2" using append_slice_new [OF g _ a] by simp
  have vars2: "slice_ok st2 vars" "elems st2 vars = elems st vars" using grown_elems [OF g2 assms] by simp_all
  have front: "slice_ok st2 ?front" "elems st2 ?front = []" using vars2(1) by (auto simp: slice_ok_def elems_def)
  have run: "log_vars spare z fl vars st = Inr (s', st')"
    using append_slice_facts(2) [OF inner(1) a] a b inner(2) grown_elems(1) [OF g assms]
    by (simp add: log_vars_def subslice_def)
  have "elems st' vars = (if sl_len vars < sl_cap vars then take (sl_len vars) ?vs else elems st vars)"
  proof (cases "sl_len vars < sl_cap vars")
    case True
    with vars2(1) have ok: "sl_arr vars < length st2" "sl_off vars + sl_cap vars \<le> length (st2 ! sl_arr vars)"
      by (auto simp: slice_ok_def)
    from True b assms have "st' = st2[sl_arr vars := array_write (st2 ! sl_arr vars) (sl_off vars) ?vs]"
      by (auto simp: append_slice_def)
    moreover have "take (sl_len vars) (drop (sl_off vars) (array_write (st2 ! sl_arr vars) (sl_off vars) ?vs)) =
        take (sl_len vars) ?vs"
      using ok True assms by (intro nth_equalityI) (auto simp: array_write_nth)
    ultimately show ?thesis using True ok by (simp add: elems_def)
  next
    case False
    with assms have "elems st' vars = elems st2 vars"
      using append_slice_other [OF front(1) vars2(1) b] b front assms
      by (auto simp: append_slice_def slice_ok_def elems_def nth_append Let_def split: if_splits)
    with False vars2(2) show ?thesis by simp
  qed
  with run append_slice_facts(2) [OF front(1) b] front(2) show ?thesis by simp
qed

section \<open>Properties\<close>

text \<open>C38. In memory, too, the generic helpers compute the list functions: on slices that may share arrays in any way,
  \<open>Map\<close> and \<open>Filter\<close> return new slices with the right elements and leave every array alone, \<open>ForEach\<close> changes
  exactly the elements of its slice, \<open>Reduce\<close>, \<open>Zip\<close> and \<open>Dict\<close> give the values of the list functions, with the panic
  where the second slice is too short, whatever spare capacity the runtime gives to the arrays it makes.\<close>

theorem slice_helpers_compute:
  assumes "slice_ok st s" and "slice_ok st t"
  shows "(\<exists>to st'. slice_Map z s fn st = Inr (to, st') \<and> elems st' to = Map (elems st s) fn \<and> grown st st') \<and>
    (\<exists>to st'. slice_Filter spare z s P st = Inr (to, st') \<and> elems st' to = Filter (elems st s) P \<and> grown st st') \<and>
    slice_ForEach s (poke_with fn) st = st[sl_arr s := array_write (st ! sl_arr s) (sl_off s) (ForEach (elems st s) fn)] \<and>
    slice_Reduce s init acc st = Inr (Reduce (elems st s) init acc) \<and>
    map_sum id (\<lambda>(r, st'). elems st' r) (slice_Zip spare (z, z) s t st st []) = Zip (elems st s) (elems st t) \<and>
    slice_Dict s t st st = Dict (elems st s) (elems st t)"
  using slice_Map_eq [OF assms(1), of z fn] slice_Filter_eq [OF assms(1), of spare z P]
    slice_ForEach_store [OF assms(1), of fn] slice_Reduce_eq [OF assms(1), of init acc]
    slice_Zip_eq [OF assms, of spare "(z, z)" "[]"] slice_Dict_eq [OF assms]
  by (auto simp: ForEach_def)

theorem slice_helpers_compute_witness:
  "elems (slice_ForEach \<lparr>sl_arr = 0, sl_off = 1, sl_len = 2, sl_cap = 3\<rparr> (poke_with (\<lambda>x. x + 200)) [[0, 1, 2, 3 :: int]])
     \<lparr>sl_arr = 0, sl_off = 0, sl_len = 4, sl_cap = 4\<rparr> = [0, 201, 202, 3] \<and>
   slice_Reduce \<lparr>sl_arr = 0, sl_off = 1, sl_len = 2, sl_cap = 3\<rparr> 100 (+) [[0, 1, 2, 3 :: int]] = Inr 103"
proof -
  let ?s = "\<lparr>sl_arr = 0, sl_off = 1, sl_len = 2, sl_cap = 3\<rparr>"
  have "slice_ok [[0, 1, 2, 3 :: int]] ?s" by (simp add: slice_ok_def)
  from slice_helpers_compute [OF this this, of 0 "\<lambda>x. x + 200" "\<lambda>c n. 0" "\<lambda>x. True" "100 :: int" "(+)"]
  show ?thesis by (simp add: elems_def ForEach_def array_write_def numeral_eq_Suc)
qed

text \<open>C37. The parts of \<open>splitArray\<close> and \<open>splitArrayBySliceSize\<close> are windows on the array they are cut from, and what they show is
  what the list functions give, in every case: the parts, the panic for a bad size, and the loop that never
  ends for the size zero. No array is copied.\<close>

theorem split_in_memory:
  assumes "slice_ok st arr"
  shows "map_option (map_sum id (\<lambda>(res, hs'). map (elems st) (elems hs' res))) (slice_splitArrayBySliceSize spare arr k hs) =
      splitArrayBySliceSize (elems st arr) k \<and>
    map_option (map_sum id (\<lambda>(res, hs'). map (elems st) (elems hs' res))) (slice_splitArray spare arr k hs) =
      splitArray (elems st arr) k"
proof -
  have none: "slice_ok hs nil_slice" "elems hs nil_slice = []" by (simp_all add: slice_ok_def elems_def nil_slice_def)
  obtain res hs1 where m: "make_slice nil_slice 0 (nat k) hs = (res, hs1)" by fastforce
  note made = make_slice_facts(1,2) [OF le0 m]
  have len: "length (elems st arr) = sl_len arr" using assms by simp
  show ?thesis
    using slice_split_from_eq [OF assms none(1), of spare k 0] none(2)
      slice_split_from_eq [OF assms made(1), of spare _ 0] made(2)
    unfolding slice_splitArrayBySliceSize_def splitArrayBySliceSize_def slice_splitArray_def splitArray_def m len
    by (simp add: Let_def)
qed

theorem split_in_memory_witness:
  "map_option (map_sum id (\<lambda>(res, hs'). map (elems [[1, 2, 3, 4, 5 :: int]]) (elems hs' res)))
     (slice_splitArrayBySliceSize (\<lambda>c n. n) \<lparr>sl_arr = 0, sl_off = 0, sl_len = 5, sl_cap = 5\<rparr> 2 []) =
   Some (Inr [[1, 2], [3, 4], [5]])"
proof -
  let ?arr = "\<lparr>sl_arr = 0, sl_off = 0, sl_len = 5, sl_cap = 5\<rparr>"
  have ok: "slice_ok [[1, 2, 3, 4, 5 :: int]] ?arr" by (simp add: slice_ok_def)
  have "splitArrayBySliceSize [1, 2, 3, 4, 5 :: int] 2 = Some (Inr [[1, 2], [3, 4], [5]])" by code_simp
  moreover have "elems [[1, 2, 3, 4, 5 :: int]] ?arr = [1, 2, 3, 4, 5]" by (simp add: elems_def)
  ultimately show ?thesis
    using split_in_memory [OF ok, of "\<lambda>c n. n" 2 "[]"] by (simp only:)
qed

end
