(* ===== verification/Snapshot_Service.thy ===== *)
theory Snapshot_Service
  imports Snapshot_Manager Recv_Services
begin

text \<open>
  \<open>SnapShotService\<close> of \<open>market_snapshot.go\<close>, a feed that the manager has fields for and never starts, and
  \<open>Init\<close>, which makes those fields. The service is the one \<open>WsDepthService\<close> grew out of, and it shows what
  was changed there: its \<open>error\<close> waits for a reader of \<open>doneC\<close>, and its \<open>run\<close> makes one attempt only.
\<close>

section \<open>The service\<close>

text \<open>\<open>ns_conn\<close> is the connection whose \<open>doneC\<close> and \<open>stopC\<close> the service holds, \<open>None\<close> for nil channels;
  \<open>ns_updates\<close> is \<open>None\<close> for the nil map. \<open>ns_opened\<close> and \<open>ns_stopped\<close> record the connections that were opened and
  those that were sent a stop signal.\<close>

record SnapShotService =
  ns_id :: string
  ns_symbols :: "string list"
  ns_conn :: "nat option"
  ns_err :: bool
  ns_updates :: "string set option"
  ns_opened :: "nat list"
  ns_stopped :: "nat list"

text \<open>A send to a nil channel never returns: \<open>None\<close>.\<close>

definition SnapShotService_reset :: "SnapShotService \<Rightarrow> SnapShotService option" where
  "SnapShotService_reset ds =
     (case ns_conn ds of None \<Rightarrow> None | Some c \<Rightarrow> Some (ds\<lparr>ns_stopped := ns_stopped ds @ [c]\<rparr>))"

text \<open>An assignment to an entry of the nil map panics; the send of the event blocks where the channel is full.\<close>

definition SnapShotService_handler ::
  "WsDepthEvent \<Rightarrow> SnapShotService \<Rightarrow> msg_chan \<Rightarrow> (SnapShotService \<times> msg_chan option) go" where
  "SnapShotService_handler event ds ch =
     (case ns_updates ds of
        None \<Rightarrow> Inl (Panicked ''assignment to entry in nil map'')
      | Some u \<Rightarrow> Inr (ds\<lparr>ns_updates := Some (insert (de_Symbol event) u)\<rparr>, OnWsDepthEvent event ch))"

definition SnapShotService_run :: "serve \<Rightarrow> SnapShotService \<Rightarrow> SnapShotService" where
  "SnapShotService_run serve ds =
     (case serve (SubDepth (key_values (ns_symbols ds) (FormatInt 10))) 0 of
        None \<Rightarrow> ds\<lparr>ns_updates := Some {}, ns_conn := None, ns_err := True\<rparr>
      | Some c \<Rightarrow> ds\<lparr>ns_updates := Some {}, ns_conn := Some c, ns_err := False, ns_opened := ns_opened ds @ [c]\<rparr>)"

text \<open>\<open>ds.doneC <- struct{}{}\<close> returns when somebody reads the channel: \<open>reader\<close>.\<close>

definition SnapShotService_error :: "bool \<Rightarrow> serve \<Rightarrow> SnapShotService \<Rightarrow> SnapShotService option" where
  "SnapShotService_error reader serve ds =
     (case ns_conn ds of
        None \<Rightarrow> None
      | Some c \<Rightarrow> if reader then Some (SnapShotService_run serve ds) else None)"

section \<open>The manager's fields for it\<close>

record snap_services = SnapShotManager +
  ss_services :: "SnapShotService list"
  ss_by_symbol :: "string \<rightharpoonup> SnapShotService"

definition SnapShotManager_Init :: "SnapShotManagerConfigVars \<Rightarrow> snap_services \<Rightarrow> snap_services" where
  "SnapShotManager_Init cfg s = s\<lparr>ss_config := cfg, ss_services := [], ss_by_symbol := Map.empty\<rparr>"

section \<open>Sessions\<close>

text \<open>What the goroutine of the connection calls, one after the other. A call that blocks ends the session, with the
  service as it was; after \<open>error\<close> the rest comes from the connection that \<open>run\<close> opened.\<close>

datatype svc_call = CallHandler WsDepthEvent | CallError

fun svc_session ::
  "bool \<Rightarrow> serve \<Rightarrow> svc_call list \<Rightarrow> SnapShotService \<Rightarrow> msg_chan \<Rightarrow> (SnapShotService \<times> msg_chan) go" where
  "svc_session reader serve [] ds ch = Inr (ds, ch)"
| "svc_session reader serve (CallHandler event # calls) ds ch =
     (case SnapShotService_handler event ds ch of
        Inl p \<Rightarrow> Inl p
      | Inr (ds', None) \<Rightarrow> Inr (ds', ch)
      | Inr (ds', Some ch') \<Rightarrow> svc_session reader serve calls ds' ch')"
| "svc_session reader serve (CallError # calls) ds ch =
     (case SnapShotService_error reader serve ds of
        None \<Rightarrow> Inr (ds, ch)
      | Some ds' \<Rightarrow> svc_session reader serve calls ds' ch)"

lemma run_started: "ns_updates (SnapShotService_run serve ds) \<noteq> None"
  by (simp add: SnapShotService_run_def split: option.splits)

text \<open>A service that \<open>run\<close> has started never panics.\<close>

lemma session_returns:
  "ns_updates ds \<noteq> None \<Longrightarrow> \<exists>ds' ch'. svc_session reader serve calls ds ch = Inr (ds', ch') \<and> ns_updates ds' \<noteq> None"
proof (induction reader serve calls ds ch rule: svc_session.induct)
  case (2 reader serve event calls ds ch)
  then show ?case by (auto simp: SnapShotService_handler_def split: option.splits)
next
  case (3 reader serve calls ds ch)
  then show ?case using run_started [of serve ds] by (auto simp: SnapShotService_error_def split: option.splits)
qed simp

text \<open>Nothing in the program reads \<open>doneC\<close>. So the first lost connection is the last: whatever the exchange sends
  and however often it fails, \<open>run\<close> opens no second one.\<close>

lemma session_opens_nothing:
  "svc_session False serve calls ds ch = Inr (ds', ch') \<Longrightarrow> ns_opened ds' = ns_opened ds \<and> ns_conn ds' = ns_conn ds"
proof (induction calls arbitrary: ds ch)
  case (Cons call calls)
  show ?case
  proof (cases call)
    case (CallHandler event)
    with Cons.prems obtain u where u: "ns_updates ds = Some u"
      by (cases "ns_updates ds") (simp_all add: SnapShotService_handler_def)
    show ?thesis
    proof (cases "OnWsDepthEvent event ch")
      case (Some ch1)
      with Cons.prems u CallHandler Cons.IH [of _ ch1] show ?thesis by (fastforce simp: SnapShotService_handler_def)
    qed (use Cons.prems u CallHandler in \<open>auto simp: SnapShotService_handler_def\<close>)
  next
    case CallError
    have "SnapShotService_error False serve ds = None"
      by (simp add: SnapShotService_error_def split: option.splits)
    with CallError Cons.prems show ?thesis by simp
  qed
qed simp

text \<open>With a reader it would have been opened again, as \<open>WsDepthService\<close> does.\<close>

lemma session_reopens:
  assumes "ns_conn ds = Some c" and "serve (SubDepth (key_values (ns_symbols ds) (FormatInt 10))) 0 = Some c'"
  shows "\<exists>ds'. svc_session True serve [CallError] ds ch = Inr (ds', ch) \<and> ns_conn ds' = Some c' \<and>
    ns_opened ds' = ns_opened ds @ [c']"
  using assms by (simp add: SnapShotService_error_def SnapShotService_run_def)

end
